theory Spec2Isabelle
  imports Main "HOL-Library.AList"
begin

section \<open>Strings and the Go standard library\<close>

text \<open>
  Go strings are byte sequences; they are modelled as \<open>string\<close> (a list of \<open>char\<close>).
  The separators the generator passes to \<open>strings.Split\<close>, \<open>strings.Index\<close> and
  \<open>strings.LastIndex\<close> are all single bytes, so these functions take a \<open>char\<close>.
\<close>

definition dq :: char where
  "dq = CHR 0x22"

definition nl :: char where
  "nl = CHR 0x0A"

text \<open>\<open>strings.Index(s, c)\<close>: the position of the first \<open>c\<close>, \<open>None\<close> for Go's \<open>-1\<close>.\<close>

fun go_Index :: "char \<Rightarrow> string \<Rightarrow> nat option" where
  "go_Index c [] = None"
| "go_Index c (x # xs) =
     (if x = c then Some 0 else (case go_Index c xs of None \<Rightarrow> None | Some i \<Rightarrow> Some (Suc i)))"

text \<open>\<open>strings.LastIndex(s, c)\<close>.\<close>

fun go_LastIndex :: "char \<Rightarrow> string \<Rightarrow> nat option" where
  "go_LastIndex c [] = None"
| "go_LastIndex c (x # xs) =
     (case go_LastIndex c xs of
        Some i \<Rightarrow> Some (Suc i)
      | None \<Rightarrow> (if x = c then Some 0 else None))"

text \<open>\<open>strings.Split(s, c)\<close>: always at least one piece; \<open>Split("", c)\<close> is \<open>[""]\<close>.\<close>

fun go_Split :: "char \<Rightarrow> string \<Rightarrow> string list" where
  "go_Split c [] = [[]]"
| "go_Split c (x # xs) =
     (if x = c then [] # go_Split c xs
      else (case go_Split c xs of [] \<Rightarrow> [[x]] | w # ws \<Rightarrow> (x # w) # ws))"

text \<open>\<open>strings.Join(xs, sep)\<close>.\<close>

fun go_Join :: "string list \<Rightarrow> string \<Rightarrow> string" where
  "go_Join [] sep = []"
| "go_Join [x] sep = x"
| "go_Join (x # y # ys) sep = x @ sep @ go_Join (y # ys) sep"

definition go_HasPrefix :: "string \<Rightarrow> string \<Rightarrow> bool" where
  "go_HasPrefix s p = (take (length p) s = p)"

definition go_TrimPrefix :: "string \<Rightarrow> string \<Rightarrow> string" where
  "go_TrimPrefix s p = (if go_HasPrefix s p then drop (length p) s else s)"

definition go_HasSuffix :: "string \<Rightarrow> string \<Rightarrow> bool" where
  "go_HasSuffix s p = (length p \<le> length s \<and> drop (length s - length p) s = p)"

definition go_TrimSuffix :: "string \<Rightarrow> string \<Rightarrow> string" where
  "go_TrimSuffix s p = (if go_HasSuffix s p then take (length s - length p) s else s)"

text \<open>\<open>strings.Contains(s, sub)\<close>.\<close>

fun go_Contains :: "string \<Rightarrow> string \<Rightarrow> bool" where
  "go_Contains [] sub = (sub = [])"
| "go_Contains (x # xs) sub = (go_HasPrefix (x # xs) sub \<or> go_Contains xs sub)"

text \<open>\<open>strings.Trim(s, " ")\<close>: leading and trailing spaces removed.\<close>

definition go_TrimSpaces :: "string \<Rightarrow> string" where
  "go_TrimSpaces s =
     rev (dropWhile (\<lambda>c. c = CHR '' '') (rev (dropWhile (\<lambda>c. c = CHR '' '') s)))"

text \<open>
  \<open>path.Ext\<close>: the suffix beginning at the final dot in the final slash-separated
  element of the path; empty if there is no dot. The scan runs from the end of the
  string, so the helper works on the reversed string and collects what it passed.
\<close>

fun extScan :: "string \<Rightarrow> string \<Rightarrow> string" where
  "extScan [] acc = []"
| "extScan (x # xs) acc =
     (if x = CHR ''/'' then []
      else if x = CHR ''.'' then x # acc
      else extScan xs (x # acc))"

definition path_Ext :: "string \<Rightarrow> string" where
  "path_Ext p = extScan (rev p) []"

text \<open>\<open>strconv.Itoa\<close> on a non-negative argument, and on any \<open>int\<close>.\<close>

definition digit :: "nat \<Rightarrow> char" where
  "digit d = ''0123456789'' ! d"

fun ItoaNat :: "nat \<Rightarrow> string" where
  "ItoaNat n = (if n < 10 then [digit n] else ItoaNat (n div 10) @ [digit (n mod 10)])"

declare ItoaNat.simps [simp del]

definition Itoa :: "int \<Rightarrow> string" where
  "Itoa i = (if i < 0 then CHR ''-'' # ItoaNat (nat (- i)) else ItoaNat (nat i))"

section \<open>Fatal outcomes\<close>

text \<open>
  \<open>Generator.Fail\<close> logs its message and exits the process with status 1. Each call
  site of the modelled code is one constructor; the comment gives the logged text.
  \<open>Panic\<close> is a Go run-time panic (nil dereference, index out of range), which also
  ends the process.
\<close>

datatype error =
    UnknownPathType string            \<comment> \<open>Unknown path type %q: want "import" or "source_relative".\<close>
  | NoFilesToGenerate                 \<comment> \<open>no files to generate\<close>
  | CouldNotFindFile string           \<comment> \<open>could not find file named <name>\<close>
  | NestingFailure string             \<comment> \<open>internal error: nesting failure for <name>\<close>
  | EnumNestingFailure string         \<comment> \<open>internal error: enum nesting failure for <name>\<close>
  | InconsistentImportPaths string string  \<comment> \<open>inconsistent package import paths: a, b\<close>
  | InconsistentPackageNames string string \<comment> \<open>inconsistent package names: a, b\<close>
  | ObjectNotFound string             \<comment> \<open>can't find object with type <name>\<close>
  | HandlerFileNotFound               \<comment> \<open>handler.json file not found\<close>
  | HandlerFileContentError           \<comment> \<open>handler.json file content error\<close>
  | HttpOptionNotFound                \<comment> \<open>option google.api.http not found\<close>
  | Panic string

text \<open>Sequencing of steps that may end the run.\<close>

definition bindE :: "error + 'a \<Rightarrow> ('a \<Rightarrow> error + 'b) \<Rightarrow> error + 'b" where
  "bindE m f = (case m of Inl e \<Rightarrow> Inl e | Inr x \<Rightarrow> f x)"

text \<open>A \<open>for\<close> loop over a slice whose body computes one value or ends the run.\<close>

fun mapE :: "('a \<Rightarrow> error + 'b) \<Rightarrow> 'a list \<Rightarrow> error + 'b list" where
  "mapE f [] = Inr []"
| "mapE f (x # xs) =
     (case f x of
        Inl e \<Rightarrow> Inl e
      | Inr y \<Rightarrow> (case mapE f xs of Inl e \<Rightarrow> Inl e | Inr ys \<Rightarrow> Inr (y # ys)))"

section \<open>Functions the sources call but do not contain\<close>

text \<open>
  \<open>CamelCase\<close>, \<open>CamelCaseSlice\<close>, \<open>cleanPackageName\<close>, \<open>baseName\<close>, the path constants
  \<open>messagePath\<close>, \<open>messageMessagePath\<close>, \<open>enumPath\<close>, \<open>messageEnumPath\<close> and the
  \<open>TypeName\<close> method of \<open>ExtensionDescriptor\<close> belong to the generator package, in
  files that are not among the sources. The remaining fields are the parts of the Go
  standard library and of the process environment that the generator uses and whose
  exact behaviour (Unicode case folding, path cleaning, regular expressions, JSON, the
  file system) is left open here. The model takes all of them as parameters.

  \<open>json.Unmarshal\<close> into a \<open>map[string]string\<close> has three outcomes: an error; the
  JSON value \<open>null\<close>, which sets the map to \<open>nil\<close> without an error; a map.
  \<open>os.WriteFile\<close> is the disk it leaves for a disk, a path and a content: the code
  does not look at the error it returns, so a failed write only shows in that disk.
\<close>

datatype unmarshalled =
    UnmarshalError
  | UnmarshalNil
  | UnmarshalMap "(string \<times> string) list"

record env =
  CamelCase :: "string \<Rightarrow> string"
  CamelCaseSlice :: "string list \<Rightarrow> string"
  cleanPackageName :: "string \<Rightarrow> string"
  baseName :: "string \<Rightarrow> string"
  messagePath :: int
  messageMessagePath :: int
  enumPath :: int
  messageEnumPath :: int
  ExtensionTypeName :: "string \<Rightarrow> string list"
  path_Dir :: "string \<Rightarrow> string"
  filepath_Dir :: "string \<Rightarrow> string"
  strings_ToLower :: "string \<Rightarrow> string"
  strings_EqualFold :: "string \<Rightarrow> string \<Rightarrow> bool"
  regAnnotation_FindStringSubmatch :: "string \<Rightarrow> string list"
  json_Unmarshal :: "string \<Rightarrow> unmarshalled"
  json_Marshal :: "(string \<times> string) list \<Rightarrow> string"
  os_WriteFile :: "(string \<rightharpoonup> string) \<Rightarrow> string \<Rightarrow> string \<Rightarrow> (string \<rightharpoonup> string)"
  os_Getenv :: "string \<Rightarrow> string"

text \<open>
  Modelled from the spec: \<open>dottedSlice\<close> is not among the sources; the index keys are
  dotted fully-qualified names of the form \<open>.pkg.Outer.Inner\<close>, so the elements of the
  type name are joined with dots.
\<close>

definition dottedSlice :: "string list \<Rightarrow> string" where
  "dottedSlice elem = go_Join elem ''.''"

section \<open>The descriptor messages of the request\<close>

datatype FieldType =
    TYPE_DOUBLE | TYPE_FLOAT | TYPE_INT64 | TYPE_UINT64 | TYPE_INT32 | TYPE_FIXED64
  | TYPE_FIXED32 | TYPE_BOOL | TYPE_STRING | TYPE_GROUP | TYPE_MESSAGE | TYPE_BYTES
  | TYPE_UINT32 | TYPE_ENUM | TYPE_SFIXED32 | TYPE_SFIXED64 | TYPE_SINT32 | TYPE_SINT64

text \<open>The string fields hold what the \<open>Get...\<close> accessors return (empty when unset).\<close>

record FieldDescriptorProto =
  f_Name :: string
  f_Type :: FieldType
  f_TypeName :: string

record EnumDescriptorProto =
  e_Name :: string

datatype DescriptorProto =
  DescriptorProto
    (m_Name: string)
    (m_Field: "FieldDescriptorProto list")
    (m_NestedType: "DescriptorProto list")
    (m_EnumType: "EnumDescriptorProto list")
    (m_Extension: "FieldDescriptorProto list")
    (m_MapEntry: bool)

text \<open>The \<open>pattern\<close> oneof of \<open>google.api.HttpRule\<close>.\<close>

datatype HttpPattern =
    NoPattern
  | HttpRule_Get string
  | HttpRule_Put string
  | HttpRule_Post string
  | HttpRule_Delete string
  | HttpRule_Patch string
  | HttpRule_Custom string string

record HttpRule =
  Pattern :: HttpPattern
  ResponseBody :: string

text \<open>
  \<open>md_Options = None\<close> is \<open>method.Options == nil\<close>; \<open>E_Http = None\<close> is an options
  message without the \<open>google.api.http\<close> extension.
\<close>

record MethodOptions =
  E_Http :: "HttpRule option"

record MethodDescriptorProto =
  md_Name :: string
  md_InputType :: string
  md_OutputType :: string
  md_Options :: "MethodOptions option"

record ServiceDescriptorProto =
  sv_Name :: string
  sv_Method :: "MethodDescriptorProto list"

record Location =
  loc_Path :: "int list"
  loc_LeadingComments :: "string option"

text \<open>
  \<open>Name\<close> and \<open>Package\<close> are pointers in Go and the code both dereferences them and
  tests them against nil, so they are options here. \<open>go_package\<close> is
  \<open>GetOptions().GetGoPackage()\<close>.
\<close>

record FileDescriptorProto =
  Name :: "string option"
  Package :: "string option"
  Dependency :: "string list"
  PublicDependency :: "int list"
  WeakDependency :: "int list"
  MessageType :: "DescriptorProto list"
  EnumType :: "EnumDescriptorProto list"
  Service :: "ServiceDescriptorProto list"
  Extension :: "FieldDescriptorProto list"
  go_package :: string
  SourceCodeInfo :: "Location list"
  Syntax :: string

definition GetName :: "FileDescriptorProto \<Rightarrow> string" where
  "GetName f = (case Name f of None \<Rightarrow> [] | Some n \<Rightarrow> n)"

definition GetPackage :: "FileDescriptorProto \<Rightarrow> string" where
  "GetPackage f = (case Package f of None \<Rightarrow> [] | Some p \<Rightarrow> p)"

record CodeGeneratorRequest =
  FileToGenerate :: "string list"
  Parameter :: string
  ProtoFile :: "FileDescriptorProto list"

section \<open>The wrapped descriptors\<close>

text \<open>
  Pointers become positions: a \<open>*Descriptor\<close> or \<open>*EnumDescriptor\<close> is its position in
  the \<open>desc\<close> or \<open>enum\<close> slice of its file, a \<open>*FileDescriptor\<close> its position in
  \<open>allFiles\<close>. Two pointers are equal exactly when the positions are.
  \<open>d_typename\<close> is what \<open>TypeName()\<close> returns: the names along the parent chain,
  outermost first. The chain never changes after wrapping, so the vector is stored
  when the descriptor is built.
\<close>

record Descriptor =
  d_proto :: DescriptorProto
  d_parent :: "nat option"
  d_nested :: "nat list"
  d_enums :: "nat list"
  d_ext :: "FieldDescriptorProto list"
  d_typename :: "string list"
  d_index :: nat
  d_path :: string
  d_group :: bool

record EnumDescriptor =
  ed_proto :: EnumDescriptorProto
  ed_parent :: "nat option"
  ed_typename :: "string list"
  ed_index :: nat
  ed_path :: string

text \<open>
  An \<open>Object\<close> is a message, an enum or a top-level extension of the file at the given
  position of \<open>allFiles\<close>.
\<close>

datatype Object =
    DescObj nat nat
  | EnumObj nat nat
  | ExtObj nat nat

text \<open>\<open>ImportedDescriptor{common{file}, o}\<close>: the importing file and the object.\<close>

record ImportedDescriptor =
  id_file :: nat
  id_o :: Object

record FileDescriptor =
  fd_proto :: FileDescriptorProto
  fd_desc :: "Descriptor list"
  fd_enum :: "EnumDescriptor list"
  fd_ext :: "FieldDescriptorProto list"
  fd_imp :: "ImportedDescriptor list"
  fd_comments :: "string \<rightharpoonup> string"
  fd_importPath :: string
  fd_packageName :: string
  fd_proto3 :: bool

datatype pathType = pathTypeImport | pathTypeSourceRelative

section \<open>The generator\<close>

text \<open>
  \<open>Buffer\<close> holds the lines written by \<open>P\<close>, in order; the text of the buffer is these
  lines, each followed by a newline. Go maps that the code iterates over (\<open>Param\<close>) are
  association lists with distinct keys; maps that are only looked up are partial
  functions; maps to \<open>bool\<close> that are only tested are sets. \<open>usedPackageNames\<close> is a
  list so that it is finite by construction. \<open>disk\<close> is the part of the file
  system the generator reads and writes: a path maps to the content of a readable file.
\<close>

record Generator =
  Buffer :: "string list"
  Request :: CodeGeneratorRequest
  Response :: "(string \<times> string) list"
  Param :: "(string \<times> string) list"
  PackageImportPath :: string
  ImportPrefix :: string
  ImportMap :: "string \<rightharpoonup> string"
  Pkg :: "string \<rightharpoonup> string"
  outputImportPath :: string
  allFiles :: "FileDescriptor list"
  allFilesByName :: "string \<rightharpoonup> nat"
  genFiles :: "nat list"
  g_file :: "nat option"
  packageNames :: "string \<rightharpoonup> string"
  usedPackages :: "string set"
  usedPackageNames :: "string list"
  addedImports :: "string set"
  typeNameToObject :: "string \<rightharpoonup> Object"
  indent :: string
  pathType :: pathType
  writeOutput :: bool
  disk :: "string \<rightharpoonup> string"

text \<open>\<open>New\<close>: every field has Go's zero value; the request and the disk are given.\<close>

definition New :: "CodeGeneratorRequest \<Rightarrow> (string \<rightharpoonup> string) \<Rightarrow> Generator" where
  "New req dsk =
     \<lparr> Buffer = [], Request = req, Response = [], Param = [], PackageImportPath = [],
       ImportPrefix = [], ImportMap = Map.empty, Pkg = Map.empty, outputImportPath = [],
       allFiles = [], allFilesByName = Map.empty, genFiles = [], g_file = None,
       packageNames = Map.empty, usedPackages = {}, usedPackageNames = [],
       addedImports = {}, typeNameToObject = Map.empty, indent = [],
       pathType = pathTypeImport, writeOutput = False, disk = dsk \<rparr>"

text \<open>\<open>g.Param[k]\<close>: the empty string when the key is absent.\<close>

definition ParamGet :: "Generator \<Rightarrow> string \<Rightarrow> string" where
  "ParamGet g k = (case map_of (Param g) k of None \<Rightarrow> [] | Some v \<Rightarrow> v)"

subsection \<open>CommandLineParameters\<close>

text \<open>The first loop: one map entry per comma-separated piece.\<close>

definition paramEntry :: "string \<Rightarrow> string \<times> string" where
  "paramEntry p =
     (case go_Index (CHR ''='') p of
        None \<Rightarrow> (p, [])
      | Some i \<Rightarrow> (take i p, drop (i + 1) p))"

definition parseParam :: "string \<Rightarrow> (string \<times> string) list" where
  "parseParam parameter =
     fold (\<lambda>p m. case paramEntry p of (k, v) \<Rightarrow> AList.update k v m)
       (go_Split (CHR '','') parameter) []"

text \<open>The body of the second loop: the \<open>switch\<close> on one entry of \<open>g.Param\<close>.\<close>

definition paramCase :: "Generator \<Rightarrow> string \<Rightarrow> string \<Rightarrow> error + Generator" where
  "paramCase g k v =
     (if k = ''import_prefix'' then Inr (g\<lparr>ImportPrefix := v\<rparr>)
      else if k = ''import_path'' then Inr (g\<lparr>PackageImportPath := v\<rparr>)
      else if k = ''paths'' then
        (if v = ''import'' then Inr (g\<lparr>pathType := pathTypeImport\<rparr>)
         else if v = ''source_relative'' then Inr (g\<lparr>pathType := pathTypeSourceRelative\<rparr>)
         else Inl (UnknownPathType v))
      else if length k > 0 \<and> hd k = CHR ''M'' then
        Inr (g\<lparr>ImportMap := (ImportMap g)(tl k \<mapsto> v)\<rparr>)
      else Inr g)"

text \<open>
  The second loop runs over the entries of \<open>g.Param\<close>. Go visits them in an unspecified
  order; every key is visited once and the cases write different fields (or different
  keys of \<open>ImportMap\<close>), so the order does not change the outcome.
\<close>

fun paramLoop :: "Generator \<Rightarrow> (string \<times> string) list \<Rightarrow> error + Generator" where
  "paramLoop g [] = Inr g"
| "paramLoop g ((k, v) # kvs) = bindE (paramCase g k v) (\<lambda>g'. paramLoop g' kvs)"

definition CommandLineParameters :: "Generator \<Rightarrow> string \<Rightarrow> error + Generator" where
  "CommandLineParameters g parameter =
     (let g1 = g\<lparr>Param := parseParam parameter\<rparr>;
          g2 = g1\<lparr>ImportMap := Map.empty\<rparr>
      in bindE (paramLoop g2 (Param g2))
           (\<lambda>g3. if ImportPrefix g3 = []
                  then Inr (g3\<lparr>ImportPrefix := ParamGet g3 ''repo'' @ ''/''\<rparr>)
                  else Inr g3))"

subsection \<open>Output\<close>

text \<open>\<open>P\<close> with string atoms: one line, the indent first; nothing unless \<open>writeOutput\<close>.\<close>

definition P :: "Generator \<Rightarrow> string list \<Rightarrow> Generator" where
  "P g str =
     (if \<not> writeOutput g then g
      else g\<lparr>Buffer := Buffer g @ [indent g @ concat str]\<rparr>)"

subsection \<open>goFileName\<close>

definition goFileName :: "env \<Rightarrow> FileDescriptor \<Rightarrow> pathType \<Rightarrow> string \<Rightarrow> error + string" where
  "goFileName E d pt typ =
     (case Name (fd_proto d) of
        None \<Rightarrow> Inl (Panic ''nil pointer dereference'')
      | Some name0 \<Rightarrow>
          (let ext = path_Ext name0;
               name1 = (if ext = ''.proto'' \<or> ext = ''.protodevel''
                        then take (length name0 - length ext) name0 else name0);
               name2 = (case Package (fd_proto d) of
                          None \<Rightarrow> name1
                        | Some _ \<Rightarrow>
                            (let pname = strings_ToLower E (GetPackage (fd_proto d));
                                 arr = go_Split (CHR ''/'') name1
                             in if length arr = 2 then pname @ ''/'' @ arr ! 1
                                else pname @ ''/'' @ arr ! 0));
               name3 = name2 @ ''.'' @ typ @ ''.go''
           in if pt = pathTypeSourceRelative then Inr name3 else Inr name3))"

subsection \<open>The import blocks\<close>

text \<open>
  \<open>imports\<close> is a Go map keyed by package name; only its keys are used. It is the list
  of its keys here.
\<close>

definition generateModelImports :: "Generator \<Rightarrow> string list \<Rightarrow> Generator" where
  "generateModelImports g imports =
     (if length imports = 0 then g
      else
        (let g1 = P g [''import (''];
             g2 = fold (\<lambda>importPath g'. P g' [[dq] @ ImportPrefix g' @ importPath @ [dq]])
                    imports g1;
             g3 = P g2 ['')''];
             g4 = P g3 []
         in P g4 []))"

definition generateApiImports :: "Generator \<Rightarrow> string list \<Rightarrow> bool \<Rightarrow> Generator" where
  "generateApiImports g imports hasBinding =
     (let g1 = P g [''import (''];
          g2 = P g1 [[dq] @ ''github.com/gin-gonic/gin'' @ [dq]];
          g3 = (if hasBinding then P g2 [[dq] @ ''github.com/gin-gonic/gin/binding'' @ [dq]]
                else g2);
          g4 = P g3 [];
          g5 = P g4 [[dq], ParamGet g4 ''repo'', ''/router'' @ [dq]];
          g6 = fold (\<lambda>importPath g'. P g' [[dq] @ ImportPrefix g' @ importPath @ [dq]])
                 imports g5;
          g7 = P g6 ['')''];
          g8 = P g7 []
      in P g8 [])"

section \<open>Package names\<close>

definition isGoPredeclaredIdentifier :: "string \<Rightarrow> bool" where
  "isGoPredeclaredIdentifier s =
     (s \<in> set [''append'', ''bool'', ''byte'', ''cap'', ''close'', ''complex'', ''complex128'',
               ''complex64'', ''copy'', ''delete'', ''error'', ''false'', ''float32'',
               ''float64'', ''imag'', ''int'', ''int16'', ''int32'', ''int64'', ''int8'',
               ''iota'', ''len'', ''make'', ''new'', ''nil'', ''panic'', ''print'',
               ''println'', ''real'', ''recover'', ''rune'', ''string'', ''true'', ''uint'',
               ''uint16'', ''uint32'', ''uint64'', ''uint8'', ''uintptr''])"

text \<open>The condition of the renaming loop in \<open>GoPackageName\<close>.\<close>

definition nameTaken :: "string list \<Rightarrow> string \<Rightarrow> bool" where
  "nameTaken used name = (name \<in> set used \<or> isGoPredeclaredIdentifier name)"

text \<open>
  The loop \<open>for i, orig := 1, name; taken(name); i++ { name = orig + Itoa(i) }\<close>.
  It ends because \<open>Itoa\<close> is injective and only finitely many names are taken; the
  three lemmas below are what the termination proof needs.
\<close>

definition digitVal :: "char \<Rightarrow> nat" where
  "digitVal c = of_char c - 48"

lemma digitVal_digit: "d < 10 \<Longrightarrow> digitVal (digit d) = d"
proof -
  assume "d < 10"
  then have "d \<in> {0, 1, 2, 3, 4, 5, 6, 7, 8, 9}" by auto
  then show ?thesis by (auto simp: digitVal_def digit_def)
qed

lemma ItoaNat_inverse: "foldl (\<lambda>a c. 10 * a + digitVal c) 0 (ItoaNat n) = n"
proof (induction n rule: ItoaNat.induct)
  case (1 n)
  show ?case
  proof (cases "n < 10")
    case True
    then show ?thesis by (simp add: ItoaNat.simps [of n] digitVal_digit)
  next
    case False
    with 1 show ?thesis by (simp add: ItoaNat.simps [of n] digitVal_digit)
  qed
qed

lemma finite_taken_candidates: "finite {j. nameTaken used (orig @ ItoaNat j)}"
proof -
  let ?A = "{name. nameTaken used name}"
  have "inj ItoaNat"
    by (rule inj_on_inverseI [where g = "foldl (\<lambda>a c. 10 * a + digitVal c) 0"])
       (rule ItoaNat_inverse)
  then have i: "inj (\<lambda>j. orig @ ItoaNat j)"
    by (auto simp: inj_on_def)
  have "?A = set used \<union> {name. isGoPredeclaredIdentifier name}"
    by (auto simp: nameTaken_def)
  moreover have "finite {name. isGoPredeclaredIdentifier name}"
    unfolding isGoPredeclaredIdentifier_def by simp
  ultimately have "finite ?A" by simp
  then have "finite ((\<lambda>j. orig @ ItoaNat j) -` ?A)"
    by (rule finite_vimageI [OF _ i])
  then show ?thesis by (simp add: vimage_def)
qed

function pkgNameLoop :: "string list \<Rightarrow> string \<Rightarrow> nat \<Rightarrow> string \<Rightarrow> string" where
  "pkgNameLoop used orig i name =
     (if nameTaken used name then pkgNameLoop used orig (Suc i) (orig @ ItoaNat i) else name)"
  by pat_completeness auto
termination
proof (relation "measure (\<lambda>(used, orig, i, name).
         card {j. i \<le> j \<and> nameTaken used (orig @ ItoaNat j)}
         + (if nameTaken used name then 1 else 0))")
  show "wf (measure (\<lambda>(used, orig, i, name).
         card {j. i \<le> j \<and> nameTaken used (orig @ ItoaNat j)}
         + (if nameTaken used name then 1 else 0)))"
    by simp
next
  fix used :: "string list" and orig :: string and i :: nat and name :: string
  assume t: "nameTaken used name"
  let ?T = "\<lambda>j. nameTaken used (orig @ ItoaNat j)"
  have fin: "finite {j. i \<le> j \<and> ?T j}"
    by (rule finite_subset [OF _ finite_taken_candidates [of used orig]]) blast
  have sub: "{j. Suc i \<le> j \<and> ?T j} \<subseteq> {j. i \<le> j \<and> ?T j}" by auto
  have "card {j. Suc i \<le> j \<and> ?T j} + (if ?T i then 1 else 0) \<le> card {j. i \<le> j \<and> ?T j}"
  proof (cases "?T i")
    case True
    then have "{j. i \<le> j \<and> ?T j} = insert i {j. Suc i \<le> j \<and> ?T j}"
      by (auto simp: Suc_le_eq le_less)
    moreover have "finite {j. Suc i \<le> j \<and> ?T j}" using fin sub finite_subset by blast
    moreover have "i \<notin> {j. Suc i \<le> j \<and> ?T j}" by simp
    ultimately show ?thesis using True by simp
  next
    case False
    then show ?thesis using card_mono [OF fin sub] by simp
  qed
  with t show "((used, orig, Suc i, orig @ ItoaNat i), (used, orig, i, name))
        \<in> measure (\<lambda>(used, orig, i, name).
         card {j. i \<le> j \<and> nameTaken used (orig @ ItoaNat j)}
         + (if nameTaken used name then 1 else 0))"
    by simp
qed

declare pkgNameLoop.simps [simp del]

definition GoPackageName :: "env \<Rightarrow> Generator \<Rightarrow> string \<Rightarrow> string \<times> Generator" where
  "GoPackageName E g importPath =
     (case packageNames g importPath of
        Some name \<Rightarrow> (name, g)
      | None \<Rightarrow>
          (let orig = cleanPackageName E (baseName E importPath);
               name = pkgNameLoop (usedPackageNames g) orig 1 orig
           in (name, g\<lparr>packageNames := (packageNames g)(importPath \<mapsto> name),
                       usedPackageNames := name # usedPackageNames g\<rparr>)))"

definition AddImport :: "env \<Rightarrow> Generator \<Rightarrow> string \<Rightarrow> string \<times> Generator" where
  "AddImport E g importPath =
     GoPackageName E (g\<lparr>addedImports := insert importPath (addedImports g)\<rparr>) importPath"

section \<open>Objects and the type-name index\<close>

text \<open>
  The positions held by an \<open>Object\<close>, by \<open>genFiles\<close> and by \<open>g_file\<close> stand for Go
  pointers, which always point to an object; they are read with \<open>!\<close>.
\<close>

definition Object_File :: "Object \<Rightarrow> nat" where
  "Object_File obj = (case obj of DescObj fi _ \<Rightarrow> fi | EnumObj fi _ \<Rightarrow> fi | ExtObj fi _ \<Rightarrow> fi)"

definition Object_TypeName :: "env \<Rightarrow> Generator \<Rightarrow> Object \<Rightarrow> string list" where
  "Object_TypeName E g obj =
     (case obj of
        DescObj fi i \<Rightarrow> d_typename (fd_desc (allFiles g ! fi) ! i)
      | EnumObj fi i \<Rightarrow> ed_typename (fd_enum (allFiles g ! fi) ! i)
      | ExtObj fi i \<Rightarrow> ExtensionTypeName E (f_Name (fd_ext (allFiles g ! fi) ! i)))"

definition ObjectNamed :: "Generator \<Rightarrow> string \<Rightarrow> error + Object" where
  "ObjectNamed g typeName =
     (case typeNameToObject g typeName of
        None \<Rightarrow> Inl (ObjectNotFound typeName)
      | Some obj \<Rightarrow> Inr obj)"

definition DefaultPackageName :: "env \<Rightarrow> Generator \<Rightarrow> Object \<Rightarrow> string \<times> Generator" where
  "DefaultPackageName E g obj =
     (let importPath = GetName (fd_proto (allFiles g ! Object_File obj))
      in if importPath = outputImportPath g then ([], g)
         else (case GoPackageName E g importPath of (name, g') \<Rightarrow> (name @ ''.'', g')))"

definition TypeName :: "env \<Rightarrow> Generator \<Rightarrow> Object \<Rightarrow> string \<times> Generator" where
  "TypeName E g obj =
     (case DefaultPackageName E g obj of
        (pkg, g') \<Rightarrow> (pkg @ CamelCaseSlice E (Object_TypeName E g' obj), g'))"

definition RecordTypeUse :: "env \<Rightarrow> Generator \<Rightarrow> string \<Rightarrow> Generator" where
  "RecordTypeUse E g t =
     (case typeNameToObject g t of
        None \<Rightarrow> g
      | Some obj \<Rightarrow>
          (let importPath = GetName (fd_proto (allFiles g ! Object_File obj))
           in if importPath = outputImportPath g then g
              else (case AddImport E g importPath of
                      (_, g') \<Rightarrow> g'\<lparr>usedPackages := insert importPath (usedPackages g')\<rparr>)))"

definition typeName :: "env \<Rightarrow> Generator \<Rightarrow> string \<Rightarrow> error + string \<times> Generator" where
  "typeName E g str =
     (let g1 = RecordTypeUse E g str
      in bindE (ObjectNamed g1 str) (\<lambda>obj. Inr (TypeName E g1 obj)))"

definition dottedPkg :: "FileDescriptorProto \<Rightarrow> string" where
  "dottedPkg f = (let d = ''.'' @ GetPackage f in if d \<noteq> ''.'' then d @ ''.'' else d)"

definition enumEntries :: "nat \<Rightarrow> FileDescriptor \<Rightarrow> (string \<times> Object) list" where
  "enumEntries fi f =
     map (\<lambda>i. (dottedPkg (fd_proto f) @ dottedSlice (ed_typename (fd_enum f ! i)), EnumObj fi i))
       [0..<length (fd_enum f)]"

definition descEntries :: "nat \<Rightarrow> FileDescriptor \<Rightarrow> (string \<times> Object) list" where
  "descEntries fi f =
     map (\<lambda>i. (dottedPkg (fd_proto f) @ dottedSlice (d_typename (fd_desc f ! i)), DescObj fi i))
       [0..<length (fd_desc f)]"

text \<open>The assignments \<open>g.typeNameToObject[name] = obj\<close> of one inner loop.\<close>

definition insertAll :: "(string \<times> Object) list \<Rightarrow> (string \<rightharpoonup> Object) \<Rightarrow> (string \<rightharpoonup> Object)" where
  "insertAll entries m = fold (\<lambda>(name, obj) m'. m'(name \<mapsto> obj)) entries m"

definition BuildTypeNameMap :: "Generator \<Rightarrow> Generator" where
  "BuildTypeNameMap g =
     g\<lparr>typeNameToObject :=
         fold (\<lambda>fi m. insertAll (descEntries fi (allFiles g ! fi))
                        (insertAll (enumEntries fi (allFiles g ! fi)) m))
           [0..<length (allFiles g)] Map.empty\<rparr>"

section \<open>Wrapping the descriptors\<close>

text \<open>
  \<open>newDescriptor\<close>. The parent, when there is one, is given with its position in the
  slice under construction.
\<close>

definition newDescriptor ::
  "env \<Rightarrow> DescriptorProto \<Rightarrow> (nat \<times> Descriptor) option \<Rightarrow> FileDescriptorProto \<Rightarrow> nat
   \<Rightarrow> Descriptor" where
  "newDescriptor E desc parent file index =
     (let typename = (case parent of
                        None \<Rightarrow> [m_Name desc]
                      | Some (_, p) \<Rightarrow> d_typename p @ [m_Name desc]);
          path = (case parent of
                    None \<Rightarrow> Itoa (messagePath E) @ '','' @ ItoaNat index
                  | Some (_, p) \<Rightarrow>
                      d_path p @ '','' @ Itoa (messageMessagePath E) @ '','' @ ItoaNat index);
          group = (case parent of
                     None \<Rightarrow> False
                   | Some (_, p) \<Rightarrow>
                       (let parts = (case Package file of
                                       None \<Rightarrow> typename
                                     | Some pk \<Rightarrow> pk # typename);
                            exp = ''.'' @ go_Join parts ''.''
                        in list_ex (\<lambda>field. f_Type field = TYPE_GROUP \<and> f_TypeName field = exp)
                             (m_Field (d_proto p))))
      in \<lparr> d_proto = desc, d_parent = map_option fst parent, d_nested = [], d_enums = [],
           d_ext = m_Extension desc, d_typename = typename, d_index = index,
           d_path = path, d_group = group \<rparr>)"

text \<open>
  \<open>wrapThisDescriptor\<close> appends the descriptor and then, recursively, its nested types;
  \<open>wrapEach\<close> is the loop over a list of declarations with their indices (the loop of
  \<open>wrapDescriptors\<close> at top level, the loop of \<open>wrapThisDescriptor\<close> below it).
\<close>

fun wrapThisDescriptor ::
    "env \<Rightarrow> Descriptor list \<Rightarrow> DescriptorProto \<Rightarrow> (nat \<times> Descriptor) option
     \<Rightarrow> FileDescriptorProto \<Rightarrow> nat \<Rightarrow> Descriptor list"
  and wrapEach ::
    "env \<Rightarrow> Descriptor list \<Rightarrow> DescriptorProto list \<Rightarrow> (nat \<times> Descriptor) option
     \<Rightarrow> FileDescriptorProto \<Rightarrow> nat \<Rightarrow> Descriptor list" where
  "wrapThisDescriptor E sl (DescriptorProto nm flds nested enums exts me) parent file index =
     (let d = newDescriptor E (DescriptorProto nm flds nested enums exts me) parent file index
      in wrapEach E (sl @ [d]) nested (Some (length sl, d)) file 0)"
| "wrapEach E sl [] parent file i = sl"
| "wrapEach E sl (desc # rest) parent file i =
     wrapEach E (wrapThisDescriptor E sl desc parent file i) rest parent file (Suc i)"

definition wrapDescriptors :: "env \<Rightarrow> FileDescriptorProto \<Rightarrow> Descriptor list" where
  "wrapDescriptors E file = wrapEach E [] (MessageType file) None file 0"

definition newEnumDescriptor ::
  "env \<Rightarrow> EnumDescriptorProto \<Rightarrow> (nat \<times> Descriptor) option \<Rightarrow> nat \<Rightarrow> EnumDescriptor" where
  "newEnumDescriptor E desc parent index =
     \<lparr> ed_proto = desc,
       ed_parent = map_option fst parent,
       ed_typename = (case parent of
                        None \<Rightarrow> [e_Name desc]
                      | Some (_, p) \<Rightarrow> d_typename p @ [e_Name desc]),
       ed_index = index,
       ed_path = (case parent of
                    None \<Rightarrow> Itoa (enumPath E) @ '','' @ ItoaNat index
                  | Some (_, p) \<Rightarrow>
                      d_path p @ '','' @ Itoa (messageEnumPath E) @ '','' @ ItoaNat index) \<rparr>"

definition wrapEnumDescriptors ::
  "env \<Rightarrow> FileDescriptorProto \<Rightarrow> Descriptor list \<Rightarrow> EnumDescriptor list" where
  "wrapEnumDescriptors E file descs =
     map (\<lambda>(i, enum). newEnumDescriptor E enum None i) (enumerate 0 (EnumType file))
     @ concat (map (\<lambda>(k, nested).
                      map (\<lambda>(i, enum). newEnumDescriptor E enum (Some (k, nested)) i)
                        (enumerate 0 (m_EnumType (d_proto nested))))
                 (enumerate 0 descs))"

definition wrapExtensions :: "FileDescriptorProto \<Rightarrow> FieldDescriptorProto list" where
  "wrapExtensions file = Extension file"

text \<open>
  \<open>buildNestedDescriptors\<close>: \<open>nest.parent == desc\<close> compares pointers, here positions.
\<close>

definition buildNestedDescriptors :: "Descriptor list \<Rightarrow> error + Descriptor list" where
  "buildNestedDescriptors descs =
     mapE (\<lambda>k. let desc = descs ! k
                in if length (m_NestedType (d_proto desc)) \<noteq> 0 then
                     (let nested = d_nested desc
                                   @ filter (\<lambda>j. d_parent (descs ! j) = Some k)
                                       [0..<length descs]
                      in if length nested \<noteq> length (m_NestedType (d_proto desc))
                         then Inl (NestingFailure (m_Name (d_proto desc)))
                         else Inr (desc\<lparr>d_nested := nested\<rparr>))
                   else Inr desc)
       [0..<length descs]"

definition buildNestedEnums ::
  "Descriptor list \<Rightarrow> EnumDescriptor list \<Rightarrow> error + Descriptor list" where
  "buildNestedEnums descs enums =
     mapE (\<lambda>k. let desc = descs ! k
                in if length (m_EnumType (d_proto desc)) \<noteq> 0 then
                     (let es = d_enums desc
                               @ filter (\<lambda>j. ed_parent (enums ! j) = Some k)
                                   [0..<length enums]
                      in if length es \<noteq> length (m_EnumType (d_proto desc))
                         then Inl (EnumNestingFailure (m_Name (d_proto desc)))
                         else Inr (desc\<lparr>d_enums := es\<rparr>))
                   else Inr desc)
       [0..<length descs]"

definition extractComments :: "FileDescriptorProto \<Rightarrow> (string \<rightharpoonup> string)" where
  "extractComments file =
     fold (\<lambda>loc m. case loc_LeadingComments loc of
                      None \<Rightarrow> m
                    | Some c \<Rightarrow> m(go_Join (map Itoa (loc_Path loc)) '','' \<mapsto> c))
       (SourceCodeInfo file) Map.empty"

definition fileIsProto3 :: "FileDescriptorProto \<Rightarrow> bool" where
  "fileIsProto3 file = (Syntax file = ''proto3'')"

text \<open>
  \<open>goPackageOption\<close> reads only the \<open>go_package\<close> option of the embedded
  \<open>FileDescriptorProto\<close>, so it is defined on that.
\<close>

definition goPackageOption :: "env \<Rightarrow> FileDescriptorProto \<Rightarrow> string \<times> string \<times> bool" where
  "goPackageOption E d =
     (let opt = go_package d
      in if opt = [] then ([], [], False)
         else (case go_Index (CHR '';'') opt of
                 Some sc \<Rightarrow> (take sc opt, cleanPackageName E (drop (sc + 1) opt), True)
               | None \<Rightarrow>
                   (case go_LastIndex (CHR ''/'') opt of
                      Some slash \<Rightarrow> (opt, cleanPackageName E (drop (slash + 1) opt), True)
                    | None \<Rightarrow> ([], cleanPackageName E opt, True))))"

text \<open>
  The symbols of one publicly imported file \<open>df\<close> (at position \<open>j\<close>), as
  \<open>wrapImported\<close> appends them for the importing file at position \<open>fi\<close>.
\<close>

definition importedFrom :: "nat \<Rightarrow> nat \<Rightarrow> FileDescriptor \<Rightarrow> ImportedDescriptor list" where
  "importedFrom fi j df =
     map (\<lambda>i. \<lparr>id_file = fi, id_o = DescObj j i\<rparr>)
       (filter (\<lambda>i. \<not> m_MapEntry (d_proto (fd_desc df ! i))) [0..<length (fd_desc df)])
     @ map (\<lambda>i. \<lparr>id_file = fi, id_o = EnumObj j i\<rparr>) [0..<length (fd_enum df)]
     @ map (\<lambda>i. \<lparr>id_file = fi, id_o = ExtObj j i\<rparr>) [0..<length (fd_ext df)]"

definition wrapImported :: "Generator \<Rightarrow> nat \<Rightarrow> error + ImportedDescriptor list" where
  "wrapImported g fi =
     (let file = fd_proto (allFiles g ! fi)
      in bindE
           (mapE (\<lambda>index.
                    if index < 0 \<or> int (length (Dependency file)) \<le> index
                    then Inl (Panic ''index out of range'')
                    else (case allFilesByName g (Dependency file ! nat index) of
                            None \<Rightarrow> Inl (Panic ''nil pointer dereference'')
                          | Some j \<Rightarrow> Inr (importedFrom fi j (allFiles g ! j))))
              (PublicDependency file))
           (\<lambda>sls. Inr (concat sls)))"

text \<open>
  The \<open>if\<close> chain of the first loop of \<open>WrapTypes\<close> that sets \<open>fd.importPath\<close>.
  \<open>genFileNames\<close> holds the names of \<open>g.Request.FileToGenerate\<close>.
\<close>

definition wrapPath :: "env \<Rightarrow> Generator \<Rightarrow> FileDescriptorProto \<Rightarrow> string" where
  "wrapPath E g f =
     (case ImportMap g (GetName f) of
        Some substitution \<Rightarrow> substitution
      | None \<Rightarrow>
          if GetName f \<in> set (FileToGenerate (Request g)) \<and> PackageImportPath g \<noteq> []
          then PackageImportPath g
          else (case goPackageOption E f of
                  (p, _, _) \<Rightarrow> if p \<noteq> [] then p else path_Dir E (GetName f)))"

text \<open>The body of the first loop of \<open>WrapTypes\<close>, up to the two \<open>append\<close>s.\<close>

definition wrapFile :: "env \<Rightarrow> Generator \<Rightarrow> FileDescriptorProto \<Rightarrow> error + FileDescriptor" where
  "wrapFile E g f =
     (let importPath = wrapPath E g f;
          desc0 = wrapDescriptors E f
      in bindE (buildNestedDescriptors desc0)
           (\<lambda>desc1.
              let enum = wrapEnumDescriptors E f desc1
              in bindE (buildNestedEnums desc1 enum)
                   (\<lambda>desc2.
                      Inr \<lparr> fd_proto = f, fd_desc = desc2, fd_enum = enum,
                            fd_ext = wrapExtensions f, fd_imp = [],
                            fd_comments = extractComments f, fd_importPath = importPath,
                            fd_packageName = [], fd_proto3 = fileIsProto3 f \<rparr>)))"

fun wrapLoop :: "env \<Rightarrow> Generator \<Rightarrow> FileDescriptorProto list \<Rightarrow> error + Generator" where
  "wrapLoop E g [] = Inr g"
| "wrapLoop E g (f # fs) =
     bindE (wrapFile E g f)
       (\<lambda>fd. wrapLoop E
                (g\<lparr>allFiles := allFiles g @ [fd],
                   allFilesByName := (allFilesByName g)(GetName f \<mapsto> length (allFiles g))\<rparr>)
                fs)"

text \<open>The second loop: \<open>fd.imp = wrapImported(fd, g)\<close> for every file.\<close>

fun impLoop :: "Generator \<Rightarrow> nat list \<Rightarrow> error + Generator" where
  "impLoop g [] = Inr g"
| "impLoop g (fi # rest) =
     bindE (wrapImported g fi)
       (\<lambda>sl. impLoop (g\<lparr>allFiles := (allFiles g)[fi := (allFiles g ! fi)\<lparr>fd_imp := sl\<rparr>]\<rparr>) rest)"

definition WrapTypes :: "env \<Rightarrow> Generator \<Rightarrow> error + Generator" where
  "WrapTypes E g =
     bindE (wrapLoop E (g\<lparr>allFiles := [], allFilesByName := Map.empty\<rparr>)
              (ProtoFile (Request g)))
       (\<lambda>g1. bindE (impLoop g1 [0..<length (allFiles g1)])
          (\<lambda>g2. bindE (mapE (\<lambda>fileName. case allFilesByName g2 fileName of
                                            None \<Rightarrow> Inl (CouldNotFindFile fileName)
                                          | Some fd \<Rightarrow> Inr fd)
                          (FileToGenerate (Request g2)))
             (\<lambda>gen. Inr (g2\<lparr>genFiles := gen\<rparr>))))"

section \<open>Package names of the files to generate\<close>

definition defaultGoPackage :: "env \<Rightarrow> Generator \<Rightarrow> string" where
  "defaultGoPackage E g =
     (let p = PackageImportPath g
      in cleanPackageName E
           (case go_LastIndex (CHR ''/'') p of None \<Rightarrow> p | Some i \<Rightarrow> drop (i + 1) p))"

text \<open>The first loop of \<open>SetPackageNames\<close>.\<close>

definition defaultPackageNames :: "env \<Rightarrow> Generator \<Rightarrow> (string \<rightharpoonup> string)" where
  "defaultPackageNames E g =
     fold (\<lambda>fi m. let f = allFiles g ! fi
                   in (case goPackageOption E (fd_proto f) of
                         (_, p, ok) \<Rightarrow> if ok then m(fd_importPath f \<mapsto> p) else m))
       (genFiles g) Map.empty"

text \<open>The \<open>if\<close> chain of the second loop: the package name one file gets.\<close>

definition packageNameFor ::
  "env \<Rightarrow> Generator \<Rightarrow> (string \<rightharpoonup> string) \<Rightarrow> FileDescriptor \<Rightarrow> string" where
  "packageNameFor E g dpn f =
     (case goPackageOption E (fd_proto f) of
        (_, p, ok) \<Rightarrow>
          if ok then p
          else (case dpn (fd_importPath f) of
                  Some p' \<Rightarrow> p'
                | None \<Rightarrow>
                    if defaultGoPackage E g \<noteq> [] then defaultGoPackage E g
                    else if GetPackage (fd_proto f) \<noteq> []
                    then cleanPackageName E (GetPackage (fd_proto f))
                    else cleanPackageName E (baseName E (GetName (fd_proto f)))))"

definition assignPackageNames :: "env \<Rightarrow> Generator \<Rightarrow> (string \<rightharpoonup> string) \<Rightarrow> Generator" where
  "assignPackageNames E g dpn =
     fold (\<lambda>fi g'. g'\<lparr>allFiles :=
                        (allFiles g')[fi := (allFiles g' ! fi)
                           \<lparr>fd_packageName := packageNameFor E g' dpn (allFiles g' ! fi)\<rparr>]\<rparr>)
       (genFiles g) g"

text \<open>The consistency check over \<open>g.genFiles[1:]\<close> against \<open>g.genFiles[0]\<close>.\<close>

fun consistencyLoop :: "FileDescriptor \<Rightarrow> FileDescriptor list \<Rightarrow> error + unit" where
  "consistencyLoop f0 [] = Inr ()"
| "consistencyLoop f0 (f # fs) =
     (if fd_importPath f0 \<noteq> fd_importPath f
      then Inl (InconsistentImportPaths (fd_importPath f0) (fd_importPath f))
      else if fd_packageName f0 \<noteq> fd_packageName f
      then Inl (InconsistentPackageNames (fd_packageName f0) (fd_packageName f))
      else consistencyLoop f0 fs)"

definition SetPackageNames :: "env \<Rightarrow> Generator \<Rightarrow> error + Generator" where
  "SetPackageNames E g =
     (case genFiles g of
        [] \<Rightarrow> Inl (Panic ''index out of range'')
      | fi0 # rest \<Rightarrow>
          (let g1 = g\<lparr>outputImportPath := GetName (fd_proto (allFiles g ! fi0))\<rparr>;
               g2 = assignPackageNames E g1 (defaultPackageNames E g1)
           in bindE (consistencyLoop (allFiles g2 ! fi0) (map (\<lambda>fi. allFiles g2 ! fi) rest))
                (\<lambda>_. Inr (g2\<lparr>Pkg := [''fmt'' \<mapsto> ''fmt'', ''math'' \<mapsto> ''math'',
                                     ''proto'' \<mapsto> ''proto'']\<rparr>))))"

section \<open>The handler manifest\<close>

text \<open>
  \<open>generateHandler\<close>. \<open>os.ReadFile\<close> fails when the disk has no readable file at the
  path. When the content is the JSON value \<open>null\<close> the map is \<open>nil\<close> after
  \<open>json.Unmarshal\<close> and the assignment \<open>m[k] = v\<close> panics. The errors of
  \<open>json.Marshal\<close> and of \<open>os.WriteFile\<close> are discarded by the code: the run goes on
  with the disk that \<open>os.WriteFile\<close> leaves.
\<close>

definition generateHandler :: "env \<Rightarrow> Generator \<Rightarrow> string \<Rightarrow> string \<Rightarrow> error + Generator" where
  "generateHandler E g k v =
     (let p = ParamGet g ''path'' @ ''/handler.json''
      in case disk g p of
           None \<Rightarrow> Inl HandlerFileNotFound
         | Some bts \<Rightarrow>
             (case json_Unmarshal E bts of
                UnmarshalError \<Rightarrow> Inl HandlerFileContentError
              | UnmarshalNil \<Rightarrow> Inl (Panic ''assignment to entry in nil map'')
              | UnmarshalMap m \<Rightarrow>
                  Inr (g\<lparr>disk := os_WriteFile E (disk g) p
                                    (json_Marshal E (AList.update k v m))\<rparr>)))"

section \<open>The API pass: services and methods\<close>

text \<open>Several consecutive calls of \<open>P\<close>, each with one string (\<open>g.P()\<close> is the empty one).\<close>

definition Pl :: "Generator \<Rightarrow> string list \<Rightarrow> Generator" where
  "Pl g ls = fold (\<lambda>l g'. P g' [l]) ls g"

text \<open>\<open>reservedClientName\<close> is the empty map.\<close>

definition reservedClientName :: "string \<Rightarrow> bool" where
  "reservedClientName n = False"

definition makeComments :: "Generator \<Rightarrow> string \<Rightarrow> error + string \<times> bool" where
  "makeComments g path =
     (case g_file g of
        None \<Rightarrow> Inl (Panic ''nil pointer dereference'')
      | Some fi \<Rightarrow>
          (case fd_comments (allFiles g ! fi) path of
             None \<Rightarrow> Inr ([], False)
           | Some c \<Rightarrow>
               Inr (go_Join (map (\<lambda>line. ''//'' @ line) (go_Split nl (go_TrimSuffix c [nl]))) [nl],
                    True)))"

text \<open>
  The directive tokens after the marker: \<open>key\<close> or \<open>key:value\<close>, separated by spaces.
\<close>

definition parseAnnotations :: "string \<Rightarrow> (string \<rightharpoonup> string)" where
  "parseAnnotations s =
     fold (\<lambda>h m. let key = go_TrimSpaces h
                  in if CHR '':'' \<in> set key
                     then (let arr = go_Split (CHR '':'') key in m(arr ! 0 \<mapsto> arr ! 1))
                     else m(key \<mapsto> []))
       (go_Split (CHR '' '') s) Map.empty"

definition generateClientSignature ::
  "env \<Rightarrow> Generator \<Rightarrow> string \<Rightarrow> string \<Rightarrow> MethodDescriptorProto
   \<Rightarrow> error + string \<times> Generator" where
  "generateClientSignature E g reqServ servName method =
     (let methName0 = CamelCase E (md_Name method);
          methName = (if reservedClientName methName0 then methName0 @ ''_'' else methName0);
          g1 = RecordTypeUse E g (md_InputType method)
      in bindE (typeName E g1 (md_InputType method))
           (\<lambda>(in0, g2).
              let inT = (if in0 = ''types.Empty'' \<or> in0 = ''empty.Empty''
                         then ''router.Empty'' else in0)
              in bindE (typeName E g2 (md_OutputType method))
                   (\<lambda>(outName, g3).
                      Inr (methName @ ''(ctx *gin.Context'' @ '', in *'' @ inT
                             @ '', out *'' @ outName @ '') error'', g3))))"

text \<open>
  The loop over \<open>g.file.desc\<close> in \<open>generateClientMethod\<close>: the first message that is
  not a map entry and whose Go name is the input type decides; without one, \<open>needBind\<close>
  keeps its initial value.
\<close>

fun needBindLoop :: "env \<Rightarrow> string \<Rightarrow> Descriptor list \<Rightarrow> bool" where
  "needBindLoop E inType [] = True"
| "needBindLoop E inType (desc # rest) =
     (if m_MapEntry (d_proto desc) then needBindLoop E inType rest
      else if CamelCaseSlice E (d_typename desc) = inType
      then (if length (m_Field (d_proto desc)) = 0 then False else True)
      else needBindLoop E inType rest)"

text \<open>The input type and \<open>needBind\<close>, as the first part of \<open>generateClientMethod\<close> sets them.\<close>

definition resolveInput ::
  "env \<Rightarrow> Generator \<Rightarrow> MethodDescriptorProto \<Rightarrow> error + (string \<times> bool) \<times> Generator" where
  "resolveInput E g method =
     bindE (typeName E g (md_InputType method))
       (\<lambda>(inType, g1).
          if inType = ''types.Empty'' \<or> inType = ''empty.Empty''
          then Inr ((''router.Empty'', False), g1)
          else (case g_file g1 of
                  None \<Rightarrow> Inl (Panic ''nil pointer dereference'')
                | Some fi \<Rightarrow>
                    Inr ((inType, needBindLoop E inType (fd_desc (allFiles g1 ! fi))), g1)))"

text \<open>The line that opens a route, for the verb \<open>GET\<close> or \<open>POST\<close>.\<close>

definition routeHeader :: "string \<Rightarrow> string \<Rightarrow> string list \<Rightarrow> string" where
  "routeHeader verb url middlewares =
     (if length middlewares > 0
      then ''router.Handle(g, '' @ [dq] @ verb @ [dq] @ '', '' @ [dq] @ url @ [dq]
           @ '', []string{'' @ [dq] @ go_Join middlewares ([dq] @ '','' @ [dq]) @ [dq]
           @ ''}, func(ctx *gin.Context) {''
      else ''g.'' @ verb @ ''('' @ [dq] @ url @ [dq] @ '', func(ctx *gin.Context) {'')"

text \<open>
  The block guarded by the test for the \<open>google.api.http\<close> extension: the route lines,
  \<open>isGet\<close> and \<open>noJSON\<close>. Only the \<open>else\<close> of the outer test calls \<open>Fail\<close>.
\<close>

definition httpRoute ::
  "Generator \<Rightarrow> MethodDescriptorProto \<Rightarrow> string list \<Rightarrow> error + Generator \<times> bool \<times> bool" where
  "httpRoute g method middlewares =
     (case md_Options method of
        None \<Rightarrow> Inl HttpOptionNotFound
      | Some options \<Rightarrow>
          (case E_Http options of
             None \<Rightarrow> Inl HttpOptionNotFound
           | Some opts \<Rightarrow>
               (let (g1, isGet) = (case Pattern opts of
                                     HttpRule_Get url \<Rightarrow>
                                       (P g [routeHeader ''GET'' url middlewares], True)
                                   | _ \<Rightarrow> (g, False));
                    g2 = (case Pattern opts of
                            HttpRule_Post url \<Rightarrow> P g1 [routeHeader ''POST'' url middlewares]
                          | _ \<Rightarrow> g1);
                    noJSON = (ResponseBody opts \<noteq> [] \<and> ResponseBody opts \<noteq> ''json'')
                in Inr (g2, isGet, noJSON))))"

text \<open>The \<open>switch\<close> on the lower-cased \<open>binding\<close> directive.\<close>

definition bindingMethod :: "env \<Rightarrow> string \<Rightarrow> string \<times> string" where
  "bindingMethod E binding =
     (let b = strings_ToLower E binding
      in if b = ''form'' then (''ShouldBindWith'', ''Form'')
         else if b = ''query'' then (''ShouldBindWith'', ''Query'')
         else if b = ''formpost'' then (''ShouldBindWith'', ''FormPost'')
         else if b = ''formmultipart'' then (''ShouldBindWith'', ''FormMultipart'')
         else (''ShouldBindBodyWith'', ''JSON''))"

text \<open>The lines of the closure from the declaration of \<open>input\<close> to the end of the binding.\<close>

definition bindLines ::
  "env \<Rightarrow> bool \<Rightarrow> bool \<Rightarrow> bool \<Rightarrow> string \<Rightarrow> string \<Rightarrow> string \<Rightarrow> string \<Rightarrow> string list" where
  "bindLines E needBind bindCheck isGet binding gec inType outType =
     (if needBind then
        (case bindingMethod E binding of
           (bindingMth, bindingType) \<Rightarrow>
             [''input, output := '' @ inType @ ''{}, '' @ outType @ ''{}'', []]
             @ (if \<not> bindCheck then
                  (if isGet then [''_ = ctx.ShouldBindQuery(&input)'']
                   else [''_ = ctx.'' @ bindingMth @ ''(&input, binding.'' @ bindingType @ '')''])
                else
                  (if isGet then [''if err := ctx.ShouldBindQuery(&input); err != nil {'']
                   else [''if err := ctx.'' @ bindingMth @ ''(&input, binding.'' @ bindingType
                         @ ''); err != nil {''])
                  @ [''router.Error(ctx, '' @ gec @ '', err)'', ''return'', ''}''])
             @ [[]])
      else [''input := '' @ inType @ ''{}'', ''var output '' @ outType, []])"

text \<open>The lines of the closure that call the handler and write the response.\<close>

definition handlerLines :: "bool \<Rightarrow> string \<Rightarrow> string \<Rightarrow> string list" where
  "handlerLines noJSON methName gec =
     (if noJSON then [''_ = h.'' @ methName @ ''(ctx, &input, &output)'']
      else [''err := h.'' @ methName @ ''(ctx.Copy(), &input, &output)'',
            ''if err != nil {'',
            ''router.Error(ctx, '' @ gec @ '', err)'',
            ''return'',
            ''}'',
            [],
            ''router.JSON(ctx, &output)''])
     @ [''})'', []]"

text \<open>
  The local variables of \<open>generateClientMethod\<close> that depend only on the environment,
  the method and the directives.
\<close>

definition gecOf :: "env \<Rightarrow> string" where
  "gecOf E = (if os_Getenv E ''GEN_ERROR_CODE'' = [] then ''500''
              else os_Getenv E ''GEN_ERROR_CODE'')"

definition methNameOf :: "env \<Rightarrow> MethodDescriptorProto \<Rightarrow> string" where
  "methNameOf E method =
     (let methName = CamelCase E (md_Name method)
      in if reservedClientName methName then methName @ ''_'' else methName)"

definition outTypeOf :: "string \<Rightarrow> string \<Rightarrow> string" where
  "outTypeOf reqServ outType =
     (if go_HasPrefix outType (reqServ @ ''.'') then go_TrimPrefix outType (reqServ @ ''.'')
      else outType)"

definition middlewaresOf :: "(string \<rightharpoonup> string) \<Rightarrow> string list" where
  "middlewaresOf customAnnotations =
     (case customAnnotations ''middleware'' of
        Some val \<Rightarrow> go_Split (CHR '','') val
      | None \<Rightarrow> [])"

definition bindCheckOf :: "env \<Rightarrow> (string \<rightharpoonup> string) \<Rightarrow> bool" where
  "bindCheckOf E customAnnotations =
     (case customAnnotations ''bindcheck'' of
        Some val \<Rightarrow> \<not> strings_EqualFold E val ''false''
      | None \<Rightarrow> True)"

definition bindingOf :: "(string \<rightharpoonup> string) \<Rightarrow> string" where
  "bindingOf customAnnotations =
     (case customAnnotations ''binding'' of Some val \<Rightarrow> val | None \<Rightarrow> ''json'')"

definition generateClientMethod ::
  "env \<Rightarrow> Generator \<Rightarrow> string \<Rightarrow> string \<Rightarrow> MethodDescriptorProto \<Rightarrow> (string \<rightharpoonup> string)
   \<Rightarrow> error + bool \<times> Generator" where
  "generateClientMethod E g reqServ servName method customAnnotations =
     bindE (resolveInput E g method)
       (\<lambda>((inType, needBind), g1).
          bindE (typeName E g1 (md_OutputType method))
            (\<lambda>(outType, g2).
               bindE (httpRoute g2 method (middlewaresOf customAnnotations))
                 (\<lambda>(g3, isGet, noJSON).
                    let g4 = Pl g3 (bindLines E needBind (bindCheckOf E customAnnotations) isGet
                                      (bindingOf customAnnotations) (gecOf E) inType
                                      (outTypeOf reqServ outType));
                        g5 = Pl g4 (handlerLines noJSON (methNameOf E method) (gecOf E))
                    in Inr (needBind, g5))))"

text \<open>The first loop of \<open>generateService\<close>: one signature line per method.\<close>

fun signatureLoop ::
  "env \<Rightarrow> Generator \<Rightarrow> string \<Rightarrow> string \<Rightarrow> MethodDescriptorProto list \<Rightarrow> error + Generator" where
  "signatureLoop E g serviceName servName [] = Inr g"
| "signatureLoop E g serviceName servName (method # rest) =
     bindE (generateClientSignature E g serviceName servName method)
       (\<lambda>(sig, g1). signatureLoop E (P g1 [sig]) serviceName servName rest)"

text \<open>The second loop: the directives of the leading comment, then the method.\<close>

fun methodLoop ::
  "env \<Rightarrow> Generator \<Rightarrow> string \<Rightarrow> string \<Rightarrow> string \<Rightarrow> nat \<Rightarrow> bool
   \<Rightarrow> MethodDescriptorProto list \<Rightarrow> error + bool \<times> Generator" where
  "methodLoop E g path serviceName servName i hasBinding [] = Inr (hasBinding, g)"
| "methodLoop E g path serviceName servName i hasBinding (method # rest) =
     bindE (makeComments g (path @ '',2,'' @ ItoaNat i))
       (\<lambda>(cs, ok).
          let g1 = (if ok \<and> writeOutput g then P g [cs] else g);
              customAnnotations =
                (if ok then
                   (let res = regAnnotation_FindStringSubmatch E cs
                    in if length res > 1 then parseAnnotations (res ! 1) else Map.empty)
                 else Map.empty)
          in bindE (generateClientMethod E g1 serviceName servName method customAnnotations)
               (\<lambda>(binding, g2).
                  methodLoop E g2 path serviceName servName (Suc i)
                    (if \<not> hasBinding \<and> binding then True else hasBinding) rest))"

definition generateService ::
  "env \<Rightarrow> Generator \<Rightarrow> nat \<Rightarrow> ServiceDescriptorProto \<Rightarrow> nat \<Rightarrow> error + bool \<times> Generator" where
  "generateService E g file service index =
     (let path = ''6,'' @ ItoaNat index;
          origServName = sv_Name service;
          pkg = GetPackage (fd_proto (allFiles g ! file));
          serviceName = (if pkg \<noteq> [] then pkg else strings_ToLower E (sv_Name service));
          servName = CamelCase E origServName;
          g1 = Pl g [[], [], ''type '' @ servName @ ''Handler interface {'']
      in bindE (signatureLoop E g1 serviceName servName (sv_Method service))
           (\<lambda>g2.
              let g3 = Pl g2 [''}'', [],
                              ''func Register'' @ servName @ ''Handler(g *gin.Engine, h ''
                              @ servName @ ''Handler) {'']
              in bindE (methodLoop E g3 path serviceName servName 0 False (sv_Method service))
                   (\<lambda>(hasBinding, g4).
                      let g5 = Pl g4 [''}'', []]
                      in bindE (goFileName E (allFiles g5 ! file) (pathType g5) ''api'')
                           (\<lambda>fname.
                              let fpath = filepath_Dir E fname
                              in bindE (generateHandler E g5 (fpath @ ''/'' @ servName) fpath)
                                   (\<lambda>g6. Inr (hasBinding, g6))))))"

section \<open>The imports of a generated file\<close>

text \<open>The text of one import line: the quoted prefix and name.\<close>

definition importLine :: "string \<Rightarrow> string \<Rightarrow> string" where
  "importLine prefix importPath = [dq] @ prefix @ importPath @ [dq]"

section \<open>The run\<close>

text \<open>
  \<open>main\<close>, after the request has been read. The stages are those of the source, in its
  order; \<open>generateAllFiles\<close> stands for \<open>GenerateAllFiles\<close>, whose model and data passes
  are not part of this development, and the response is what it leaves in \<open>Response\<close>.
\<close>

definition main ::
  "env \<Rightarrow> (Generator \<Rightarrow> error + Generator) \<Rightarrow> CodeGeneratorRequest \<Rightarrow> (string \<rightharpoonup> string)
   \<Rightarrow> error + (string \<times> string) list" where
  "main E generateAllFiles req dsk =
     (let g = New req dsk
      in if length (FileToGenerate req) = 0 then Inl NoFilesToGenerate
         else bindE (CommandLineParameters g (Parameter req))
                (\<lambda>g1. bindE (WrapTypes E g1)
                   (\<lambda>g2. bindE (SetPackageNames E g2)
                      (\<lambda>g3. bindE (generateAllFiles (BuildTypeNameMap g3))
                         (\<lambda>g4. Inr (Response g4))))))"

section \<open>An instance of the parameters\<close>

text \<open>
  To run the model on sample inputs the parameters need values. \<open>sample_env\<close> gives
  them the behaviour these functions have on plain ASCII identifiers, clean relative
  paths and flat JSON objects without escapes; the environment variable is unset and
  every write to the disk succeeds. The theorems that hold for every \<open>env\<close> do not
  depend on it.
\<close>

definition isASCIILower :: "char \<Rightarrow> bool" where
  "isASCIILower c = (c \<in> set ''abcdefghijklmnopqrstuvwxyz'')"

definition isASCIIUpper :: "char \<Rightarrow> bool" where
  "isASCIIUpper c = (c \<in> set ''ABCDEFGHIJKLMNOPQRSTUVWXYZ'')"

definition isASCIIDigit :: "char \<Rightarrow> bool" where
  "isASCIIDigit c = (c \<in> set ''0123456789'')"

definition asciiUpper :: "char \<Rightarrow> char" where
  "asciiUpper c =
     (case map_of (zip ''abcdefghijklmnopqrstuvwxyz'' ''ABCDEFGHIJKLMNOPQRSTUVWXYZ'') c of
        None \<Rightarrow> c | Some u \<Rightarrow> u)"

definition asciiLower :: "char \<Rightarrow> char" where
  "asciiLower c =
     (case map_of (zip ''ABCDEFGHIJKLMNOPQRSTUVWXYZ'' ''abcdefghijklmnopqrstuvwxyz'') c of
        None \<Rightarrow> c | Some l \<Rightarrow> l)"

text \<open>
  Camel case: an underscore before a lower-case letter is dropped, the first letter of
  each word is capitalised, digits are kept. \<open>inWord\<close> says that the previous character
  was a letter of the current word.
\<close>

fun camelFrom :: "bool \<Rightarrow> string \<Rightarrow> string" where
  "camelFrom inWord [] = []"
| "camelFrom inWord (c # cs) =
     (if inWord \<and> isASCIILower c then c # camelFrom True cs
      else if c = CHR ''_'' \<and> cs \<noteq> [] \<and> isASCIILower (hd cs) then camelFrom False cs
      else if isASCIIDigit c then c # camelFrom False cs
      else asciiUpper c # camelFrom True cs)"

definition sampleCamelCase :: "string \<Rightarrow> string" where
  "sampleCamelCase s =
     (case s of
        [] \<Rightarrow> []
      | c # cs \<Rightarrow> if c = CHR ''_'' then CHR ''X'' # camelFrom False cs else camelFrom False s)"

definition sampleBaseName :: "string \<Rightarrow> string" where
  "sampleBaseName name =
     (let n1 = (case go_LastIndex (CHR ''/'') name of None \<Rightarrow> name | Some i \<Rightarrow> drop (i + 1) name)
      in case go_LastIndex (CHR ''.'') n1 of None \<Rightarrow> n1 | Some i \<Rightarrow> take i n1)"

definition isGoKeyword :: "string \<Rightarrow> bool" where
  "isGoKeyword s =
     (s \<in> set [''break'', ''case'', ''chan'', ''const'', ''continue'', ''default'', ''else'',
               ''defer'', ''fallthrough'', ''for'', ''func'', ''go'', ''goto'', ''if'',
               ''import'', ''interface'', ''map'', ''package'', ''range'', ''return'',
               ''select'', ''struct'', ''switch'', ''type'', ''var''])"

definition sampleCleanPackageName :: "string \<Rightarrow> string" where
  "sampleCleanPackageName name =
     (let n1 = map (\<lambda>c. if isASCIILower c \<or> isASCIIUpper c \<or> isASCIIDigit c \<or> c = CHR ''_''
                         then c else CHR ''_'') name;
          n2 = (if isGoKeyword n1 then CHR ''_'' # n1 else n1)
      in if n2 \<noteq> [] \<and> isASCIIDigit (hd n2) then CHR ''_'' # n2 else n2)"

definition sampleDir :: "string \<Rightarrow> string" where
  "sampleDir p =
     (case go_LastIndex (CHR ''/'') p of
        None \<Rightarrow> ''.''
      | Some i \<Rightarrow> if i = 0 then ''/'' else take i p)"

text \<open>The capture of the directive marker: the rest of the line after \<open>@tag\<close> and spaces.\<close>

fun sampleFindTag :: "string \<Rightarrow> string list" where
  "sampleFindTag [] = []"
| "sampleFindTag (c # cs) =
     (if go_HasPrefix (c # cs) ''@tag'' then
        (let r = drop 4 (c # cs);
             ws = takeWhile (\<lambda>x. x = CHR '' '') r;
             cap = takeWhile (\<lambda>x. x \<noteq> nl) (dropWhile (\<lambda>x. x = CHR '' '') r)
         in if ws \<noteq> [] \<and> cap \<noteq> [] then [''@tag'' @ ws @ cap, cap] else sampleFindTag cs)
      else sampleFindTag cs)"

text \<open>A flat JSON object of strings, written and read without escapes or spaces.\<close>

definition sampleMarshal :: "(string \<times> string) list \<Rightarrow> string" where
  "sampleMarshal m =
     ''{'' @ go_Join (map (\<lambda>(k, v). [dq] @ k @ [dq] @ '':'' @ [dq] @ v @ [dq]) m) '','' @ ''}''"

definition sampleQuoted :: "string \<Rightarrow> (string \<times> string) option" where
  "sampleQuoted s =
     (case s of
        [] \<Rightarrow> None
      | c # cs \<Rightarrow>
          if c = dq \<and> dq \<in> set cs
          then Some (takeWhile (\<lambda>x. x \<noteq> dq) cs, drop 1 (dropWhile (\<lambda>x. x \<noteq> dq) cs))
          else None)"

fun samplePairs :: "nat \<Rightarrow> string \<Rightarrow> (string \<times> string) list option" where
  "samplePairs 0 s = None"
| "samplePairs (Suc n) s =
     (case sampleQuoted s of
        None \<Rightarrow> None
      | Some (k, r1) \<Rightarrow>
          (case r1 of
             [] \<Rightarrow> None
           | c # r2 \<Rightarrow>
               if c \<noteq> CHR '':'' then None
               else (case sampleQuoted r2 of
                       None \<Rightarrow> None
                     | Some (v, r3) \<Rightarrow>
                         if r3 = ''}'' then Some [(k, v)]
                         else (case r3 of
                                 [] \<Rightarrow> None
                               | d # r4 \<Rightarrow>
                                   if d \<noteq> CHR '','' then None
                                   else (case samplePairs n r4 of
                                           None \<Rightarrow> None
                                         | Some m \<Rightarrow> Some ((k, v) # m))))))"

definition sampleUnmarshal :: "string \<Rightarrow> unmarshalled" where
  "sampleUnmarshal s =
     (if s = ''null'' then UnmarshalNil
      else if s = ''{}'' then UnmarshalMap []
      else (case s of
              [] \<Rightarrow> UnmarshalError
            | c # cs \<Rightarrow>
                if c = CHR ''{''
                then (case samplePairs (length cs) cs of
                        None \<Rightarrow> UnmarshalError
                      | Some m \<Rightarrow> UnmarshalMap m)
                else UnmarshalError))"

definition sample_env :: env where
  "sample_env =
     \<lparr> CamelCase = sampleCamelCase,
       CamelCaseSlice = (\<lambda>elem. sampleCamelCase (go_Join elem ''_'')),
       cleanPackageName = sampleCleanPackageName,
       baseName = sampleBaseName,
       messagePath = 4,
       messageMessagePath = 3,
       enumPath = 5,
       messageEnumPath = 4,
       ExtensionTypeName = (\<lambda>n. [n]),
       path_Dir = sampleDir,
       filepath_Dir = sampleDir,
       strings_ToLower = map asciiLower,
       strings_EqualFold = (\<lambda>a b. map asciiLower a = map asciiLower b),
       regAnnotation_FindStringSubmatch = sampleFindTag,
       json_Unmarshal = sampleUnmarshal,
       json_Marshal = sampleMarshal,
       os_WriteFile = (\<lambda>d p c. d(p \<mapsto> c)),
       os_Getenv = (\<lambda>_. []) \<rparr>"

section \<open>Notions used in the statements\<close>

text \<open>
  \<open>core_same g g'\<close>: the two states differ at most in the buffer and in the package-name
  bookkeeping of the current file (\<open>packageNames\<close>, \<open>usedPackages\<close>,
  \<open>usedPackageNames\<close>, \<open>addedImports\<close>).
\<close>

definition core_same :: "Generator \<Rightarrow> Generator \<Rightarrow> bool" where
  "core_same g g' =
     (Request g' = Request g \<and> Response g' = Response g \<and> Param g' = Param g
      \<and> PackageImportPath g' = PackageImportPath g \<and> ImportPrefix g' = ImportPrefix g
      \<and> ImportMap g' = ImportMap g \<and> Pkg g' = Pkg g
      \<and> outputImportPath g' = outputImportPath g \<and> allFiles g' = allFiles g
      \<and> allFilesByName g' = allFilesByName g \<and> genFiles g' = genFiles g
      \<and> g_file g' = g_file g \<and> typeNameToObject g' = typeNameToObject g
      \<and> indent g' = indent g \<and> pathType g' = pathType g
      \<and> writeOutput g' = writeOutput g \<and> disk g' = disk g)"

text \<open>
  \<open>methodReady g m\<close>: both types of the method are in the index and its options carry
  the \<open>google.api.http\<close> extension.
\<close>

definition methodReady :: "Generator \<Rightarrow> MethodDescriptorProto \<Rightarrow> bool" where
  "methodReady g m =
     (typeNameToObject g (md_InputType m) \<noteq> None
      \<and> typeNameToObject g (md_OutputType m) \<noteq> None
      \<and> (case md_Options m of None \<Rightarrow> False | Some options \<Rightarrow> E_Http options \<noteq> None))"

text \<open>A message with the messages nested in it, at every depth, each before its nested ones.\<close>

fun allMessages :: "DescriptorProto \<Rightarrow> DescriptorProto list" where
  "allMessages (DescriptorProto nm flds nested enums exts me) =
     DescriptorProto nm flds nested enums exts me # concat (map allMessages nested)"

text \<open>
  \<open>reexported g j obj\<close>: the object belongs to the file at position \<open>j\<close> and is a
  message of its \<open>desc\<close> slice that is not a map entry, an enum of its \<open>enum\<close> slice
  or an extension of its \<open>ext\<close> slice.
\<close>

definition reexported :: "Generator \<Rightarrow> nat \<Rightarrow> Object \<Rightarrow> bool" where
  "reexported g j obj =
     (case obj of
        DescObj j' i \<Rightarrow> j' = j \<and> i < length (fd_desc (allFiles g ! j))
                         \<and> \<not> m_MapEntry (d_proto (fd_desc (allFiles g ! j) ! i))
      | EnumObj j' i \<Rightarrow> j' = j \<and> i < length (fd_enum (allFiles g ! j))
      | ExtObj j' i \<Rightarrow> j' = j \<and> i < length (fd_ext (allFiles g ! j)))"

text \<open>
  The assignments of \<open>BuildTypeNameMap\<close> in their order: file after file, the enums
  of a file before its messages, each name with the object it is assigned.
\<close>

definition indexEntries :: "Generator \<Rightarrow> (string \<times> Object) list" where
  "indexEntries g =
     concat (map (\<lambda>fi. enumEntries fi (allFiles g ! fi) @ descEntries fi (allFiles g ! fi))
               [0..<length (allFiles g)])"

text \<open>
  The files of the run after the second loop of \<open>SetPackageNames\<close>: every file to
  generate has its package name, and its import path is the one \<open>WrapTypes\<close> gave it.
\<close>

definition namedFiles :: "env \<Rightarrow> Generator \<Rightarrow> FileDescriptor list" where
  "namedFiles E g = allFiles (assignPackageNames E g (defaultPackageNames E g))"

text \<open>
  The import path of a schema file by the order of precedence: the \<open>M<file>=<path>\<close>
  parameter for this file; the \<open>import_path\<close> parameter, for a file to generate; the
  import path that the \<open>go_package\<close> option of the file states; the directory of the
  name of the file.
\<close>

definition importPathByPrecedence ::
  "env \<Rightarrow> (string \<times> string) list \<Rightarrow> string list \<Rightarrow> FileDescriptorProto \<Rightarrow> string" where
  "importPathByPrecedence E params toGenerate f =
     (case map_of params (CHR ''M'' # GetName f) of
        Some substitution \<Rightarrow> substitution
      | None \<Rightarrow>
          (let dflt = (case map_of params ''import_path'' of None \<Rightarrow> [] | Some v \<Rightarrow> v)
           in if GetName f \<in> set toGenerate \<and> dflt \<noteq> [] then dflt
              else if fst (goPackageOption E f) \<noteq> [] then fst (goPackageOption E f)
              else path_Dir E (GetName f)))"

text \<open>The route lines one HTTP pattern produces: one for GET, one for POST, else none.\<close>

definition routeLines :: "HttpPattern \<Rightarrow> string list \<Rightarrow> string list" where
  "routeLines pat middlewares =
     (case pat of
        HttpRule_Get url \<Rightarrow> [routeHeader ''GET'' url middlewares]
      | HttpRule_Post url \<Rightarrow> [routeHeader ''POST'' url middlewares]
      | _ \<Rightarrow> [])"

definition isGetPattern :: "HttpPattern \<Rightarrow> bool" where
  "isGetPattern pat = (case pat of HttpRule_Get _ \<Rightarrow> True | _ \<Rightarrow> False)"

text \<open>
  The bind call of a generated closure and the statement that holds it: from the query
  string for a GET method, else by the strategy of the \<open>binding\<close> directive; checked
  or, with \<open>bindcheck:false\<close>, best effort.
\<close>

definition bindCall :: "env \<Rightarrow> bool \<Rightarrow> string \<Rightarrow> string" where
  "bindCall E isGet binding =
     (if isGet then ''ctx.ShouldBindQuery(&input)''
      else (case bindingMethod E binding of
              (bindingMth, bindingType) \<Rightarrow>
                ''ctx.'' @ bindingMth @ ''(&input, binding.'' @ bindingType @ '')''))"

definition bindStatement :: "env \<Rightarrow> bool \<Rightarrow> bool \<Rightarrow> string \<Rightarrow> string" where
  "bindStatement E bindCheck isGet binding =
     (if bindCheck then ''if err := '' @ bindCall E isGet binding @ ''; err != nil {''
      else ''_ = '' @ bindCall E isGet binding)"

text \<open>What \<open>generateClientMethod\<close> prints as the input type.\<close>

definition renderedInput :: "string \<Rightarrow> string" where
  "renderedInput inType =
     (if inType = ''types.Empty'' \<or> inType = ''empty.Empty'' then ''router.Empty'' else inType)"

section \<open>A sample request\<close>

text \<open>
  Two schema files. \<open>common/types.proto\<close> declares an empty message, a message with a
  nested message and a nested enum. \<open>user/profile.proto\<close> imports it publicly, declares
  two messages and one service with a POST, two GET and a PUT method; it is the file
  to generate.
\<close>

definition sample_common :: FileDescriptorProto where
  "sample_common =
     \<lparr> Name = Some ''common/types.proto'', Package = Some ''common'', Dependency = [],
       PublicDependency = [], WeakDependency = [],
       MessageType =
         [DescriptorProto ''Void'' [] [] [] [] False,
          DescriptorProto ''Outer''
            [\<lparr>f_Name = ''id'', f_Type = TYPE_INT64, f_TypeName = []\<rparr>]
            [DescriptorProto ''Inner'' [] [] [] [] False]
            [\<lparr>e_Name = ''Kind''\<rparr>] [] False],
       EnumType = [], Service = [], Extension = [], go_package = [],
       SourceCodeInfo = [], Syntax = ''proto3'' \<rparr>"

definition sample_method ::
  "string \<Rightarrow> string \<Rightarrow> string \<Rightarrow> HttpPattern \<Rightarrow> MethodDescriptorProto" where
  "sample_method n i out pat =
     \<lparr> md_Name = n, md_InputType = i, md_OutputType = out,
       md_Options = Some \<lparr>E_Http = Some \<lparr>Pattern = pat, ResponseBody = []\<rparr>\<rparr> \<rparr>"

definition sample_save :: MethodDescriptorProto where
  "sample_save = sample_method ''Save'' ''.user.Profile'' ''.user.Ping''
                   (HttpRule_Post ''/v1/profile'')"

definition sample_load :: MethodDescriptorProto where
  "sample_load = sample_method ''Load'' ''.user.Profile'' ''.user.Profile''
                   (HttpRule_Get ''/v1/profile'')"

definition sample_check :: MethodDescriptorProto where
  "sample_check = sample_method ''Check'' ''.common.Void'' ''.user.Ping''
                    (HttpRule_Get ''/v1/check'')"

definition sample_replace :: MethodDescriptorProto where
  "sample_replace = sample_method ''Replace'' ''.user.Profile'' ''.user.Ping''
                      (HttpRule_Put ''/v1/profile'')"

text \<open>A further method, not part of the service: its input has no fields.\<close>

definition sample_touch :: MethodDescriptorProto where
  "sample_touch = sample_method ''Touch'' ''.user.Ping'' ''.user.Ping''
                    (HttpRule_Post ''/v1/ping'')"

definition sample_service :: ServiceDescriptorProto where
  "sample_service =
     \<lparr> sv_Name = ''ProfileService'',
       sv_Method = [sample_save, sample_load, sample_check, sample_replace] \<rparr>"

definition sample_user :: FileDescriptorProto where
  "sample_user =
     \<lparr> Name = Some ''user/profile.proto'', Package = Some ''user'',
       Dependency = [''common/types.proto''],
       PublicDependency = [0], WeakDependency = [],
       MessageType =
         [DescriptorProto ''Profile''
            [\<lparr>f_Name = ''name'', f_Type = TYPE_STRING, f_TypeName = []\<rparr>,
             \<lparr>f_Name = ''age'', f_Type = TYPE_INT32, f_TypeName = []\<rparr>] [] [] [] False,
          DescriptorProto ''Ping'' [] [] [] [] False],
       EnumType = [],
       Service = [sample_service],
       Extension = [], go_package = [],
       SourceCodeInfo = [\<lparr>loc_Path = [6, 0, 2, 1],
                          loc_LeadingComments = Some '' @tag binding:form''\<rparr>],
       Syntax = ''proto3'' \<rparr>"

definition sample_request :: CodeGeneratorRequest where
  "sample_request =
     \<lparr> FileToGenerate = [''user/profile.proto''],
       Parameter = ''repo=example.com/app,path=out'',
       ProtoFile = [sample_common, sample_user] \<rparr>"

text \<open>The two files as \<open>WrapTypes\<close> and \<open>SetPackageNames\<close> leave them.\<close>

definition sample_common_fd :: FileDescriptor where
  "sample_common_fd =
     \<lparr> fd_proto = sample_common,
       fd_desc =
         [\<lparr> d_proto = DescriptorProto ''Void'' [] [] [] [] False,
            d_parent = None, d_nested = [], d_enums = [], d_ext = [],
            d_typename = [''Void''], d_index = 0, d_path = ''4,0'', d_group = False \<rparr>,
          \<lparr> d_proto = DescriptorProto ''Outer''
                        [\<lparr>f_Name = ''id'', f_Type = TYPE_INT64, f_TypeName = []\<rparr>]
                        [DescriptorProto ''Inner'' [] [] [] [] False]
                        [\<lparr>e_Name = ''Kind''\<rparr>] [] False,
            d_parent = None, d_nested = [2], d_enums = [0], d_ext = [],
            d_typename = [''Outer''], d_index = 1, d_path = ''4,1'', d_group = False \<rparr>,
          \<lparr> d_proto = DescriptorProto ''Inner'' [] [] [] [] False,
            d_parent = Some 1, d_nested = [], d_enums = [], d_ext = [],
            d_typename = [''Outer'', ''Inner''], d_index = 0, d_path = ''4,1,3,0'',
            d_group = False \<rparr>],
       fd_enum =
         [\<lparr> ed_proto = \<lparr>e_Name = ''Kind''\<rparr>, ed_parent = Some 1,
            ed_typename = [''Outer'', ''Kind''], ed_index = 0, ed_path = ''4,1,4,0'' \<rparr>],
       fd_ext = [], fd_imp = [], fd_comments = Map.empty, fd_importPath = ''common'',
       fd_packageName = [], fd_proto3 = True \<rparr>"

definition sample_user_fd :: FileDescriptor where
  "sample_user_fd =
     \<lparr> fd_proto = sample_user,
       fd_desc =
         [\<lparr> d_proto = DescriptorProto ''Profile''
                        [\<lparr>f_Name = ''name'', f_Type = TYPE_STRING, f_TypeName = []\<rparr>,
                         \<lparr>f_Name = ''age'', f_Type = TYPE_INT32, f_TypeName = []\<rparr>]
                        [] [] [] False,
            d_parent = None, d_nested = [], d_enums = [], d_ext = [],
            d_typename = [''Profile''], d_index = 0, d_path = ''4,0'', d_group = False \<rparr>,
          \<lparr> d_proto = DescriptorProto ''Ping'' [] [] [] [] False,
            d_parent = None, d_nested = [], d_enums = [], d_ext = [],
            d_typename = [''Ping''], d_index = 1, d_path = ''4,1'', d_group = False \<rparr>],
       fd_enum = [], fd_ext = [],
       fd_imp = [\<lparr>id_file = 1, id_o = DescObj 0 0\<rparr>, \<lparr>id_file = 1, id_o = DescObj 0 1\<rparr>,
                 \<lparr>id_file = 1, id_o = DescObj 0 2\<rparr>, \<lparr>id_file = 1, id_o = EnumObj 0 0\<rparr>],
       fd_comments = [''6,0,2,1'' \<mapsto> '' @tag binding:form''],
       fd_importPath = ''user'', fd_packageName = ''user'', fd_proto3 = True \<rparr>"

text \<open>A disk on which the manifest exists and is the empty object.\<close>

definition sample_disk :: "string \<rightharpoonup> string" where
  "sample_disk = [''out/handler.json'' \<mapsto> ''{}'']"

text \<open>
  The state in which the API pass of \<open>user/profile.proto\<close> (position 1) starts, after
  \<open>CommandLineParameters\<close>, \<open>WrapTypes\<close>, \<open>SetPackageNames\<close> and \<open>BuildTypeNameMap\<close>
  have run on the sample request: the file is current and is written.
\<close>

definition sample_api :: "(string \<rightharpoonup> string) \<Rightarrow> Generator" where
  "sample_api dsk =
     \<lparr> Buffer = [], Request = sample_request, Response = [],
       Param = [(''repo'', ''example.com/app''), (''path'', ''out'')],
       PackageImportPath = [], ImportPrefix = ''example.com/app/'', ImportMap = Map.empty,
       Pkg = [''fmt'' \<mapsto> ''fmt'', ''math'' \<mapsto> ''math'', ''proto'' \<mapsto> ''proto''],
       outputImportPath = ''user/profile.proto'',
       allFiles = [sample_common_fd, sample_user_fd],
       allFilesByName = [''common/types.proto'' \<mapsto> 0, ''user/profile.proto'' \<mapsto> 1],
       genFiles = [1], g_file = Some 1,
       packageNames = Map.empty, usedPackages = {}, usedPackageNames = [],
       addedImports = {},
       typeNameToObject =
         [''.common.Outer.Kind'' \<mapsto> EnumObj 0 0, ''.common.Void'' \<mapsto> DescObj 0 0,
          ''.common.Outer'' \<mapsto> DescObj 0 1, ''.common.Outer.Inner'' \<mapsto> DescObj 0 2,
          ''.user.Profile'' \<mapsto> DescObj 1 0, ''.user.Ping'' \<mapsto> DescObj 1 1],
       indent = [], pathType = pathTypeImport, writeOutput = True, disk = dsk \<rparr>"

text \<open>One method of the sample service generated in that state, with given directives.\<close>

definition sample_run ::
  "MethodDescriptorProto \<Rightarrow> (string \<rightharpoonup> string) \<Rightarrow> error + bool \<times> Generator" where
  "sample_run method customAnnotations =
     generateClientMethod sample_env (sample_api sample_disk) ''user'' ''ProfileService''
       method customAnnotations"

text \<open>
  The sample state after the type \<open>.common.Void\<close> of the other file has been used: its
  file is imported under the package name \<open>types\<close>.
\<close>

definition sample_after_void :: Generator where
  "sample_after_void =
     (sample_api sample_disk)
       \<lparr>addedImports := {''common/types.proto''},
        packageNames := [''common/types.proto'' \<mapsto> ''types''],
        usedPackageNames := [''types''],
        usedPackages := {''common/types.proto''}\<rparr>"

text \<open>The lines the four sample methods add to the buffer.\<close>

definition sample_load_lines :: "string list" where
  "sample_load_lines =
     [''g.GET('' @ [dq] @ ''/v1/profile'' @ [dq] @ '', func(ctx *gin.Context) {'',
      ''input, output := Profile{}, Profile{}'', [],
      ''if err := ctx.ShouldBindQuery(&input); err != nil {'',
      ''router.Error(ctx, 500, err)'', ''return'', ''}'', [],
      ''err := h.Load(ctx.Copy(), &input, &output)'', ''if err != nil {'',
      ''router.Error(ctx, 500, err)'', ''return'', ''}'', [],
      ''router.JSON(ctx, &output)'', ''})'', []]"

definition sample_replace_lines :: "string list" where
  "sample_replace_lines =
     [''input, output := Profile{}, Ping{}'', [],
      ''if err := ctx.ShouldBindBodyWith(&input, binding.JSON); err != nil {'',
      ''router.Error(ctx, 500, err)'', ''return'', ''}'', [],
      ''err := h.Replace(ctx.Copy(), &input, &output)'', ''if err != nil {'',
      ''router.Error(ctx, 500, err)'', ''return'', ''}'', [],
      ''router.JSON(ctx, &output)'', ''})'', []]"

definition sample_touch_lines :: "string list" where
  "sample_touch_lines =
     [''g.POST('' @ [dq] @ ''/v1/ping'' @ [dq] @ '', func(ctx *gin.Context) {'',
      ''input := Ping{}'', ''var output Ping'', [],
      ''err := h.Touch(ctx.Copy(), &input, &output)'', ''if err != nil {'',
      ''router.Error(ctx, 500, err)'', ''return'', ''}'', [],
      ''router.JSON(ctx, &output)'', ''})'', []]"

definition sample_check_lines :: "string list" where
  "sample_check_lines =
     [''g.GET('' @ [dq] @ ''/v1/check'' @ [dq] @ '', func(ctx *gin.Context) {'',
      ''input, output := types.Void{}, Ping{}'', [],
      ''if err := ctx.ShouldBindQuery(&input); err != nil {'',
      ''router.Error(ctx, 500, err)'', ''return'', ''}'', [],
      ''err := h.Check(ctx.Copy(), &input, &output)'', ''if err != nil {'',
      ''router.Error(ctx, 500, err)'', ''return'', ''}'', [],
      ''router.JSON(ctx, &output)'', ''})'', []]"

text \<open>
  A second request, of one schema file. \<open>shape/shape.proto\<close> declares a message \<open>A\<close>
  without fields that nests a message \<open>B\<close> without fields, and a message \<open>A_B\<close>
  with one field; its service has one POST method whose input is \<open>A_B\<close>. The Go name
  of the nested \<open>A.B\<close> and of \<open>A_B\<close> is \<open>A_B\<close> for both.
\<close>

definition shape_put :: MethodDescriptorProto where
  "shape_put = sample_method ''Put'' ''.shape.A_B'' ''.shape.A'' (HttpRule_Post ''/v1/shape'')"

definition shape_proto :: FileDescriptorProto where
  "shape_proto =
     \<lparr> Name = Some ''shape/shape.proto'', Package = Some ''shape'', Dependency = [],
       PublicDependency = [], WeakDependency = [],
       MessageType =
         [DescriptorProto ''A'' [] [DescriptorProto ''B'' [] [] [] [] False] [] [] False,
          DescriptorProto ''A_B''
            [\<lparr>f_Name = ''id'', f_Type = TYPE_STRING, f_TypeName = []\<rparr>] [] [] [] False],
       EnumType = [],
       Service = [\<lparr>sv_Name = ''Shapes'', sv_Method = [shape_put]\<rparr>],
       Extension = [], go_package = [], SourceCodeInfo = [], Syntax = ''proto3'' \<rparr>"

definition shape_request :: CodeGeneratorRequest where
  "shape_request =
     \<lparr> FileToGenerate = [''shape/shape.proto''],
       Parameter = ''repo=example.com/app,path=out'',
       ProtoFile = [shape_proto] \<rparr>"

text \<open>The file as \<open>WrapTypes\<close> and \<open>SetPackageNames\<close> leave it.\<close>

definition shape_fd :: FileDescriptor where
  "shape_fd =
     \<lparr> fd_proto = shape_proto,
       fd_desc =
         [\<lparr> d_proto = DescriptorProto ''A'' [] [DescriptorProto ''B'' [] [] [] [] False]
                        [] [] False,
            d_parent = None, d_nested = [1], d_enums = [], d_ext = [],
            d_typename = [''A''], d_index = 0, d_path = ''4,0'', d_group = False \<rparr>,
          \<lparr> d_proto = DescriptorProto ''B'' [] [] [] [] False,
            d_parent = Some 0, d_nested = [], d_enums = [], d_ext = [],
            d_typename = [''A'', ''B''], d_index = 0, d_path = ''4,0,3,0'',
            d_group = False \<rparr>,
          \<lparr> d_proto = DescriptorProto ''A_B''
                        [\<lparr>f_Name = ''id'', f_Type = TYPE_STRING, f_TypeName = []\<rparr>]
                        [] [] [] False,
            d_parent = None, d_nested = [], d_enums = [], d_ext = [],
            d_typename = [''A_B''], d_index = 1, d_path = ''4,1'', d_group = False \<rparr>],
       fd_enum = [], fd_ext = [], fd_imp = [], fd_comments = Map.empty,
       fd_importPath = ''shape'', fd_packageName = ''shape'', fd_proto3 = True \<rparr>"

text \<open>The state in which the API pass of \<open>shape/shape.proto\<close> starts.\<close>

definition shape_api :: Generator where
  "shape_api =
     \<lparr> Buffer = [], Request = shape_request, Response = [],
       Param = [(''repo'', ''example.com/app''), (''path'', ''out'')],
       PackageImportPath = [], ImportPrefix = ''example.com/app/'', ImportMap = Map.empty,
       Pkg = [''fmt'' \<mapsto> ''fmt'', ''math'' \<mapsto> ''math'', ''proto'' \<mapsto> ''proto''],
       outputImportPath = ''shape/shape.proto'',
       allFiles = [shape_fd],
       allFilesByName = [''shape/shape.proto'' \<mapsto> 0],
       genFiles = [0], g_file = Some 0,
       packageNames = Map.empty, usedPackages = {}, usedPackageNames = [],
       addedImports = {},
       typeNameToObject =
         [''.shape.A'' \<mapsto> DescObj 0 0, ''.shape.A.B'' \<mapsto> DescObj 0 1,
          ''.shape.A_B'' \<mapsto> DescObj 0 2],
       indent = [], pathType = pathTypeImport, writeOutput = True, disk = sample_disk \<rparr>"

text \<open>The lines the method adds to the buffer.\<close>

definition shape_put_lines :: "string list" where
  "shape_put_lines =
     [''g.POST('' @ [dq] @ ''/v1/shape'' @ [dq] @ '', func(ctx *gin.Context) {'',
      ''input := A_B{}'', ''var output A'', [],
      ''err := h.Put(ctx.Copy(), &input, &output)'', ''if err != nil {'',
      ''router.Error(ctx, 500, err)'', ''return'', ''}'', [],
      ''router.JSON(ctx, &output)'', ''})'', []]"

text \<open>
  Requests of schema files without declarations. \<open>plain_file\<close> is such a file with a
  name and a \<open>go_package\<close> option, \<open>plain_wrapped\<close> what \<open>WrapTypes\<close> makes of it.
\<close>

definition plain_file :: "string \<Rightarrow> string \<Rightarrow> FileDescriptorProto" where
  "plain_file n opt =
     \<lparr> Name = Some n, Package = None, Dependency = [], PublicDependency = [],
       WeakDependency = [], MessageType = [], EnumType = [], Service = [], Extension = [],
       go_package = opt, SourceCodeInfo = [], Syntax = ''proto3'' \<rparr>"

definition plain_wrapped :: "FileDescriptorProto \<Rightarrow> string \<Rightarrow> FileDescriptor" where
  "plain_wrapped f importPath =
     \<lparr> fd_proto = f, fd_desc = [], fd_enum = [], fd_ext = [], fd_imp = [],
       fd_comments = Map.empty, fd_importPath = importPath, fd_packageName = [],
       fd_proto3 = True \<rparr>"

text \<open>
  Four files, one of them to generate, with an \<open>M\<close> parameter for the first and the
  \<open>import_path\<close> parameter; the state after \<open>CommandLineParameters\<close> and the state
  after \<open>WrapTypes\<close>.
\<close>

definition paths_request :: CodeGeneratorRequest where
  "paths_request =
     \<lparr> FileToGenerate = [''gen.proto''],
       Parameter = ''Mm.proto=over/m,import_path=cmd/p'',
       ProtoFile = [plain_file ''m.proto'' ''opt/m'', plain_file ''gen.proto'' ''opt/gen'',
                    plain_file ''dep/opt.proto'' ''opt/path;pk'',
                    plain_file ''dep/plain.proto'' []] \<rparr>"

definition paths_params :: Generator where
  "paths_params =
     (New paths_request Map.empty)
       \<lparr>Param := [(''Mm.proto'', ''over/m''), (''import_path'', ''cmd/p'')],
        PackageImportPath := ''cmd/p'', ImportPrefix := ''/'',
        ImportMap := [''m.proto'' \<mapsto> ''over/m'']\<rparr>"

definition paths_wrapped :: Generator where
  "paths_wrapped =
     paths_params
       \<lparr>allFiles := [plain_wrapped (plain_file ''m.proto'' ''opt/m'') ''over/m'',
                     plain_wrapped (plain_file ''gen.proto'' ''opt/gen'') ''cmd/p'',
                     plain_wrapped (plain_file ''dep/opt.proto'' ''opt/path;pk'') ''opt/path'',
                     plain_wrapped (plain_file ''dep/plain.proto'' []) ''dep''],
        allFilesByName := [''m.proto'' \<mapsto> 0, ''gen.proto'' \<mapsto> 1, ''dep/opt.proto'' \<mapsto> 2,
                           ''dep/plain.proto'' \<mapsto> 3],
        genFiles := [1]\<rparr>"

text \<open>
  Two files to generate whose \<open>go_package\<close> options give the same import path and
  different package names.
\<close>

definition pkgs_request :: CodeGeneratorRequest where
  "pkgs_request =
     \<lparr> FileToGenerate = [''x/a.proto'', ''x/b.proto''],
       Parameter = ''path=out'',
       ProtoFile = [plain_file ''x/a.proto'' ''x/p;alpha'',
                    plain_file ''x/b.proto'' ''x/p;beta''] \<rparr>"

definition pkgs_params :: Generator where
  "pkgs_params =
     (New pkgs_request Map.empty)\<lparr>Param := [(''path'', ''out'')], ImportPrefix := ''/''\<rparr>"

definition pkgs_wrapped :: Generator where
  "pkgs_wrapped =
     pkgs_params
       \<lparr>allFiles := [plain_wrapped (plain_file ''x/a.proto'' ''x/p;alpha'') ''x/p'',
                     plain_wrapped (plain_file ''x/b.proto'' ''x/p;beta'') ''x/p''],
        allFilesByName := [''x/a.proto'' \<mapsto> 0, ''x/b.proto'' \<mapsto> 1],
        genFiles := [0, 1]\<rparr>"

text \<open>
  Two files of the same package \<open>p\<close> that both declare a message \<open>A\<close>, the first
  with a field, the second without; the states after \<open>CommandLineParameters\<close>, after
  \<open>WrapTypes\<close> and after \<open>SetPackageNames\<close>.
\<close>

definition dup_file :: "string \<Rightarrow> FieldDescriptorProto list \<Rightarrow> FileDescriptorProto" where
  "dup_file n flds =
     \<lparr> Name = Some n, Package = Some ''p'', Dependency = [], PublicDependency = [],
       WeakDependency = [], MessageType = [DescriptorProto ''A'' flds [] [] [] False],
       EnumType = [], Service = [], Extension = [], go_package = [], SourceCodeInfo = [],
       Syntax = ''proto3'' \<rparr>"

definition dup_fd :: "string \<Rightarrow> FieldDescriptorProto list \<Rightarrow> FileDescriptor" where
  "dup_fd n flds =
     \<lparr> fd_proto = dup_file n flds,
       fd_desc = [\<lparr> d_proto = DescriptorProto ''A'' flds [] [] [] False,
                    d_parent = None, d_nested = [], d_enums = [], d_ext = [],
                    d_typename = [''A''], d_index = 0, d_path = ''4,0'', d_group = False \<rparr>],
       fd_enum = [], fd_ext = [], fd_imp = [], fd_comments = Map.empty,
       fd_importPath = ''d'', fd_packageName = [], fd_proto3 = True \<rparr>"

definition dup_request :: CodeGeneratorRequest where
  "dup_request =
     \<lparr> FileToGenerate = [''d/one.proto''],
       Parameter = ''path=out'',
       ProtoFile = [dup_file ''d/one.proto''
                      [\<lparr>f_Name = ''id'', f_Type = TYPE_STRING, f_TypeName = []\<rparr>],
                    dup_file ''d/two.proto'' []] \<rparr>"

definition dup_params :: Generator where
  "dup_params =
     (New dup_request Map.empty)\<lparr>Param := [(''path'', ''out'')], ImportPrefix := ''/''\<rparr>"

definition dup_wrapped :: Generator where
  "dup_wrapped =
     dup_params
       \<lparr>allFiles := [dup_fd ''d/one.proto''
                       [\<lparr>f_Name = ''id'', f_Type = TYPE_STRING, f_TypeName = []\<rparr>],
                     dup_fd ''d/two.proto'' []],
        allFilesByName := [''d/one.proto'' \<mapsto> 0, ''d/two.proto'' \<mapsto> 1],
        genFiles := [0]\<rparr>"

definition dup_named :: Generator where
  "dup_named =
     dup_wrapped
       \<lparr>outputImportPath := ''d/one.proto'',
        allFiles := [(dup_fd ''d/one.proto''
                        [\<lparr>f_Name = ''id'', f_Type = TYPE_STRING, f_TypeName = []\<rparr>])
                       \<lparr>fd_packageName := ''p''\<rparr>,
                     dup_fd ''d/two.proto'' []],
        Pkg := [''fmt'' \<mapsto> ''fmt'', ''math'' \<mapsto> ''math'', ''proto'' \<mapsto> ''proto'']\<rparr>"

text \<open>
  The sample request after \<open>CommandLineParameters\<close> and after \<open>WrapTypes\<close>: the
  package names are not assigned yet.
\<close>

definition sample_params :: Generator where
  "sample_params =
     (New sample_request sample_disk)
       \<lparr>Param := [(''repo'', ''example.com/app''), (''path'', ''out'')],
        ImportPrefix := ''example.com/app/''\<rparr>"

definition sample_wrapped :: Generator where
  "sample_wrapped =
     sample_params
       \<lparr>allFiles := [sample_common_fd, sample_user_fd\<lparr>fd_packageName := []\<rparr>],
        allFilesByName := [''common/types.proto'' \<mapsto> 0, ''user/profile.proto'' \<mapsto> 1],
        genFiles := [1]\<rparr>"

section \<open>Properties\<close>

subsection \<open>Basic facts\<close>

lemma bindE_simps [simp]:
  "bindE (Inl e) f = Inl e"
  "bindE (Inr x) f = f x"
  by (simp_all add: bindE_def)

lemma paramCase_ok:
  "k \<noteq> ''paths'' \<or> w = ''import'' \<or> w = ''source_relative''
   \<Longrightarrow> \<exists>g1. paramCase g k w = Inr g1"
  by (auto simp add: paramCase_def)

lemma paramCase_unknown:
  "w \<noteq> ''import'' \<Longrightarrow> w \<noteq> ''source_relative''
   \<Longrightarrow> paramCase g ''paths'' w = Inl (UnknownPathType w)"
  by (simp add: paramCase_def)

lemma paramCase_fields:
  "paramCase g k w = Inr g1 \<Longrightarrow>
     Param g1 = Param g \<and> Request g1 = Request g \<and> disk g1 = disk g
     \<and> (k \<noteq> ''import_prefix'' \<longrightarrow> ImportPrefix g1 = ImportPrefix g)
     \<and> (k \<noteq> ''import_path'' \<longrightarrow> PackageImportPath g1 = PackageImportPath g)
     \<and> (k = ''import_path'' \<longrightarrow> PackageImportPath g1 = w)"
  by (auto simp add: paramCase_def split: if_splits)

lemma paramCase_ImportMap:
  "paramCase g k w = Inr g1 \<Longrightarrow>
     ImportMap g1 n = (if k = CHR ''M'' # n then Some w else ImportMap g n)"
  by (cases k) (auto simp add: paramCase_def split: if_splits)

lemma paramLoop_Cons_Inr:
  "paramLoop g ((k, w) # kvs) = Inr g' \<Longrightarrow>
     \<exists>g1. paramCase g k w = Inr g1 \<and> paramLoop g1 kvs = Inr g'"
  by (cases "paramCase g k w") simp_all

lemma paramLoop_ImportPrefix:
  "paramLoop g kvs = Inr g' \<Longrightarrow> ''import_prefix'' \<notin> fst ` set kvs \<Longrightarrow>
     ImportPrefix g' = ImportPrefix g"
proof (induction kvs arbitrary: g)
  case Nil
  then show ?case by simp
next
  case (Cons kv kvs)
  obtain k w where kv: "kv = (k, w)" by (cases kv)
  from Cons.prems(1) kv obtain g1 where
    c: "paramCase g k w = Inr g1" and l: "paramLoop g1 kvs = Inr g'"
    using paramLoop_Cons_Inr by blast
  from Cons.prems(2) kv have k: "k \<noteq> ''import_prefix''" and t: "''import_prefix'' \<notin> fst ` set kvs"
    by auto
  from Cons.IH [OF l t] paramCase_fields [OF c] k show ?case by simp
qed

lemma paramLoop_Param:
  "paramLoop g kvs = Inr g' \<Longrightarrow>
     Param g' = Param g \<and> Request g' = Request g \<and> disk g' = disk g"
proof (induction kvs arbitrary: g)
  case Nil
  then show ?case by simp
next
  case (Cons kv kvs)
  obtain k w where kv: "kv = (k, w)" by (cases kv)
  from Cons.prems(1) kv obtain g1 where
    c: "paramCase g k w = Inr g1" and l: "paramLoop g1 kvs = Inr g'"
    using paramLoop_Cons_Inr by blast
  from Cons.IH [OF l] paramCase_fields [OF c] show ?case by simp
qed

lemma paramLoop_PackageImportPath:
  "paramLoop g kvs = Inr g' \<Longrightarrow> distinct (map fst kvs) \<Longrightarrow>
     PackageImportPath g' =
       (case map_of kvs ''import_path'' of None \<Rightarrow> PackageImportPath g | Some v \<Rightarrow> v)"
proof (induction kvs arbitrary: g)
  case Nil
  then show ?case by simp
next
  case (Cons kv kvs)
  obtain k w where kv: "kv = (k, w)" by (cases kv)
  from Cons.prems(1) kv obtain g1 where
    c: "paramCase g k w = Inr g1" and l: "paramLoop g1 kvs = Inr g'"
    using paramLoop_Cons_Inr by blast
  from Cons.prems(2) kv have d: "distinct (map fst kvs)" and nk: "map_of kvs k = None"
    by (auto simp: map_of_eq_None_iff)
  note ih = Cons.IH [OF l d]
  show ?case
  proof (cases "k = ''import_path''")
    case True
    with ih nk paramCase_fields [OF c] kv show ?thesis by simp
  next
    case False
    with ih paramCase_fields [OF c] kv show ?thesis by (simp split: option.splits)
  qed
qed

lemma paramLoop_ImportMap:
  "paramLoop g kvs = Inr g' \<Longrightarrow> distinct (map fst kvs) \<Longrightarrow>
     ImportMap g' n =
       (case map_of kvs (CHR ''M'' # n) of None \<Rightarrow> ImportMap g n | Some v \<Rightarrow> Some v)"
proof (induction kvs arbitrary: g)
  case Nil
  then show ?case by simp
next
  case (Cons kv kvs)
  obtain k w where kv: "kv = (k, w)" by (cases kv)
  from Cons.prems(1) kv obtain g1 where
    c: "paramCase g k w = Inr g1" and l: "paramLoop g1 kvs = Inr g'"
    using paramLoop_Cons_Inr by blast
  from Cons.prems(2) kv have d: "distinct (map fst kvs)" and nk: "map_of kvs k = None"
    by (auto simp: map_of_eq_None_iff)
  note ih = Cons.IH [OF l d]
  show ?case
  proof (cases "k = CHR ''M'' # n")
    case True
    with ih nk paramCase_ImportMap [OF c, of n] kv show ?thesis by simp
  next
    case False
    with ih paramCase_ImportMap [OF c, of n] kv show ?thesis by (simp split: option.splits)
  qed
qed

lemma P_fields [simp]:
  "ImportPrefix (P g str) = ImportPrefix g"
  "indent (P g str) = indent g"
  "writeOutput (P g str) = writeOutput g"
  "Param (P g str) = Param g"
  by (simp_all add: P_def)

lemma ParamGet_P [simp]: "ParamGet (P g str) k = ParamGet g k"
  by (simp add: ParamGet_def)

lemma Buffer_P: "writeOutput g \<Longrightarrow> Buffer (P g str) = Buffer g @ [indent g @ concat str]"
  by (simp add: P_def)

lemma core_same_refl [simp]: "core_same g g"
  by (simp add: core_same_def)

lemma core_same_trans: "core_same g g1 \<Longrightarrow> core_same g1 g2 \<Longrightarrow> core_same g g2"
  by (simp add: core_same_def)

lemma core_same_P [simp]: "core_same g (P g str)"
  by (simp add: core_same_def P_def)

lemma core_same_Pl: "core_same g (Pl g ls)"
proof -
  have "core_same g0 g \<Longrightarrow> core_same g0 (fold (\<lambda>l g'. P g' [l]) ls g)" for g0 g
  proof (induction ls arbitrary: g)
    case Nil
    then show ?case by simp
  next
    case (Cons l ls)
    from Cons.prems core_same_P [of g "[l]"] have "core_same g0 (P g [l])"
      by (rule core_same_trans)
    from Cons.IH [OF this] show ?case by simp
  qed
  from this [of g g] show ?thesis by (simp add: Pl_def)
qed

lemma Buffer_Pl:
  "writeOutput g \<Longrightarrow> Buffer (Pl g ls) = Buffer g @ map (\<lambda>l. indent g @ l) ls"
proof -
  have "writeOutput g \<Longrightarrow>
        Buffer (fold (\<lambda>l g'. P g' [l]) ls g) = Buffer g @ map (\<lambda>l. indent g @ l) ls" for g
  proof (induction ls arbitrary: g)
    case Nil
    then show ?case by simp
  next
    case (Cons l ls)
    have w: "writeOutput (P g [l])" using Cons.prems by simp
    from Cons.IH [OF w] Cons.prems show ?case by (simp add: Buffer_P)
  qed
  then show "writeOutput g \<Longrightarrow> Buffer (Pl g ls) = Buffer g @ map (\<lambda>l. indent g @ l) ls"
    by (simp add: Pl_def)
qed

lemma Buffer_Pl_silent: "\<not> writeOutput g \<Longrightarrow> Pl g ls = g"
proof -
  have "\<not> writeOutput g \<Longrightarrow> fold (\<lambda>l g'. P g' [l]) ls g = g"
    by (induction ls) (simp_all add: P_def)
  then show "\<not> writeOutput g \<Longrightarrow> Pl g ls = g" by (simp add: Pl_def)
qed

lemma GoPackageName_same:
  "GoPackageName E g importPath = (name, g') \<Longrightarrow> core_same g g' \<and> Buffer g' = Buffer g"
  by (auto simp: GoPackageName_def Let_def core_same_def split: option.splits)

lemma AddImport_same:
  "AddImport E g importPath = (name, g') \<Longrightarrow> core_same g g' \<and> Buffer g' = Buffer g"
  using GoPackageName_same [of E "g\<lparr>addedImports := insert importPath (addedImports g)\<rparr>" importPath name g']
  by (simp add: AddImport_def core_same_def)

lemma RecordTypeUse_same:
  "core_same g (RecordTypeUse E g t) \<and> Buffer (RecordTypeUse E g t) = Buffer g"
proof (cases "typeNameToObject g t")
  case None
  then show ?thesis by (simp add: RecordTypeUse_def)
next
  case (Some obj)
  let ?ip = "GetName (fd_proto (allFiles g ! Object_File obj))"
  show ?thesis
  proof (cases "?ip = outputImportPath g")
    case True
    with Some show ?thesis by (simp add: RecordTypeUse_def)
  next
    case False
    obtain n g1 where a: "AddImport E g ?ip = (n, g1)" by (cases "AddImport E g ?ip")
    from AddImport_same [OF a] Some False a show ?thesis
      by (simp add: RecordTypeUse_def core_same_def)
  qed
qed

lemma DefaultPackageName_same:
  "DefaultPackageName E g obj = (s, g') \<Longrightarrow> core_same g g' \<and> Buffer g' = Buffer g"
proof -
  assume a: "DefaultPackageName E g obj = (s, g')"
  let ?ip = "GetName (fd_proto (allFiles g ! Object_File obj))"
  show ?thesis
  proof (cases "?ip = outputImportPath g")
    case True
    with a show ?thesis by (simp add: DefaultPackageName_def)
  next
    case False
    obtain n g1 where p: "GoPackageName E g ?ip = (n, g1)" by (cases "GoPackageName E g ?ip")
    from GoPackageName_same [OF p] a False p show ?thesis
      by (simp add: DefaultPackageName_def)
  qed
qed

lemma TypeName_same:
  "TypeName E g obj = (s, g') \<Longrightarrow> core_same g g' \<and> Buffer g' = Buffer g"
proof -
  assume a: "TypeName E g obj = (s, g')"
  obtain p g1 where d: "DefaultPackageName E g obj = (p, g1)"
    by (cases "DefaultPackageName E g obj")
  from DefaultPackageName_same [OF d] a d show ?thesis
    by (simp add: TypeName_def)
qed

lemma typeName_same:
  "typeName E g str = Inr (s, g') \<Longrightarrow> core_same g g' \<and> Buffer g' = Buffer g"
proof -
  assume a: "typeName E g str = Inr (s, g')"
  let ?g1 = "RecordTypeUse E g str"
  from a obtain obj where o: "ObjectNamed ?g1 str = Inr obj" and t: "TypeName E ?g1 obj = (s, g')"
    by (cases "ObjectNamed ?g1 str") (auto simp: typeName_def Let_def)
  from RecordTypeUse_same [of g E str] TypeName_same [OF t] show ?thesis
    by (auto intro: core_same_trans)
qed

lemma fold_import_lines:
  "writeOutput g \<Longrightarrow>
   Buffer (fold (\<lambda>importPath g'. P g' [[dq] @ ImportPrefix g' @ importPath @ [dq]]) imps g)
     = Buffer g @ map (\<lambda>p. indent g @ importLine (ImportPrefix g) p) imps
   \<and> ImportPrefix (fold (\<lambda>importPath g'. P g' [[dq] @ ImportPrefix g' @ importPath @ [dq]]) imps g) = ImportPrefix g
   \<and> indent (fold (\<lambda>importPath g'. P g' [[dq] @ ImportPrefix g' @ importPath @ [dq]]) imps g) = indent g
   \<and> writeOutput (fold (\<lambda>importPath g'. P g' [[dq] @ ImportPrefix g' @ importPath @ [dq]]) imps g)"
proof (induction imps arbitrary: g)
  case Nil
  then show ?case by simp
next
  case (Cons p ps)
  have w: "writeOutput (P g [[dq] @ ImportPrefix g @ p @ [dq]])"
    using Cons.prems by simp
  show ?case
    using Cons.IH [OF w] Cons.prems by (simp add: Buffer_P importLine_def)
qed

lemma Buffer_generateModelImports:
  assumes "writeOutput g" and "imps \<noteq> []"
  shows "Buffer (generateModelImports g imps) =
           Buffer g @ map (\<lambda>l. indent g @ l)
             ([''import (''] @ map (importLine (ImportPrefix g)) imps @ ['')'', [], []])"
proof -
  let ?g1 = "P g [''import ('']"
  have w1: "writeOutput ?g1" using assms by simp
  note f = fold_import_lines [OF w1, of imps]
  show ?thesis
    using assms f by (simp add: generateModelImports_def Let_def Buffer_P)
qed

lemma Buffer_generateApiImports:
  assumes "writeOutput g"
  shows "Buffer (generateApiImports g imps hasBinding) =
           Buffer g @ map (\<lambda>l. indent g @ l)
             ([''import ('', [dq] @ ''github.com/gin-gonic/gin'' @ [dq]]
              @ (if hasBinding then [[dq] @ ''github.com/gin-gonic/gin/binding'' @ [dq]] else [])
              @ [[], [dq] @ ParamGet g ''repo'' @ ''/router'' @ [dq]]
              @ map (importLine (ImportPrefix g)) imps @ ['')'', [], []])"
proof (cases hasBinding)
  case True
  let ?g3 = "P (P (P g [''import ('']) [[dq] @ ''github.com/gin-gonic/gin'' @ [dq]])
               [[dq] @ ''github.com/gin-gonic/gin/binding'' @ [dq]]"
  let ?g5 = "P (P ?g3 []) [[dq], ParamGet (P ?g3 []) ''repo'', ''/router'' @ [dq]]"
  have w5: "writeOutput ?g5" using assms by simp
  note f = fold_import_lines [OF w5, of imps]
  show ?thesis
    using assms f True by (simp add: generateApiImports_def Let_def Buffer_P)
next
  case False
  let ?g3 = "P (P g [''import ('']) [[dq] @ ''github.com/gin-gonic/gin'' @ [dq]]"
  let ?g5 = "P (P ?g3 []) [[dq], ParamGet (P ?g3 []) ''repo'', ''/router'' @ [dq]]"
  have w5: "writeOutput ?g5" using assms by simp
  note f = fold_import_lines [OF w5, of imps]
  show ?thesis
    using assms f False by (simp add: generateApiImports_def Let_def Buffer_P)
qed

lemma CommandLineParameters_prefix:
  assumes "''import_prefix'' \<notin> fst ` set (parseParam parameter)"
    and "CommandLineParameters (New req dsk) parameter = Inr g"
  shows "ImportPrefix g = ParamGet g ''repo'' @ ''/''"
    and "Param g = parseParam parameter"
proof -
  let ?g2 = "(New req dsk)\<lparr>Param := parseParam parameter, ImportMap := Map.empty\<rparr>"
  from assms(2) obtain g3 where
    l: "paramLoop ?g2 (parseParam parameter) = Inr g3" and
    g: "g = (if ImportPrefix g3 = [] then g3\<lparr>ImportPrefix := ParamGet g3 ''repo'' @ ''/''\<rparr> else g3)"
    by (auto simp: CommandLineParameters_def Let_def bindE_def split: sum.splits if_splits)
  have "ImportPrefix g3 = []"
    using paramLoop_ImportPrefix [OF l assms(1)] by (simp add: New_def)
  moreover have "Param g3 = parseParam parameter"
    using paramLoop_Param [OF l] by simp
  ultimately show "ImportPrefix g = ParamGet g ''repo'' @ ''/''" and "Param g = parseParam parameter"
    using g by (simp_all add: ParamGet_def)
qed

lemma paramLoop_unknown_path:
  "map_of kvs ''paths'' = Some v \<Longrightarrow> v \<noteq> ''import'' \<Longrightarrow> v \<noteq> ''source_relative''
   \<Longrightarrow> paramLoop g kvs = Inl (UnknownPathType v)"
proof (induction kvs arbitrary: g)
  case Nil
  then show ?case by simp
next
  case (Cons kv kvs)
  obtain k w where kv: "kv = (k, w)" by (cases kv)
  show ?case
  proof (cases "k = ''paths''")
    case True
    with Cons.prems(1) kv have "w = v" by simp
    with True kv paramCase_unknown [OF Cons.prems(2,3), of g] show ?thesis by simp
  next
    case False
    with Cons.prems(1) kv have m: "map_of kvs ''paths'' = Some v" by simp
    from False obtain g1 where "paramCase g k w = Inr g1"
      using paramCase_ok [of k w g] by blast
    with Cons.IH [OF m Cons.prems(2,3), of g1] kv show ?thesis by simp
  qed
qed

lemma paramLoop_ok:
  "(\<forall>w. (''paths'', w) \<in> set kvs \<longrightarrow> w = ''import'' \<or> w = ''source_relative'')
   \<Longrightarrow> \<exists>g'. paramLoop g kvs = Inr g'"
proof (induction kvs arbitrary: g)
  case Nil
  then show ?case by simp
next
  case (Cons kv kvs)
  obtain k w where kv: "kv = (k, w)" by (cases kv)
  from Cons.prems kv have "k \<noteq> ''paths'' \<or> w = ''import'' \<or> w = ''source_relative''"
    by auto
  then obtain g1 where s: "paramCase g k w = Inr g1"
    using paramCase_ok [of k w g] by blast
  from Cons.prems have "\<forall>w. (''paths'', w) \<in> set kvs \<longrightarrow> w = ''import'' \<or> w = ''source_relative''"
    by simp
  from Cons.IH [OF this, of g1] s kv show ?case by simp
qed

lemma distinct_fold_update:
  "distinct (map fst m) \<Longrightarrow>
   distinct (map fst (fold (\<lambda>p m. case paramEntry p of (k, v) \<Rightarrow> AList.update k v m) ps m))"
  by (induction ps arbitrary: m) (auto simp: AList.distinct_update split: prod.splits)

lemma distinct_parseParam: "distinct (map fst (parseParam parameter))"
  by (simp add: parseParam_def distinct_fold_update)

text \<open>
  C9 (as amended). The \<open>paths\<close> parameter accepts exactly the values \<open>import\<close> and
  \<open>source_relative\<close>, any other value ending the run with the unknown-path-type
  error; it has no effect on the names of the output files: \<open>goFileName\<close> returns the
  same name for both path types.
\<close>

theorem paths_parameter:
  "goFileName E d pathTypeImport typ = goFileName E d pathTypeSourceRelative typ
   \<and> (\<forall>v. map_of (parseParam parameter) ''paths'' = Some v \<longrightarrow>
          (if v = ''import'' \<or> v = ''source_relative''
           then \<exists>g'. CommandLineParameters g parameter = Inr g'
           else CommandLineParameters g parameter = Inl (UnknownPathType v)))"
proof (intro conjI allI impI)
  show "goFileName E d pathTypeImport typ = goFileName E d pathTypeSourceRelative typ"
    by (simp add: goFileName_def Let_def split: option.splits)
next
  fix v
  assume m: "map_of (parseParam parameter) ''paths'' = Some v"
  let ?g2 = "g\<lparr>Param := parseParam parameter, ImportMap := Map.empty\<rparr>"
  show "if v = ''import'' \<or> v = ''source_relative''
        then \<exists>g'. CommandLineParameters g parameter = Inr g'
        else CommandLineParameters g parameter = Inl (UnknownPathType v)"
  proof (cases "v = ''import'' \<or> v = ''source_relative''")
    case True
    have "\<forall>w. (''paths'', w) \<in> set (parseParam parameter) \<longrightarrow> w = v"
      using map_of_SomeD [OF m] distinct_parseParam [of parameter]
      by (blast dest: eq_key_imp_eq_value)
    with True have "\<forall>w. (''paths'', w) \<in> set (parseParam parameter)
                      \<longrightarrow> w = ''import'' \<or> w = ''source_relative''"
      by blast
    from paramLoop_ok [OF this, of ?g2] obtain g3 where
      "paramLoop ?g2 (parseParam parameter) = Inr g3" by blast
    with True show ?thesis
      by (simp add: CommandLineParameters_def Let_def)
  next
    case False
    then have "paramLoop ?g2 (parseParam parameter) = Inl (UnknownPathType v)"
      using paramLoop_unknown_path [OF m] by simp
    with False show ?thesis
      by (simp add: CommandLineParameters_def Let_def)
  qed
qed

theorem paths_parameter_witness:
  "map_of (parseParam ''repo=x,paths=bogus'') ''paths'' = Some ''bogus''
   \<and> CommandLineParameters
        (New \<lparr>FileToGenerate = [''a.proto''], Parameter = ''repo=x,paths=bogus'', ProtoFile = []\<rparr>
           Map.empty)
        ''repo=x,paths=bogus'' = Inl (UnknownPathType ''bogus'')"
proof -
  have m: "map_of (parseParam ''repo=x,paths=bogus'') ''paths'' = Some ''bogus''"
    by (simp add: parseParam_def paramEntry_def)
  from paths_parameter [of _ _ _ "''repo=x,paths=bogus''"] m show ?thesis
    by simp
qed

text \<open>
  C9 as stated fails: no file, package or suffix makes the two path types give
  different output names.
\<close>

theorem paths_naming_counterexample:
  "\<not> (\<exists>E d typ. goFileName E d pathTypeImport typ \<noteq> goFileName E d pathTypeSourceRelative typ)"
  by (simp add: goFileName_def Let_def split: option.splits)

text \<open>
  C10. When the parameter string has no \<open>import_prefix\<close> key, \<open>CommandLineParameters\<close>
  leaves the import prefix equal to the value of \<open>repo\<close> followed by a slash, hence
  to \<open>/\<close> alone when \<open>repo\<close> is absent too; and in any later state that still has this
  prefix, both the model and the API import block write it in front of every name of
  the \<open>imports\<close> map.
\<close>

theorem import_prefix_default:
  assumes "''import_prefix'' \<notin> fst ` set (parseParam parameter)"
    and "CommandLineParameters (New req dsk) parameter = Inr g0"
    and "ImportPrefix g = ImportPrefix g0"
    and "writeOutput g"
  shows "ImportPrefix g0 =
           (case map_of (parseParam parameter) ''repo'' of None \<Rightarrow> ''/'' | Some r \<Rightarrow> r @ ''/'')
       \<and> Buffer (generateModelImports g imps) =
           Buffer g @ (if imps = [] then []
                       else map (\<lambda>l. indent g @ l)
                              ([''import (''] @ map (importLine (ImportPrefix g0)) imps
                               @ ['')'', [], []]))
       \<and> Buffer (generateApiImports g imps hasBinding) =
           Buffer g @ map (\<lambda>l. indent g @ l)
             ([''import ('', [dq] @ ''github.com/gin-gonic/gin'' @ [dq]]
              @ (if hasBinding then [[dq] @ ''github.com/gin-gonic/gin/binding'' @ [dq]] else [])
              @ [[], [dq] @ ParamGet g ''repo'' @ ''/router'' @ [dq]]
              @ map (importLine (ImportPrefix g0)) imps @ ['')'', [], []])"
proof (intro conjI)
  from CommandLineParameters_prefix [OF assms(1,2)]
  show "ImportPrefix g0 =
          (case map_of (parseParam parameter) ''repo'' of None \<Rightarrow> ''/'' | Some r \<Rightarrow> r @ ''/'')"
    by (simp add: ParamGet_def split: option.splits)
next
  show "Buffer (generateModelImports g imps) =
           Buffer g @ (if imps = [] then []
                       else map (\<lambda>l. indent g @ l)
                              ([''import (''] @ map (importLine (ImportPrefix g0)) imps
                               @ ['')'', [], []]))"
  proof (cases "imps = []")
    case True
    then show ?thesis by (simp add: generateModelImports_def)
  next
    case False
    with Buffer_generateModelImports [OF assms(4) False] assms(3) show ?thesis by simp
  qed
next
  from Buffer_generateApiImports [OF assms(4), of imps hasBinding] assms(3)
  show "Buffer (generateApiImports g imps hasBinding) =
           Buffer g @ map (\<lambda>l. indent g @ l)
             ([''import ('', [dq] @ ''github.com/gin-gonic/gin'' @ [dq]]
              @ (if hasBinding then [[dq] @ ''github.com/gin-gonic/gin/binding'' @ [dq]] else [])
              @ [[], [dq] @ ParamGet g ''repo'' @ ''/router'' @ [dq]]
              @ map (importLine (ImportPrefix g0)) imps @ ['')'', [], []])"
    by simp
qed

theorem import_prefix_default_witness:
  "''import_prefix'' \<notin> fst ` set (parseParam ''repo=example.com/app,path=out'')
   \<and> CommandLineParameters
        (New \<lparr>FileToGenerate = [''a.proto''], Parameter = ''repo=example.com/app,path=out'',
              ProtoFile = []\<rparr> Map.empty)
        ''repo=example.com/app,path=out''
       = Inr ((New \<lparr>FileToGenerate = [''a.proto''], Parameter = ''repo=example.com/app,path=out'',
                    ProtoFile = []\<rparr> Map.empty)
               \<lparr>Param := [(''repo'', ''example.com/app''), (''path'', ''out'')],
                ImportPrefix := ''example.com/app/''\<rparr>)
   \<and> Buffer (generateModelImports
        ((New \<lparr>FileToGenerate = [''a.proto''], Parameter = ''repo=example.com/app,path=out'',
               ProtoFile = []\<rparr> Map.empty)
          \<lparr>Param := [(''repo'', ''example.com/app''), (''path'', ''out'')],
           ImportPrefix := ''example.com/app/'', writeOutput := True\<rparr>) [''dep''])
       = [''import ('', [dq] @ ''example.com/app/dep'' @ [dq], '')'', [], []]
   \<and> Buffer (generateApiImports
        ((New \<lparr>FileToGenerate = [''a.proto''], Parameter = ''repo=example.com/app,path=out'',
               ProtoFile = []\<rparr> Map.empty)
          \<lparr>Param := [(''repo'', ''example.com/app''), (''path'', ''out'')],
           ImportPrefix := ''example.com/app/'', writeOutput := True\<rparr>) [''dep''] True)
       = [''import ('', [dq] @ ''github.com/gin-gonic/gin'' @ [dq],
          [dq] @ ''github.com/gin-gonic/gin/binding'' @ [dq], [],
          [dq] @ ''example.com/app/router'' @ [dq],
          [dq] @ ''example.com/app/dep'' @ [dq], '')'', [], []]"
proof -
  let ?P = "''repo=example.com/app,path=out''"
  let ?R = "\<lparr>FileToGenerate = [''a.proto''], Parameter = ?P, ProtoFile = []\<rparr>"
  let ?Ga = "(New ?R Map.empty)\<lparr>Param := [(''repo'', ''example.com/app''), (''path'', ''out'')],
                ImportPrefix := ''example.com/app/''\<rparr>"
  let ?Gb = "?Ga\<lparr>writeOutput := True\<rparr>"
  have pp: "parseParam ?P = [(''repo'', ''example.com/app''), (''path'', ''out'')]"
    by (simp add: parseParam_def paramEntry_def)
  have h1: "''import_prefix'' \<notin> fst ` set (parseParam ?P)"
    by (simp add: pp)
  have h2: "CommandLineParameters (New ?R Map.empty) ?P = Inr ?Ga"
    by (simp add: CommandLineParameters_def pp paramCase_def New_def ParamGet_def Let_def)
  have h3: "ImportPrefix ?Gb = ImportPrefix ?Ga" by simp
  have h4: "writeOutput ?Gb" by simp
  from import_prefix_default [OF h1 h2 h3 h4, of "[''dep'']" True] h1 h2
  show ?thesis
    by (simp add: pp importLine_def ParamGet_def New_def)
qed

lemma bindE_Inr_iff: "bindE m f = Inr y \<longleftrightarrow> (\<exists>x. m = Inr x \<and> f x = Inr y)"
  by (cases m) simp_all

lemma generateClientSignature_same:
  assumes "generateClientSignature E g reqServ servName method = Inr (sig, g')"
  shows "core_same g g' \<and> Buffer g' = Buffer g"
proof -
  let ?g1 = "RecordTypeUse E g (md_InputType method)"
  from assms obtain in0 g2 outName where
    a: "typeName E ?g1 (md_InputType method) = Inr (in0, g2)" and
    b: "typeName E g2 (md_OutputType method) = Inr (outName, g')"
    by (auto simp: generateClientSignature_def Let_def bindE_Inr_iff)
  from RecordTypeUse_same [of g E "md_InputType method"] typeName_same [OF a] typeName_same [OF b]
  show ?thesis by (auto intro: core_same_trans)
qed

lemma signatureLoop_same:
  "signatureLoop E g serviceName servName ms = Inr g' \<Longrightarrow> core_same g g'"
proof (induction ms arbitrary: g)
  case Nil
  then show ?case by simp
next
  case (Cons m ms)
  from Cons.prems obtain sig g1 where
    a: "generateClientSignature E g serviceName servName m = Inr (sig, g1)" and
    b: "signatureLoop E (P g1 [sig]) serviceName servName ms = Inr g'"
    by (auto simp: bindE_Inr_iff)
  from generateClientSignature_same [OF a] have "core_same g (P g1 [sig])"
    by (blast intro: core_same_trans core_same_P)
  with Cons.IH [OF b] show ?case by (blast intro: core_same_trans)
qed

lemma resolveInput_same:
  assumes "resolveInput E g method = Inr ((inType, needBind), g1)"
  shows "core_same g g1 \<and> Buffer g1 = Buffer g"
proof -
  from assms obtain t g2 where a: "typeName E g (md_InputType method) = Inr (t, g2)"
    and "g1 = g2"
    by (auto simp: resolveInput_def bindE_Inr_iff split: if_splits option.splits)
  with typeName_same [OF a] show ?thesis by simp
qed

lemma httpRoute_same:
  assumes "httpRoute g method mw = Inr (g', isGet, noJSON)"
  shows "core_same g g'"
  using assms
  by (auto simp: httpRoute_def Let_def split: option.splits HttpPattern.splits
           intro: core_same_trans core_same_P)

lemma generateClientMethod_same:
  assumes "generateClientMethod E g reqServ servName method ca = Inr (nb, g')"
  shows "core_same g g'"
proof -
  from assms obtain inType g1 outType g2 g3 isGet noJSON where
    a: "resolveInput E g method = Inr ((inType, nb), g1)" and
    b: "typeName E g1 (md_OutputType method) = Inr (outType, g2)" and
    c: "httpRoute g2 method (middlewaresOf ca) = Inr (g3, isGet, noJSON)" and
    d: "g' = Pl (Pl g3 (bindLines E nb (bindCheckOf E ca) isGet (bindingOf ca) (gecOf E)
                        inType (outTypeOf reqServ outType)))
               (handlerLines noJSON (methNameOf E method) (gecOf E))"
    by (auto simp: generateClientMethod_def Let_def bindE_Inr_iff)
  from resolveInput_same [OF a] typeName_same [OF b] httpRoute_same [OF c]
  have "core_same g g3" by (auto intro: core_same_trans)
  then show ?thesis unfolding d
    by (blast intro: core_same_trans core_same_Pl)
qed

lemma methodLoop_same:
  "methodLoop E g path serviceName servName i hb ms = Inr (hb', g') \<Longrightarrow> core_same g g'"
proof (induction ms arbitrary: g i hb)
  case Nil
  then show ?case by simp
next
  case (Cons m ms)
  from Cons.prems obtain cs ok binding g2 where
    a: "makeComments g (path @ '',2,'' @ ItoaNat i) = Inr (cs, ok)" and
    b: "generateClientMethod E (if ok \<and> writeOutput g then P g [cs] else g) serviceName servName m
          (if ok then (let res = regAnnotation_FindStringSubmatch E cs
                       in if length res > 1 then parseAnnotations (res ! 1) else Map.empty)
           else Map.empty) = Inr (binding, g2)" and
    c: "methodLoop E g2 path serviceName servName (Suc i)
          (if \<not> hb \<and> binding then True else hb) ms = Inr (hb', g')"
    by (auto simp: bindE_Inr_iff Let_def)
  have "core_same g (if ok \<and> writeOutput g then P g [cs] else g)" by simp
  with generateClientMethod_same [OF b] have "core_same g g2" by (blast intro: core_same_trans)
  with Cons.IH [OF c] show ?case by (blast intro: core_same_trans)
qed

lemma generateHandler_absent:
  "disk g (ParamGet g ''path'' @ ''/handler.json'') = None
   \<Longrightarrow> generateHandler E g k v = Inl HandlerFileNotFound"
  by (simp add: generateHandler_def)

lemma generateService_Inr:
  assumes "generateService E g file service index = Inr (hb, g')"
  shows "\<exists>g5 fname. core_same g g5
           \<and> goFileName E (allFiles g ! file) (pathType g) ''api'' = Inr fname
           \<and> generateHandler E g5 (filepath_Dir E fname @ ''/'' @ CamelCase E (sv_Name service))
                (filepath_Dir E fname) = Inr g'"
proof -
  let ?servName = "CamelCase E (sv_Name service)"
  let ?pkg = "GetPackage (fd_proto (allFiles g ! file))"
  let ?serviceName = "if ?pkg \<noteq> [] then ?pkg else strings_ToLower E (sv_Name service)"
  let ?g1 = "Pl g [[], [], ''type '' @ ?servName @ ''Handler interface {'']"
  from assms obtain g2 g4 fname where
    a: "signatureLoop E ?g1 ?serviceName ?servName (sv_Method service) = Inr g2" and
    b: "methodLoop E (Pl g2 [''}'', [], ''func Register'' @ ?servName
                                 @ ''Handler(g *gin.Engine, h '' @ ?servName @ ''Handler) {''])
          (''6,'' @ ItoaNat index) ?serviceName ?servName 0 False (sv_Method service)
        = Inr (hb, g4)" and
    c: "goFileName E (allFiles (Pl g4 [''}'', []]) ! file) (pathType (Pl g4 [''}'', []])) ''api''
        = Inr fname" and
    d: "generateHandler E (Pl g4 [''}'', []]) (filepath_Dir E fname @ ''/'' @ ?servName)
          (filepath_Dir E fname) = Inr g'"
    by (auto simp: generateService_def Let_def bindE_Inr_iff)
  have "core_same g ?g1" by (rule core_same_Pl)
  with signatureLoop_same [OF a] have "core_same g g2" by (blast intro: core_same_trans)
  then have "core_same g (Pl g2 [''}'', [], ''func Register'' @ ?servName
                                 @ ''Handler(g *gin.Engine, h '' @ ?servName @ ''Handler) {''])"
    by (blast intro: core_same_trans core_same_Pl)
  with methodLoop_same [OF b] have "core_same g g4" by (blast intro: core_same_trans)
  then have s: "core_same g (Pl g4 [''}'', []])"
    by (blast intro: core_same_trans core_same_Pl)
  then have "allFiles (Pl g4 [''}'', []]) = allFiles g" "pathType (Pl g4 [''}'', []]) = pathType g"
    by (simp_all add: core_same_def)
  with c have "goFileName E (allFiles g ! file) (pathType g) ''api'' = Inr fname" by simp
  with s d show ?thesis by blast
qed

lemma typeName_local:
  assumes "typeNameToObject g str = Some obj"
    and "GetName (fd_proto (allFiles g ! Object_File obj)) = outputImportPath g"
  shows "typeName E g str = Inr (CamelCaseSlice E (Object_TypeName E g obj), g)"
  using assms
  by (simp add: typeName_def RecordTypeUse_def ObjectNamed_def TypeName_def
        DefaultPackageName_def Let_def)

lemma Object_TypeName_cong:
  "allFiles g' = allFiles g \<Longrightarrow> Object_TypeName E g' obj = Object_TypeName E g obj"
  by (cases obj) (simp_all add: Object_TypeName_def)

lemma typeName_foreign:
  assumes o: "typeNameToObject g str = Some obj"
    and f: "GetName (fd_proto (allFiles g ! Object_File obj)) = ip"
    and n: "ip \<noteq> outputImportPath g"
    and c: "packageNames g ip = None"
    and t: "\<not> nameTaken (usedPackageNames g) (cleanPackageName E (baseName E ip))"
  shows "typeName E g str =
           Inr (cleanPackageName E (baseName E ip) @ ''.''
                  @ CamelCaseSlice E (Object_TypeName E g obj),
                g\<lparr>addedImports := insert ip (addedImports g),
                  packageNames := (packageNames g)(ip \<mapsto> cleanPackageName E (baseName E ip)),
                  usedPackageNames := cleanPackageName E (baseName E ip) # usedPackageNames g,
                  usedPackages := insert ip (usedPackages g)\<rparr>)"
proof -
  let ?orig = "cleanPackageName E (baseName E ip)"
  have l: "pkgNameLoop (usedPackageNames g) ?orig 1 ?orig = ?orig"
    using t by (simp add: pkgNameLoop.simps)
  let ?g1 = "g\<lparr>addedImports := insert ip (addedImports g),
                  packageNames := (packageNames g)(ip \<mapsto> ?orig),
                  usedPackageNames := ?orig # usedPackageNames g,
                  usedPackages := insert ip (usedPackages g)\<rparr>"
  have r: "RecordTypeUse E g str = ?g1"
    using o f n c l
    by (simp add: RecordTypeUse_def AddImport_def GoPackageName_def Let_def)
  have "TypeName E ?g1 obj = (?orig @ ''.'' @ CamelCaseSlice E (Object_TypeName E ?g1 obj), ?g1)"
    using f n by (simp add: TypeName_def DefaultPackageName_def GoPackageName_def Let_def)
  moreover have "Object_TypeName E ?g1 obj = Object_TypeName E g obj"
    by (rule Object_TypeName_cong) simp
  moreover have "ObjectNamed ?g1 str = Inr obj"
    using o by (simp add: ObjectNamed_def)
  ultimately show ?thesis
    using r by (simp add: typeName_def Let_def)
qed

named_theorems sample_defs

lemmas [sample_defs] =
  sample_api_def sample_user_fd_def sample_common_fd_def sample_user_def sample_common_def
  sample_env_def GetName_def Object_File_def Object_TypeName_def

lemma httpRoute_eq:
  assumes "md_Options method = Some options" and "E_Http options = Some opts"
  shows "httpRoute g method mw =
           Inr (Pl g (routeLines (Pattern opts) mw), isGetPattern (Pattern opts),
                ResponseBody opts \<noteq> [] \<and> ResponseBody opts \<noteq> ''json'')"
  using assms
  by (cases "Pattern opts")
     (simp_all add: httpRoute_def routeLines_def isGetPattern_def Pl_def Let_def)

lemma httpRoute_missing:
  "md_Options method = None \<or> (\<exists>options. md_Options method = Some options \<and> E_Http options = None)
   \<Longrightarrow> httpRoute g method mw = Inl HttpOptionNotFound"
  by (auto simp: httpRoute_def)

lemma Pl_append: "Pl (Pl g xs) ys = Pl g (xs @ ys)"
  by (simp add: Pl_def)

lemma needBindLoop_find:
  "needBindLoop E inType descs =
     (case find (\<lambda>d. \<not> m_MapEntry (d_proto d) \<and> CamelCaseSlice E (d_typename d) = inType) descs of
        None \<Rightarrow> True
      | Some d \<Rightarrow> m_Field (d_proto d) \<noteq> [])"
  by (induction descs) auto

lemma resolveInput_eq:
  assumes "typeName E g (md_InputType method) = Inr (inType, g1)"
    and "g_file g = Some fi"
  shows "resolveInput E g method =
           Inr ((renderedInput inType,
                 inType \<noteq> ''types.Empty'' \<and> inType \<noteq> ''empty.Empty''
                 \<and> needBindLoop E inType (fd_desc (allFiles g ! fi))), g1)"
proof -
  from typeName_same [OF assms(1)] assms(2)
  have "g_file g1 = Some fi" "allFiles g1 = allFiles g" by (simp_all add: core_same_def)
  with assms(1) show ?thesis
    by (simp add: resolveInput_def renderedInput_def)
qed

lemma generateClientMethod_eq:
  assumes ti: "typeName E g (md_InputType method) = Inr (inType, g1)"
    and fi: "g_file g = Some fi"
    and to: "typeName E g1 (md_OutputType method) = Inr (outType, g2)"
    and op: "md_Options method = Some options" "E_Http options = Some opts"
  shows "generateClientMethod E g reqServ servName method ca =
           Inr (inType \<noteq> ''types.Empty'' \<and> inType \<noteq> ''empty.Empty''
                  \<and> needBindLoop E inType (fd_desc (allFiles g ! fi)),
                Pl g2 (routeLines (Pattern opts) (middlewaresOf ca)
                       @ bindLines E (inType \<noteq> ''types.Empty'' \<and> inType \<noteq> ''empty.Empty''
                                       \<and> needBindLoop E inType (fd_desc (allFiles g ! fi)))
                           (bindCheckOf E ca) (isGetPattern (Pattern opts)) (bindingOf ca)
                           (gecOf E) (renderedInput inType) (outTypeOf reqServ outType)
                       @ handlerLines (ResponseBody opts \<noteq> [] \<and> ResponseBody opts \<noteq> ''json'')
                           (methNameOf E method) (gecOf E)))"
  using resolveInput_eq [OF ti fi] to httpRoute_eq [OF op]
  by (simp add: generateClientMethod_def Let_def Pl_append)

lemma generateClientMethod_cases:
  assumes "generateClientMethod E g reqServ servName method ca = Inr (nb, g')"
  obtains inType g1 outType g2 options opts where
    "typeName E g (md_InputType method) = Inr (inType, g1)"
    "typeName E g1 (md_OutputType method) = Inr (outType, g2)"
    "md_Options method = Some options" "E_Http options = Some opts"
proof -
  from assms obtain inT g1 outType g2 g3 isGet noJSON where
    a: "resolveInput E g method = Inr ((inT, nb), g1)" and
    b: "typeName E g1 (md_OutputType method) = Inr (outType, g2)" and
    c: "httpRoute g2 method (middlewaresOf ca) = Inr (g3, isGet, noJSON)"
    by (auto simp: generateClientMethod_def Let_def bindE_Inr_iff)
  from a obtain inType where t: "typeName E g (md_InputType method) = Inr (inType, g1)"
    by (auto simp: resolveInput_def bindE_Inr_iff split: if_splits option.splits)
  from c obtain options opts where "md_Options method = Some options" "E_Http options = Some opts"
    by (auto simp: httpRoute_def split: option.splits)
  with t b that show ?thesis by blast
qed

lemma generateClientMethod_needs_file:
  assumes "generateClientMethod E g reqServ servName method ca = Inr (True, g')"
  shows "\<exists>fi. g_file g = Some fi"
proof -
  from assms obtain inT g1 where a: "resolveInput E g method = Inr ((inT, True), g1)"
    by (auto simp: generateClientMethod_def Let_def bindE_Inr_iff)
  then obtain inType g2 where t: "typeName E g (md_InputType method) = Inr (inType, g2)"
    and "g_file g2 \<noteq> None"
    by (auto simp: resolveInput_def bindE_Inr_iff split: if_splits option.splits)
  with typeName_same [OF t] show ?thesis by (auto simp: core_same_def)
qed

lemma bindLines_get:
  "bindLines E nb bc True b gec i out = bindLines E nb bc True b' gec i out"
  by (simp add: bindLines_def split: prod.splits)

lemma bindLines_eq:
  "bindLines E nb bc isGet b gec i out =
     (if nb then [''input, output := '' @ i @ ''{}, '' @ out @ ''{}'', [],
                  bindStatement E bc isGet b]
                 @ (if bc then [''router.Error(ctx, '' @ gec @ '', err)'', ''return'', ''}'']
                    else [])
                 @ [[]]
      else [''input := '' @ i @ ''{}'', ''var output '' @ out, []])"
  by (simp add: bindLines_def bindStatement_def bindCall_def split: prod.splits)

lemma directives_binding_update [simp]:
  "middlewaresOf (ca(''binding'' := x)) = middlewaresOf ca"
  "bindCheckOf E (ca(''binding'' := x)) = bindCheckOf E ca"
  by (simp_all add: middlewaresOf_def bindCheckOf_def)

text \<open>
  C5. A method whose HTTP annotation is a GET pattern and whose input needs binding
  gets a closure that binds with \<open>ctx.ShouldBindQuery\<close>, checked or best effort
  according to \<open>bindcheck\<close>; the \<open>binding\<close> directive has no influence: whatever
  its value, and also when it is absent, the method is generated identically.
\<close>

theorem get_binds_from_query:
  assumes r: "generateClientMethod E g reqServ servName method ca = Inr (True, g')"
    and op: "md_Options method = Some options" "E_Http options = Some opts"
            "Pattern opts = HttpRule_Get url"
    and w: "writeOutput g"
  shows "(\<exists>inType outType.
            Buffer g' = Buffer g @ map (\<lambda>l. indent g @ l)
              ([routeHeader ''GET'' url (middlewaresOf ca),
                ''input, output := '' @ inType @ ''{}, '' @ outType @ ''{}'', [],
                (if bindCheckOf E ca then ''if err := ctx.ShouldBindQuery(&input); err != nil {''
                 else ''_ = ctx.ShouldBindQuery(&input)'')]
               @ (if bindCheckOf E ca
                  then [''router.Error(ctx, '' @ gecOf E @ '', err)'', ''return'', ''}'']
                  else [])
               @ [[]]
               @ handlerLines (ResponseBody opts \<noteq> [] \<and> ResponseBody opts \<noteq> ''json'')
                   (methNameOf E method) (gecOf E)))
       \<and> generateClientMethod E g reqServ servName method (ca(''binding'' \<mapsto> b)) = Inr (True, g')
       \<and> generateClientMethod E g reqServ servName method (ca(''binding'' := None))
           = Inr (True, g')"
proof -
  from r obtain inType g1 outType g2 where
    ti: "typeName E g (md_InputType method) = Inr (inType, g1)" and
    to: "typeName E g1 (md_OutputType method) = Inr (outType, g2)"
    by (rule generateClientMethod_cases) blast
  from generateClientMethod_needs_file [OF r] obtain fi where fi: "g_file g = Some fi" by blast
  let ?nb = "inType \<noteq> ''types.Empty'' \<and> inType \<noteq> ''empty.Empty''
             \<and> needBindLoop E inType (fd_desc (allFiles g ! fi))"
  note eq = generateClientMethod_eq [OF ti fi to op(1,2), of reqServ servName]
  from r eq [of ca] have nb: "?nb" by simp
  from nb have ri: "renderedInput inType = inType" by (simp add: renderedInput_def)
  let ?ls = "\<lambda>c. routeLines (Pattern opts) (middlewaresOf c)
                 @ bindLines E True (bindCheckOf E c) True (bindingOf c) (gecOf E) inType
                     (outTypeOf reqServ outType)
                 @ handlerLines (ResponseBody opts \<noteq> [] \<and> ResponseBody opts \<noteq> ''json'')
                     (methNameOf E method) (gecOf E)"
  have g: "generateClientMethod E g reqServ servName method c = Inr (True, Pl g2 (?ls c))" for c
    using eq [of c] nb ri op(3) by (simp add: isGetPattern_def)
  from r g [of ca] have g': "g' = Pl g2 (?ls ca)" by simp
  have same: "?ls (ca(''binding'' := x)) = ?ls ca" for x
    using bindLines_get [of E True "bindCheckOf E ca" "bindingOf (ca(''binding'' := x))"
            "gecOf E" inType "outTypeOf reqServ outType" "bindingOf ca"]
    by simp
  from typeName_same [OF ti] typeName_same [OF to]
  have c: "core_same g g2" and bf: "Buffer g2 = Buffer g"
    by (auto intro: core_same_trans)
  from c w have w2: "writeOutput g2" and i2: "indent g2 = indent g"
    by (simp_all add: core_same_def)
  have "Buffer g' = Buffer g @ map (\<lambda>l. indent g @ l) (?ls ca)"
    unfolding g' using Buffer_Pl [OF w2, of "?ls ca"] bf i2 by simp
  then have 1: "\<exists>inType outType.
            Buffer g' = Buffer g @ map (\<lambda>l. indent g @ l)
              ([routeHeader ''GET'' url (middlewaresOf ca),
                ''input, output := '' @ inType @ ''{}, '' @ outType @ ''{}'', [],
                (if bindCheckOf E ca then ''if err := ctx.ShouldBindQuery(&input); err != nil {''
                 else ''_ = ctx.ShouldBindQuery(&input)'')]
               @ (if bindCheckOf E ca
                  then [''router.Error(ctx, '' @ gecOf E @ '', err)'', ''return'', ''}'']
                  else [])
               @ [[]]
               @ handlerLines (ResponseBody opts \<noteq> [] \<and> ResponseBody opts \<noteq> ''json'')
                   (methNameOf E method) (gecOf E))"
    using op(3)
    by (intro exI [of _ inType] exI [of _ "outTypeOf reqServ outType"])
       (simp add: routeLines_def bindLines_eq bindStatement_def bindCall_def)
  have 2: "generateClientMethod E g reqServ servName method (ca(''binding'' := x)) = Inr (True, g')"
    for x
    using g [of "ca(''binding'' := x)"] same [of x] g' by simp
  from 1 2 [of "Some b"] 2 [of None] show ?thesis by blast
qed

text \<open>
  How the code decides about binding. The closure goes without request binding
  exactly when the input type is printed as \<open>types.Empty\<close> or \<open>empty.Empty\<close>, or
  when the first message of the file being generated that is not a map entry and
  whose Go name is the printed input type has no fields. That message need not be the
  input message of the method.
\<close>

theorem bind_skipped_exactly_when:
  assumes r: "generateClientMethod E g reqServ servName method ca = Inr (nb, g')"
    and t: "typeName E g (md_InputType method) = Inr (inType, g1)"
    and f: "g_file g = Some fi"
    and op: "md_Options method = Some options" "E_Http options = Some opts"
    and w: "writeOutput g"
  shows "(\<not> nb) =
           (inType = ''types.Empty'' \<or> inType = ''empty.Empty''
            \<or> (\<exists>d. find (\<lambda>d. \<not> m_MapEntry (d_proto d) \<and> CamelCaseSlice E (d_typename d) = inType)
                      (fd_desc (allFiles g ! fi)) = Some d
                    \<and> m_Field (d_proto d) = []))
       \<and> (\<exists>outType.
            Buffer g' = Buffer g @ map (\<lambda>l. indent g @ l)
              (routeLines (Pattern opts) (middlewaresOf ca)
               @ (if nb
                  then [''input, output := '' @ inType @ ''{}, '' @ outType @ ''{}'', [],
                        bindStatement E (bindCheckOf E ca) (isGetPattern (Pattern opts))
                          (bindingOf ca)]
                       @ (if bindCheckOf E ca
                          then [''router.Error(ctx, '' @ gecOf E @ '', err)'', ''return'', ''}'']
                          else [])
                       @ [[]]
                  else [''input := '' @ renderedInput inType @ ''{}'',
                        ''var output '' @ outType, []])
               @ handlerLines (ResponseBody opts \<noteq> [] \<and> ResponseBody opts \<noteq> ''json'')
                   (methNameOf E method) (gecOf E)))"
proof -
  from r obtain inType' g1' outType g2 where
    ti': "typeName E g (md_InputType method) = Inr (inType', g1')" and
    to': "typeName E g1' (md_OutputType method) = Inr (outType, g2)"
    by (rule generateClientMethod_cases) blast
  from ti' t have "inType' = inType" "g1' = g1" by simp_all
  with to' have to: "typeName E g1 (md_OutputType method) = Inr (outType, g2)" by simp
  let ?nb = "inType \<noteq> ''types.Empty'' \<and> inType \<noteq> ''empty.Empty''
             \<and> needBindLoop E inType (fd_desc (allFiles g ! fi))"
  let ?ls = "routeLines (Pattern opts) (middlewaresOf ca)
             @ bindLines E ?nb (bindCheckOf E ca) (isGetPattern (Pattern opts)) (bindingOf ca)
                 (gecOf E) (renderedInput inType) (outTypeOf reqServ outType)
             @ handlerLines (ResponseBody opts \<noteq> [] \<and> ResponseBody opts \<noteq> ''json'')
                 (methNameOf E method) (gecOf E)"
  from trans [OF r [symmetric] generateClientMethod_eq [OF t f to op, of reqServ servName ca]]
  have "nb = ?nb \<and> g' = Pl g2 ?ls" by (simp only: sum.inject prod.inject)
  then have nb: "nb = ?nb" and g': "g' = Pl g2 ?ls" by blast+
  have 1: "(\<not> nb) =
           (inType = ''types.Empty'' \<or> inType = ''empty.Empty''
            \<or> (\<exists>d. find (\<lambda>d. \<not> m_MapEntry (d_proto d) \<and> CamelCaseSlice E (d_typename d) = inType)
                      (fd_desc (allFiles g ! fi)) = Some d
                    \<and> m_Field (d_proto d) = []))"
    unfolding nb by (auto simp: needBindLoop_find split: option.splits)
  from typeName_same [OF t] typeName_same [OF to]
  have c: "core_same g g2" and bf: "Buffer g2 = Buffer g"
    by (auto intro: core_same_trans)
  from c w have w2: "writeOutput g2" and i2: "indent g2 = indent g"
    by (simp_all add: core_same_def)
  have b: "Buffer g' = Buffer g @ map (\<lambda>l. indent g @ l) ?ls"
    unfolding g' using Buffer_Pl [OF w2, of ?ls] bf i2 by simp
  have ri: "nb \<Longrightarrow> renderedInput inType = inType"
    unfolding nb by (simp add: renderedInput_def)
  have 2: "\<exists>outType.
            Buffer g' = Buffer g @ map (\<lambda>l. indent g @ l)
              (routeLines (Pattern opts) (middlewaresOf ca)
               @ (if nb
                  then [''input, output := '' @ inType @ ''{}, '' @ outType @ ''{}'', [],
                        bindStatement E (bindCheckOf E ca) (isGetPattern (Pattern opts))
                          (bindingOf ca)]
                       @ (if bindCheckOf E ca
                          then [''router.Error(ctx, '' @ gecOf E @ '', err)'', ''return'', ''}'']
                          else [])
                       @ [[]]
                  else [''input := '' @ renderedInput inType @ ''{}'',
                        ''var output '' @ outType, []])
               @ handlerLines (ResponseBody opts \<noteq> [] \<and> ResponseBody opts \<noteq> ''json'')
                   (methNameOf E method) (gecOf E))"
  proof (cases nb)
    case True
    with b nb ri show ?thesis
      by (intro exI [of _ "outTypeOf reqServ outType"]) (simp add: bindLines_eq)
  next
    case False
    with b nb show ?thesis
      by (intro exI [of _ "outTypeOf reqServ outType"]) (simp add: bindLines_eq)
  qed
  from 1 2 show ?thesis by blast
qed

subsection \<open>The sample run\<close>

lemmas camel_defs =
  sampleCamelCase_def isASCIILower_def isASCIIUpper_def isASCIIDigit_def asciiUpper_def
  asciiLower_def

lemma sample_state [simp]:
  "g_file (sample_api d) = Some 1"
  "writeOutput (sample_api d)"
  "Buffer (sample_api d) = []"
  "indent (sample_api d) = []"
  "allFiles (sample_api d) ! Suc 0 = sample_user_fd"
  "allFiles (sample_api d) ! 0 = sample_common_fd"
  "outputImportPath (sample_api d) = ''user/profile.proto''"
  by (simp_all add: sample_api_def)

lemma sample_typeName_Profile:
  "typeName sample_env (sample_api d) ''.user.Profile'' = Inr (''Profile'', sample_api d)"
proof -
  have "typeName sample_env (sample_api d) ''.user.Profile''
        = Inr (CamelCaseSlice sample_env (Object_TypeName sample_env (sample_api d) (DescObj 1 0)),
               sample_api d)"
    by (rule typeName_local) (simp_all add: sample_defs)
  moreover have "CamelCaseSlice sample_env (Object_TypeName sample_env (sample_api d) (DescObj 1 0))
                 = ''Profile''"
    by (simp add: sample_defs camel_defs)
  ultimately show ?thesis by simp
qed

lemma sample_typeName_Ping:
  "typeName sample_env (sample_api d) ''.user.Ping'' = Inr (''Ping'', sample_api d)"
proof -
  have "typeName sample_env (sample_api d) ''.user.Ping''
        = Inr (CamelCaseSlice sample_env (Object_TypeName sample_env (sample_api d) (DescObj 1 1)),
               sample_api d)"
    by (rule typeName_local) (simp_all add: sample_defs)
  moreover have "CamelCaseSlice sample_env (Object_TypeName sample_env (sample_api d) (DescObj 1 1))
                 = ''Ping''"
    by (simp add: sample_defs camel_defs)
  ultimately show ?thesis by simp
qed

lemma sample_needBind:
  "needBindLoop sample_env ''Profile'' (fd_desc sample_user_fd) = True"
  "needBindLoop sample_env ''Ping'' (fd_desc sample_user_fd) = False"
  "needBindLoop sample_env ''types.Void'' (fd_desc sample_user_fd) = True"
  by (simp_all add: sample_user_fd_def sample_env_def camel_defs)

lemma directives_empty [simp]:
  "middlewaresOf Map.empty = []"
  "bindCheckOf E Map.empty = True"
  "bindingOf Map.empty = ''json''"
  by (simp_all add: middlewaresOf_def bindCheckOf_def bindingOf_def)

lemma sample_gec [simp]: "gecOf sample_env = ''500''"
  by (simp add: gecOf_def sample_env_def)

lemma sample_load_eq:
  "sample_run sample_load [''binding'' \<mapsto> ''form''] =
     Inr (True, Pl (sample_api sample_disk) sample_load_lines)"
proof -
  have ti: "typeName sample_env (sample_api sample_disk) (md_InputType sample_load)
            = Inr (''Profile'', sample_api sample_disk)"
    by (simp add: sample_load_def sample_method_def sample_typeName_Profile)
  have to: "typeName sample_env (sample_api sample_disk) (md_OutputType sample_load)
            = Inr (''Profile'', sample_api sample_disk)"
    by (simp add: sample_load_def sample_method_def sample_typeName_Profile)
  have op: "md_Options sample_load
              = Some \<lparr>E_Http = Some \<lparr>Pattern = HttpRule_Get ''/v1/profile'', ResponseBody = []\<rparr>\<rparr>"
    by (simp add: sample_load_def sample_method_def)
  have op2: "E_Http \<lparr>E_Http = Some \<lparr>Pattern = HttpRule_Get ''/v1/profile'', ResponseBody = []\<rparr>\<rparr>
             = Some \<lparr>Pattern = HttpRule_Get ''/v1/profile'', ResponseBody = []\<rparr>"
    by simp
  have f: "g_file (sample_api sample_disk) = Some 1" by simp
  note e = generateClientMethod_eq [where reqServ = "''user''" and servName = "''ProfileService''"
             and ca = "[''binding'' \<mapsto> ''form'']", OF ti f to op op2]
  have nb: "(''Profile'' \<noteq> ''types.Empty'' \<and> ''Profile'' \<noteq> ''empty.Empty''
             \<and> needBindLoop sample_env ''Profile'' (fd_desc (allFiles (sample_api sample_disk) ! 1)))
            = True"
    by (simp add: sample_load_lines_def sample_needBind)
  have m: "methNameOf sample_env sample_load = ''Load''"
    by (simp add: methNameOf_def reservedClientName_def sample_env_def camel_defs
          sample_load_def sample_method_def)
  have b: "bindingMethod sample_env ''form'' = (''ShouldBindWith'', ''Form'')"
    by (simp add: bindingMethod_def sample_env_def asciiLower_def)
  have c: "bindingOf [''binding'' \<mapsto> ''form''] = ''form''"
    by (simp add: bindingOf_def)
  show ?thesis
    unfolding sample_run_def
    unfolding e
    by (simp add: sample_load_lines_def sample_needBind m b c routeLines_def routeHeader_def bindLines_def handlerLines_def
          outTypeOf_def go_HasPrefix_def isGetPattern_def renderedInput_def)
qed

lemma sample_options:
  "md_Options (sample_method n i out pat) = Some \<lparr>E_Http = Some \<lparr>Pattern = pat, ResponseBody = []\<rparr>\<rparr>"
  "E_Http \<lparr>E_Http = Some \<lparr>Pattern = pat, ResponseBody = []\<rparr>\<rparr>
     = Some \<lparr>Pattern = pat, ResponseBody = []\<rparr>"
  "md_InputType (sample_method n i out pat) = i"
  "md_OutputType (sample_method n i out pat) = out"
  by (simp_all add: sample_method_def)

lemma sample_methName:
  "methNameOf sample_env (sample_method ''Replace'' i out pat) = ''Replace''"
  "methNameOf sample_env (sample_method ''Check'' i out pat) = ''Check''"
  "methNameOf sample_env (sample_method ''Touch'' i out pat) = ''Touch''"
  by (simp_all add: methNameOf_def reservedClientName_def sample_env_def camel_defs
        sample_method_def)

lemma sample_json [simp]:
  "bindingMethod sample_env ''json'' = (''ShouldBindBodyWith'', ''JSON'')"
  by (simp add: bindingMethod_def sample_env_def asciiLower_def)

lemma sample_replace_eq:
  "sample_run sample_replace Map.empty =
     Inr (True, Pl (sample_api sample_disk) sample_replace_lines)"
proof -
  have ti: "typeName sample_env (sample_api sample_disk) (md_InputType sample_replace)
            = Inr (''Profile'', sample_api sample_disk)"
    by (simp add: sample_replace_def sample_options sample_typeName_Profile)
  have to: "typeName sample_env (sample_api sample_disk) (md_OutputType sample_replace)
            = Inr (''Ping'', sample_api sample_disk)"
    by (simp add: sample_replace_def sample_options sample_typeName_Ping)
  have f: "g_file (sample_api sample_disk) = Some 1" by simp
  have op: "md_Options sample_replace = Some \<lparr>E_Http = Some \<lparr>Pattern = HttpRule_Put ''/v1/profile'', ResponseBody = []\<rparr>\<rparr>"
    by (simp add: sample_replace_def sample_options)
  note e = generateClientMethod_eq [where reqServ = "''user''" and servName = "''ProfileService''"
             and ca = Map.empty, OF ti f to op sample_options(2)]
  show ?thesis
    unfolding sample_run_def e
    by (simp add: sample_replace_lines_def sample_needBind sample_methName sample_replace_def routeLines_def
          bindLines_def handlerLines_def outTypeOf_def go_HasPrefix_def isGetPattern_def
          renderedInput_def)
qed

lemma sample_touch_eq:
  "sample_run sample_touch Map.empty =
     Inr (False, Pl (sample_api sample_disk) sample_touch_lines)"
proof -
  have ti: "typeName sample_env (sample_api sample_disk) (md_InputType sample_touch)
            = Inr (''Ping'', sample_api sample_disk)"
    by (simp add: sample_touch_def sample_options sample_typeName_Ping)
  have to: "typeName sample_env (sample_api sample_disk) (md_OutputType sample_touch)
            = Inr (''Ping'', sample_api sample_disk)"
    by (simp add: sample_touch_def sample_options sample_typeName_Ping)
  have f: "g_file (sample_api sample_disk) = Some 1" by simp
  have op: "md_Options sample_touch = Some \<lparr>E_Http = Some \<lparr>Pattern = HttpRule_Post ''/v1/ping'', ResponseBody = []\<rparr>\<rparr>"
    by (simp add: sample_touch_def sample_options)
  note e = generateClientMethod_eq [where reqServ = "''user''" and servName = "''ProfileService''"
             and ca = Map.empty, OF ti f to op sample_options(2)]
  show ?thesis
    unfolding sample_run_def e
    by (simp add: sample_touch_lines_def sample_needBind sample_methName sample_touch_def routeLines_def
          routeHeader_def bindLines_def handlerLines_def outTypeOf_def go_HasPrefix_def
          isGetPattern_def renderedInput_def)
qed

lemma sample_typeName_Void:
  "typeName sample_env (sample_api sample_disk) ''.common.Void''
     = Inr (''types.Void'', sample_after_void)"
proof -
  have o: "typeNameToObject (sample_api sample_disk) ''.common.Void'' = Some (DescObj 0 0)"
    by (simp add: sample_api_def)
  have f: "GetName (fd_proto (allFiles (sample_api sample_disk) ! Object_File (DescObj 0 0)))
           = ''common/types.proto''"
    by (simp add: sample_defs)
  have n: "''common/types.proto'' \<noteq> outputImportPath (sample_api sample_disk)" by simp
  have c: "packageNames (sample_api sample_disk) ''common/types.proto'' = None"
    by (simp add: sample_api_def)
  have b: "cleanPackageName sample_env (baseName sample_env ''common/types.proto'') = ''types''"
    by (simp add: sample_env_def sampleBaseName_def sampleCleanPackageName_def isGoKeyword_def
          camel_defs Let_def)
  have t: "\<not> nameTaken (usedPackageNames (sample_api sample_disk))
                (cleanPackageName sample_env (baseName sample_env ''common/types.proto''))"
    unfolding b by (simp add: sample_api_def nameTaken_def isGoPredeclaredIdentifier_def)
  have tn: "CamelCaseSlice sample_env (Object_TypeName sample_env (sample_api sample_disk) (DescObj 0 0))
            = ''Void''"
    by (simp add: sample_defs camel_defs)
  show ?thesis
    unfolding typeName_foreign [OF o f n c t] b tn
    by (simp add: sample_after_void_def sample_api_def)
qed

lemma sample_after_void_state [simp]:
  "g_file sample_after_void = Some 1"
  "writeOutput sample_after_void"
  "Buffer sample_after_void = []"
  "indent sample_after_void = []"
  "allFiles sample_after_void = allFiles (sample_api sample_disk)"
  "outputImportPath sample_after_void = ''user/profile.proto''"
  "typeNameToObject sample_after_void = typeNameToObject (sample_api sample_disk)"
  by (simp_all add: sample_after_void_def)

lemma sample_typeName_Ping_after:
  "typeName sample_env sample_after_void ''.user.Ping'' = Inr (''Ping'', sample_after_void)"
proof -
  have "typeName sample_env sample_after_void ''.user.Ping''
        = Inr (CamelCaseSlice sample_env (Object_TypeName sample_env sample_after_void (DescObj 1 1)),
               sample_after_void)"
    by (rule typeName_local) (simp_all add: sample_defs)
  moreover have "CamelCaseSlice sample_env (Object_TypeName sample_env sample_after_void (DescObj 1 1))
                 = ''Ping''"
    by (simp add: Object_TypeName_def sample_defs camel_defs)
  ultimately show ?thesis by simp
qed

lemma sample_check_eq:
  "sample_run sample_check Map.empty = Inr (True, Pl sample_after_void sample_check_lines)"
proof -
  have ti: "typeName sample_env (sample_api sample_disk) (md_InputType sample_check)
            = Inr (''types.Void'', sample_after_void)"
    by (simp add: sample_check_def sample_options sample_typeName_Void)
  have to: "typeName sample_env sample_after_void (md_OutputType sample_check)
            = Inr (''Ping'', sample_after_void)"
    by (simp add: sample_check_def sample_options sample_typeName_Ping_after)
  have f: "g_file (sample_api sample_disk) = Some 1" by simp
  have op: "md_Options sample_check
              = Some \<lparr>E_Http = Some \<lparr>Pattern = HttpRule_Get ''/v1/check'', ResponseBody = []\<rparr>\<rparr>"
    by (simp add: sample_check_def sample_options)
  note e = generateClientMethod_eq [where reqServ = "''user''" and servName = "''ProfileService''"
             and ca = Map.empty, OF ti f to op sample_options(2)]
  show ?thesis
    unfolding sample_run_def e
    by (simp add: sample_check_lines_def sample_needBind sample_methName sample_check_def routeLines_def
          routeHeader_def bindLines_def handlerLines_def outTypeOf_def go_HasPrefix_def
          isGetPattern_def renderedInput_def)
qed

lemma Buffer_Pl_sample [simp]:
  "Buffer (Pl (sample_api d) ls) = ls" "Buffer (Pl sample_after_void ls) = ls"
  by (simp_all add: Buffer_Pl)

text \<open>
  C1. The code does not do what the claim says for a method whose annotation carries
  a pattern other than GET or POST. For the PUT method of the sample service
  \<open>generateClientMethod\<close> does not end the run: it writes no route line but still
  writes the body and the end of the closure, and returns.
\<close>

theorem put_pattern_not_fatal:
  "md_Options sample_replace
     = Some \<lparr>E_Http = Some \<lparr>Pattern = HttpRule_Put ''/v1/profile'', ResponseBody = []\<rparr>\<rparr>
   \<and> sample_run sample_replace Map.empty
       = Inr (True, Pl (sample_api sample_disk) sample_replace_lines)
   \<and> Buffer (Pl (sample_api sample_disk) sample_replace_lines)
       = [''input, output := Profile{}, Ping{}'', [],
          ''if err := ctx.ShouldBindBodyWith(&input, binding.JSON); err != nil {'',
          ''router.Error(ctx, 500, err)'', ''return'', ''}'', [],
          ''err := h.Replace(ctx.Copy(), &input, &output)'', ''if err != nil {'',
          ''router.Error(ctx, 500, err)'', ''return'', ''}'', [],
          ''router.JSON(ctx, &output)'', ''})'', []]"
  by (simp add: sample_replace_eq sample_replace_lines_def)
     (simp add: sample_replace_def sample_options)

theorem get_binds_from_query_witness:
  "sample_run sample_load [''binding'' \<mapsto> ''form'']
     = Inr (True, Pl (sample_api sample_disk) sample_load_lines)
   \<and> md_Options sample_load
       = Some \<lparr>E_Http = Some \<lparr>Pattern = HttpRule_Get ''/v1/profile'', ResponseBody = []\<rparr>\<rparr>
   \<and> writeOutput (sample_api sample_disk)
   \<and> ''if err := ctx.ShouldBindQuery(&input); err != nil {''
       \<in> set (Buffer (Pl (sample_api sample_disk) sample_load_lines))
   \<and> sample_run sample_load [''binding'' \<mapsto> ''query'']
       = Inr (True, Pl (sample_api sample_disk) sample_load_lines)
   \<and> sample_run sample_load Map.empty
       = Inr (True, Pl (sample_api sample_disk) sample_load_lines)"
proof -
  have r: "generateClientMethod sample_env (sample_api sample_disk) ''user'' ''ProfileService''
             sample_load [''binding'' \<mapsto> ''form'']
           = Inr (True, Pl (sample_api sample_disk) sample_load_lines)"
    using sample_load_eq by (simp add: sample_run_def)
  have op: "md_Options sample_load
       = Some \<lparr>E_Http = Some \<lparr>Pattern = HttpRule_Get ''/v1/profile'', ResponseBody = []\<rparr>\<rparr>"
    by (simp add: sample_load_def sample_options)
  have p: "Pattern \<lparr>Pattern = HttpRule_Get ''/v1/profile'', ResponseBody = []\<rparr>
           = HttpRule_Get ''/v1/profile''"
    by simp
  have w: "writeOutput (sample_api sample_disk)" by simp
  from get_binds_from_query [OF r op sample_options(2) p w, of "''query''"]
  have "sample_run sample_load [''binding'' \<mapsto> ''query'']
          = Inr (True, Pl (sample_api sample_disk) sample_load_lines)"
    and "sample_run sample_load Map.empty
          = Inr (True, Pl (sample_api sample_disk) sample_load_lines)"
    by (simp_all add: sample_run_def)
  moreover have "''if err := ctx.ShouldBindQuery(&input); err != nil {''
       \<in> set (Buffer (Pl (sample_api sample_disk) sample_load_lines))"
    by (simp add: sample_load_lines_def)
  ultimately show ?thesis using sample_load_eq op w by simp
qed

theorem bind_skipped_exactly_when_witness:
  "sample_run sample_touch Map.empty
     = Inr (False, Pl (sample_api sample_disk) sample_touch_lines)
   \<and> typeName sample_env (sample_api sample_disk) (md_InputType sample_touch)
       = Inr (''Ping'', sample_api sample_disk)
   \<and> g_file (sample_api sample_disk) = Some 1
   \<and> md_Options sample_touch
       = Some \<lparr>E_Http = Some \<lparr>Pattern = HttpRule_Post ''/v1/ping'', ResponseBody = []\<rparr>\<rparr>
   \<and> writeOutput (sample_api sample_disk)
   \<and> (\<exists>d. find (\<lambda>d. \<not> m_MapEntry (d_proto d)
                       \<and> CamelCaseSlice sample_env (d_typename d) = ''Ping'')
              (fd_desc (allFiles (sample_api sample_disk) ! 1)) = Some d
            \<and> m_Field (d_proto d) = [])
   \<and> Buffer (Pl (sample_api sample_disk) sample_touch_lines) = sample_touch_lines"
proof -
  have r: "generateClientMethod sample_env (sample_api sample_disk) ''user'' ''ProfileService''
             sample_touch Map.empty
           = Inr (False, Pl (sample_api sample_disk) sample_touch_lines)"
    using sample_touch_eq by (simp add: sample_run_def)
  have t: "typeName sample_env (sample_api sample_disk) (md_InputType sample_touch)
            = Inr (''Ping'', sample_api sample_disk)"
    by (simp add: sample_touch_def sample_options sample_typeName_Ping)
  have f: "g_file (sample_api sample_disk) = Some 1" by simp
  have op: "md_Options sample_touch
       = Some \<lparr>E_Http = Some \<lparr>Pattern = HttpRule_Post ''/v1/ping'', ResponseBody = []\<rparr>\<rparr>"
    by (simp add: sample_touch_def sample_options)
  have w: "writeOutput (sample_api sample_disk)" by simp
  from bind_skipped_exactly_when [OF r t f op sample_options(2) w]
  have "\<exists>d. find (\<lambda>d. \<not> m_MapEntry (d_proto d)
                       \<and> CamelCaseSlice sample_env (d_typename d) = ''Ping'')
              (fd_desc (allFiles (sample_api sample_disk) ! 1)) = Some d
            \<and> m_Field (d_proto d) = []"
    by simp
  then show ?thesis using sample_touch_eq t f op w by simp
qed

lemma shape_typeName:
  "typeName sample_env shape_api ''.shape.A_B'' = Inr (''A_B'', shape_api)"
  "typeName sample_env shape_api ''.shape.A'' = Inr (''A'', shape_api)"
proof -
  have "typeName sample_env shape_api ''.shape.A_B''
        = Inr (CamelCaseSlice sample_env (Object_TypeName sample_env shape_api (DescObj 0 2)),
               shape_api)"
    by (rule typeName_local)
       (simp_all add: shape_api_def shape_fd_def shape_proto_def GetName_def Object_File_def)
  moreover have "CamelCaseSlice sample_env (Object_TypeName sample_env shape_api (DescObj 0 2))
                 = ''A_B''"
    by (simp add: shape_api_def shape_fd_def sample_env_def Object_TypeName_def camel_defs)
  ultimately show "typeName sample_env shape_api ''.shape.A_B'' = Inr (''A_B'', shape_api)"
    by simp
  have "typeName sample_env shape_api ''.shape.A''
        = Inr (CamelCaseSlice sample_env (Object_TypeName sample_env shape_api (DescObj 0 0)),
               shape_api)"
    by (rule typeName_local)
       (simp_all add: shape_api_def shape_fd_def shape_proto_def GetName_def Object_File_def)
  moreover have "CamelCaseSlice sample_env (Object_TypeName sample_env shape_api (DescObj 0 0))
                 = ''A''"
    by (simp add: shape_api_def shape_fd_def sample_env_def Object_TypeName_def camel_defs)
  ultimately show "typeName sample_env shape_api ''.shape.A'' = Inr (''A'', shape_api)"
    by simp
qed

lemma shape_needBind:
  "needBindLoop sample_env ''A_B'' (fd_desc shape_fd) = False"
  by (simp add: shape_fd_def sample_env_def camel_defs)

lemma shape_put_eq:
  "generateClientMethod sample_env shape_api ''shape'' ''Shapes'' shape_put Map.empty
   = Inr (False, Pl shape_api shape_put_lines)"
proof -
  have ti: "typeName sample_env shape_api (md_InputType shape_put) = Inr (''A_B'', shape_api)"
    by (simp add: shape_put_def sample_options shape_typeName)
  have to: "typeName sample_env shape_api (md_OutputType shape_put) = Inr (''A'', shape_api)"
    by (simp add: shape_put_def sample_options shape_typeName)
  have f: "g_file shape_api = Some 0" by (simp add: shape_api_def)
  have a: "allFiles shape_api ! 0 = shape_fd" by (simp add: shape_api_def)
  have op: "md_Options shape_put
            = Some \<lparr>E_Http = Some \<lparr>Pattern = HttpRule_Post ''/v1/shape'', ResponseBody = []\<rparr>\<rparr>"
    by (simp add: shape_put_def sample_options)
  have mn: "methNameOf sample_env shape_put = ''Put''"
    by (simp add: methNameOf_def reservedClientName_def sample_env_def camel_defs
          shape_put_def sample_method_def)
  note e = generateClientMethod_eq [where reqServ = "''shape''" and servName = "''Shapes''"
             and ca = Map.empty, OF ti f to op sample_options(2)]
  show ?thesis
    unfolding e a
    by (simp add: shape_put_lines_def shape_needBind mn routeLines_def
          routeHeader_def bindLines_def handlerLines_def outTypeOf_def go_HasPrefix_def
          isGetPattern_def renderedInput_def)
qed

text \<open>
  C6. The code does not decide as the claim says. In \<open>shape/shape.proto\<close> the input
  \<open>A_B\<close> of the method \<open>Put\<close> has a field and is not the marker type, yet the closure
  is written without a bind call: the loop stops at the nested message \<open>A.B\<close>, which
  comes first, has the same Go name and no fields. In the other direction, the input
  \<open>.common.Void\<close> of the sample method \<open>Check\<close> has no fields, but it is declared in
  another file, the loop over the messages of the current file does not find it, and
  the bind statement is written.
\<close>

theorem input_with_fields_not_bound:
  "typeNameToObject shape_api (md_InputType shape_put) = Some (DescObj 0 2)
   \<and> m_Field (d_proto (fd_desc (allFiles shape_api ! 0) ! 2))
       = [\<lparr>f_Name = ''id'', f_Type = TYPE_STRING, f_TypeName = []\<rparr>]
   \<and> generateClientMethod sample_env shape_api ''shape'' ''Shapes'' shape_put Map.empty
       = Inr (False, Pl shape_api shape_put_lines)
   \<and> Buffer (Pl shape_api shape_put_lines)
       = [''g.POST('' @ [dq] @ ''/v1/shape'' @ [dq] @ '', func(ctx *gin.Context) {'',
          ''input := A_B{}'', ''var output A'', [],
          ''err := h.Put(ctx.Copy(), &input, &output)'', ''if err != nil {'',
          ''router.Error(ctx, 500, err)'', ''return'', ''}'', [],
          ''router.JSON(ctx, &output)'', ''})'', []]
   \<and> typeNameToObject (sample_api sample_disk) (md_InputType sample_check) = Some (DescObj 0 0)
   \<and> m_Field (d_proto (fd_desc (allFiles (sample_api sample_disk) ! 0) ! 0)) = []
   \<and> sample_run sample_check Map.empty = Inr (True, Pl sample_after_void sample_check_lines)
   \<and> ''if err := ctx.ShouldBindQuery(&input); err != nil {''
       \<in> set (Buffer (Pl sample_after_void sample_check_lines))"
proof -
  have "typeNameToObject shape_api (md_InputType shape_put) = Some (DescObj 0 2)"
    by (simp add: shape_api_def shape_put_def sample_options)
  moreover have "m_Field (d_proto (fd_desc (allFiles shape_api ! 0) ! 2))
       = [\<lparr>f_Name = ''id'', f_Type = TYPE_STRING, f_TypeName = []\<rparr>]"
    by (simp add: shape_api_def shape_fd_def)
  moreover note shape_put_eq
  moreover have "Buffer (Pl shape_api shape_put_lines)
       = [''g.POST('' @ [dq] @ ''/v1/shape'' @ [dq] @ '', func(ctx *gin.Context) {'',
          ''input := A_B{}'', ''var output A'', [],
          ''err := h.Put(ctx.Copy(), &input, &output)'', ''if err != nil {'',
          ''router.Error(ctx, 500, err)'', ''return'', ''}'', [],
          ''router.JSON(ctx, &output)'', ''})'', []]"
    by (simp add: Buffer_Pl shape_api_def shape_put_lines_def)
  moreover have "typeNameToObject (sample_api sample_disk) (md_InputType sample_check)
                 = Some (DescObj 0 0)"
    by (simp add: sample_check_def sample_options sample_api_def)
  moreover have "m_Field (d_proto (fd_desc (allFiles (sample_api sample_disk) ! 0) ! 0)) = []"
    by (simp add: sample_common_fd_def)
  moreover note sample_check_eq
  moreover have "''if err := ctx.ShouldBindQuery(&input); err != nil {''
       \<in> set (Buffer (Pl sample_after_void sample_check_lines))"
    by (simp add: sample_check_lines_def)
  ultimately show ?thesis by blast
qed

subsection \<open>Service generation reaches the manifest\<close>

lemma typeName_ok:
  assumes "typeNameToObject g str \<noteq> None"
  shows "\<exists>s g'. typeName E g str = Inr (s, g')"
proof -
  from assms obtain obj where o: "typeNameToObject g str = Some obj" by blast
  from RecordTypeUse_same [of g E str] o
  have "typeNameToObject (RecordTypeUse E g str) str = Some obj"
    by (simp add: core_same_def)
  then show ?thesis
    by (cases "TypeName E (RecordTypeUse E g str) obj")
       (simp add: typeName_def Let_def ObjectNamed_def)
qed

lemma methodReady_core_same: "core_same g g' \<Longrightarrow> methodReady g' m = methodReady g m"
  by (simp add: methodReady_def core_same_def)

lemma generateClientSignature_ok:
  assumes "methodReady g m"
  shows "\<exists>sig g'. generateClientSignature E g reqServ servName m = Inr (sig, g')"
proof -
  let ?g1 = "RecordTypeUse E g (md_InputType m)"
  from RecordTypeUse_same [of g E "md_InputType m"] have c1: "core_same g ?g1" by simp
  with assms have "typeNameToObject ?g1 (md_InputType m) \<noteq> None"
    by (simp add: methodReady_def core_same_def)
  from typeName_ok [OF this, of E] obtain in0 g2 where
    a: "typeName E ?g1 (md_InputType m) = Inr (in0, g2)" by blast
  from typeName_same [OF a] c1 have "core_same g g2" by (blast intro: core_same_trans)
  with assms have "typeNameToObject g2 (md_OutputType m) \<noteq> None"
    by (simp add: methodReady_def core_same_def)
  from typeName_ok [OF this, of E] obtain outName g3 where
    b: "typeName E g2 (md_OutputType m) = Inr (outName, g3)" by blast
  from a b show ?thesis
    by (simp add: generateClientSignature_def Let_def)
qed

lemma signatureLoop_ok:
  "\<forall>m \<in> set ms. methodReady g m \<Longrightarrow> \<exists>g'. signatureLoop E g serviceName servName ms = Inr g'"
proof (induction ms arbitrary: g)
  case Nil
  then show ?case by simp
next
  case (Cons m ms)
  from Cons.prems have "methodReady g m" by simp
  from generateClientSignature_ok [OF this, of E serviceName servName] obtain sig g1 where
    a: "generateClientSignature E g serviceName servName m = Inr (sig, g1)" by blast
  from generateClientSignature_same [OF a] have "core_same g (P g1 [sig])"
    by (blast intro: core_same_trans core_same_P)
  from methodReady_core_same [OF this] Cons.prems
  have "\<forall>m \<in> set ms. methodReady (P g1 [sig]) m"
    by simp
  from Cons.IH [OF this] a show ?case by simp
qed

lemma generateClientMethod_ok:
  assumes m: "methodReady g m" and f: "g_file g = Some fi"
  shows "\<exists>nb g'. generateClientMethod E g reqServ servName m ca = Inr (nb, g')"
proof -
  from m have "typeNameToObject g (md_InputType m) \<noteq> None" by (simp add: methodReady_def)
  from typeName_ok [OF this, of E] obtain inType g1 where
    ti: "typeName E g (md_InputType m) = Inr (inType, g1)" by blast
  from typeName_same [OF ti] m have "typeNameToObject g1 (md_OutputType m) \<noteq> None"
    by (simp add: methodReady_def core_same_def)
  from typeName_ok [OF this, of E] obtain outType g2 where
    to: "typeName E g1 (md_OutputType m) = Inr (outType, g2)" by blast
  from m obtain options opts where op: "md_Options m = Some options" "E_Http options = Some opts"
    by (auto simp: methodReady_def split: option.splits)
  from generateClientMethod_eq [OF ti f to op, of reqServ servName ca] show ?thesis
    by (intro exI)
qed

lemma makeComments_ok:
  "g_file g = Some fi \<Longrightarrow> \<exists>cs ok. makeComments g path = Inr (cs, ok)"
  by (cases "fd_comments (allFiles g ! fi) path") (auto simp: makeComments_def)

lemma methodLoop_ok:
  "\<forall>m \<in> set ms. methodReady g m \<Longrightarrow> g_file g = Some fi
   \<Longrightarrow> \<exists>hb' g'. methodLoop E g path serviceName servName i hb ms = Inr (hb', g')"
proof (induction ms arbitrary: g i hb)
  case Nil
  then show ?case by simp
next
  case (Cons m ms)
  obtain cs ok where a: "makeComments g (path @ '',2,'' @ ItoaNat i) = Inr (cs, ok)"
    using makeComments_ok [OF Cons.prems(2)] by blast
  let ?g1 = "if ok \<and> writeOutput g then P g [cs] else g"
  let ?ca = "if ok then (let res = regAnnotation_FindStringSubmatch E cs
                         in if length res > 1 then parseAnnotations (res ! 1) else Map.empty)
             else Map.empty"
  have c1: "core_same g ?g1" by simp
  from methodReady_core_same [OF c1] Cons.prems have r1: "methodReady ?g1 m" by simp
  from c1 Cons.prems have f1: "g_file ?g1 = Some fi" by (simp add: core_same_def)
  from generateClientMethod_ok [OF r1 f1, of E serviceName servName ?ca] obtain binding g2 where
    b: "generateClientMethod E ?g1 serviceName servName m ?ca = Inr (binding, g2)" by blast
  from generateClientMethod_same [OF b] c1 have c2: "core_same g g2"
    by (blast intro: core_same_trans)
  from methodReady_core_same [OF c2] Cons.prems have r2: "\<forall>m \<in> set ms. methodReady g2 m"
    by simp
  from c2 Cons.prems have f2: "g_file g2 = Some fi" by (simp add: core_same_def)
  from Cons.IH [OF r2 f2, of "Suc i" "if \<not> hb \<and> binding then True else hb"]
  obtain hb' g' where "methodLoop E g2 path serviceName servName (Suc i)
                         (if \<not> hb \<and> binding then True else hb) ms = Inr (hb', g')" by blast
  with a b show ?case by (simp add: Let_def)
qed

lemma generateService_reaches_handler:
  assumes ms: "\<forall>m \<in> set (sv_Method service). methodReady g m"
    and f: "g_file g = Some fi"
    and n: "goFileName E (allFiles g ! file) (pathType g) ''api'' = Inr fname"
  shows "\<exists>hb g5. core_same g g5
           \<and> generateService E g file service index
               = bindE (generateHandler E g5
                          (filepath_Dir E fname @ ''/'' @ CamelCase E (sv_Name service))
                          (filepath_Dir E fname))
                   (\<lambda>g6. Inr (hb, g6))"
proof -
  let ?servName = "CamelCase E (sv_Name service)"
  let ?pkg = "GetPackage (fd_proto (allFiles g ! file))"
  let ?serviceName = "if ?pkg \<noteq> [] then ?pkg else strings_ToLower E (sv_Name service)"
  let ?g1 = "Pl g [[], [], ''type '' @ ?servName @ ''Handler interface {'']"
  have c1: "core_same g ?g1" by (rule core_same_Pl)
  from methodReady_core_same [OF c1] ms
  have "\<forall>m \<in> set (sv_Method service). methodReady ?g1 m"
    by simp
  from signatureLoop_ok [OF this, of E ?serviceName ?servName] obtain g2 where
    a: "signatureLoop E ?g1 ?serviceName ?servName (sv_Method service) = Inr g2" by blast
  let ?g3 = "Pl g2 [''}'', [], ''func Register'' @ ?servName
                                 @ ''Handler(g *gin.Engine, h '' @ ?servName @ ''Handler) {'']"
  from signatureLoop_same [OF a] c1 have "core_same g g2" by (blast intro: core_same_trans)
  then have c3: "core_same g ?g3" by (blast intro: core_same_trans core_same_Pl)
  from methodReady_core_same [OF c3] ms
  have r3: "\<forall>m \<in> set (sv_Method service). methodReady ?g3 m" by simp
  from c3 f have f3: "g_file ?g3 = Some fi" by (simp add: core_same_def)
  from methodLoop_ok [OF r3 f3, of E "''6,'' @ ItoaNat index" ?serviceName ?servName 0 False]
  obtain hb g4 where
    b: "methodLoop E ?g3 (''6,'' @ ItoaNat index) ?serviceName ?servName 0 False
          (sv_Method service) = Inr (hb, g4)" by blast
  let ?g5 = "Pl g4 [''}'', []]"
  from methodLoop_same [OF b] c3 have "core_same g g4" by (blast intro: core_same_trans)
  then have c5: "core_same g ?g5" by (blast intro: core_same_trans core_same_Pl)
  then have "allFiles ?g5 = allFiles g" "pathType ?g5 = pathType g"
    by (simp_all add: core_same_def)
  with n have n5: "goFileName E (allFiles ?g5 ! file) (pathType ?g5) ''api'' = Inr fname"
    by simp
  have "generateService E g file service index
          = bindE (generateHandler E ?g5 (filepath_Dir E fname @ ''/'' @ ?servName)
                     (filepath_Dir E fname))
              (\<lambda>g6. Inr (hb, g6))"
    using a b n5 by (simp add: generateService_def Let_def)
  with c5 show ?thesis by blast
qed


lemma generateService_at_handler:
  assumes ms: "\<forall>m \<in> set (sv_Method service). methodReady g m"
    and f: "g_file g = Some fi"
    and n: "goFileName E (allFiles g ! file) (pathType g) ''api'' = Inr fname"
  shows "case disk g (ParamGet g ''path'' @ ''/handler.json'') of
           None \<Rightarrow> generateService E g file service index = Inl HandlerFileNotFound
         | Some cont \<Rightarrow>
             (case json_Unmarshal E cont of
                UnmarshalError \<Rightarrow>
                  generateService E g file service index = Inl HandlerFileContentError
              | UnmarshalNil \<Rightarrow>
                  generateService E g file service index
                  = Inl (Panic ''assignment to entry in nil map'')
              | UnmarshalMap m \<Rightarrow>
                  (\<exists>hb g'. generateService E g file service index = Inr (hb, g')))"
proof -
  from generateService_reaches_handler [OF ms f n, of index] obtain hb g5 where
    c: "core_same g g5" and
    e: "generateService E g file service index
          = bindE (generateHandler E g5
                     (filepath_Dir E fname @ ''/'' @ CamelCase E (sv_Name service))
                     (filepath_Dir E fname))
              (\<lambda>g6. Inr (hb, g6))"
    by blast
  from c have "disk g5 = disk g" "ParamGet g5 ''path'' = ParamGet g ''path''"
    by (simp_all add: core_same_def ParamGet_def)
  with e show ?thesis
    by (simp add: generateHandler_def split: option.split unmarshalled.split)
qed

text \<open>
  C3 (as amended). For a generated service the manifest \<open><path>/handler.json\<close> is
  read, the entry from the group name to its path is added to the decoded map and the
  result is handed to \<open>os.WriteFile\<close>, whose error is ignored. The generator does
  not create the file: when it is absent (or unreadable) \<open>generateHandler\<close> ends the
  run with "handler.json file not found", so no generation of a service succeeds
  without it. For a service whose methods all have their types in the index and carry
  the HTTP option, generated for a current file that has a name, the outcome is decided
  by the manifest alone: absent, the run ends with "handler.json file not found"; a
  content that \<open>json.Unmarshal\<close> rejects for a map of strings, with "handler.json
  file content error"; the content \<open>null\<close>, with the panic of an assignment to a nil
  map; a content that decodes to a map, success.
\<close>

theorem manifest_read_modify_write:
  "(disk g (ParamGet g ''path'' @ ''/handler.json'') = None \<longrightarrow>
      generateHandler E g k v = Inl HandlerFileNotFound
      \<and> (\<forall>hb g'. generateService E g fidx service index \<noteq> Inr (hb, g')))
   \<and> (generateService E g fidx service index = Inr (hb, g') \<longrightarrow>
      (\<exists>bts m fname.
          disk g (ParamGet g ''path'' @ ''/handler.json'') = Some bts
        \<and> json_Unmarshal E bts = UnmarshalMap m
        \<and> goFileName E (allFiles g ! fidx) (pathType g) ''api'' = Inr fname
        \<and> disk g' = os_WriteFile E (disk g) (ParamGet g ''path'' @ ''/handler.json'')
             (json_Marshal E
               (AList.update (filepath_Dir E fname @ ''/'' @ CamelCase E (sv_Name service))
                  (filepath_Dir E fname) m))))
   \<and> ((\<forall>m \<in> set (sv_Method service). methodReady g m) \<and> g_file g = Some fi
        \<and> goFileName E (allFiles g ! fidx) (pathType g) ''api'' = Inr fnm \<longrightarrow>
      (case disk g (ParamGet g ''path'' @ ''/handler.json'') of
         None \<Rightarrow> generateService E g fidx service index = Inl HandlerFileNotFound
       | Some cont \<Rightarrow>
           (case json_Unmarshal E cont of
              UnmarshalError \<Rightarrow>
                generateService E g fidx service index = Inl HandlerFileContentError
            | UnmarshalNil \<Rightarrow>
                generateService E g fidx service index
                = Inl (Panic ''assignment to entry in nil map'')
            | UnmarshalMap m \<Rightarrow>
                (\<exists>hb g'. generateService E g fidx service index = Inr (hb, g')))))"
proof -
  let ?p = "ParamGet g ''path'' @ ''/handler.json''"
  have ok: "\<exists>bts m fname.
          disk g ?p = Some bts
        \<and> json_Unmarshal E bts = UnmarshalMap m
        \<and> goFileName E (allFiles g ! fidx) (pathType g) ''api'' = Inr fname
        \<and> disk g' = os_WriteFile E (disk g) ?p
             (json_Marshal E
               (AList.update (filepath_Dir E fname @ ''/'' @ CamelCase E (sv_Name service))
                  (filepath_Dir E fname) m))"
    if r: "generateService E g fidx service index = Inr (hb, g')" for hb g'
  proof -
    from generateService_Inr [OF r] obtain g5 fname where
      s: "core_same g g5" and
      f: "goFileName E (allFiles g ! fidx) (pathType g) ''api'' = Inr fname" and
      h: "generateHandler E g5 (filepath_Dir E fname @ ''/'' @ CamelCase E (sv_Name service))
            (filepath_Dir E fname) = Inr g'"
      by blast
    from s have e: "disk g5 = disk g" "ParamGet g5 ''path'' = ParamGet g ''path''"
      by (simp_all add: core_same_def ParamGet_def)
    from h e f show ?thesis
      by (auto simp: generateHandler_def Let_def split: option.splits unmarshalled.splits)
  qed
  have absent: "generateService E g fidx service index \<noteq> Inr (hb', g'')"
    if n: "disk g ?p = None" for hb' g''
  proof
    assume "generateService E g fidx service index = Inr (hb', g'')"
    from ok [OF this] n show False by auto
  qed
  show ?thesis
  proof (intro conjI impI)
    assume "disk g ?p = None"
    then show "generateHandler E g k v = Inl HandlerFileNotFound"
      by (rule generateHandler_absent)
  next
    assume "disk g ?p = None"
    then show "\<forall>hb g'. generateService E g fidx service index \<noteq> Inr (hb, g')"
      using absent by blast
  next
    assume "generateService E g fidx service index = Inr (hb, g')"
    from ok [OF this] show "\<exists>bts m fname.
          disk g ?p = Some bts
        \<and> json_Unmarshal E bts = UnmarshalMap m
        \<and> goFileName E (allFiles g ! fidx) (pathType g) ''api'' = Inr fname
        \<and> disk g' = os_WriteFile E (disk g) ?p
             (json_Marshal E
               (AList.update (filepath_Dir E fname @ ''/'' @ CamelCase E (sv_Name service))
                  (filepath_Dir E fname) m))" .
  next
    assume a: "(\<forall>m \<in> set (sv_Method service). methodReady g m) \<and> g_file g = Some fi
        \<and> goFileName E (allFiles g ! fidx) (pathType g) ''api'' = Inr fnm"
    then have "\<forall>m \<in> set (sv_Method service). methodReady g m" "g_file g = Some fi"
      "goFileName E (allFiles g ! fidx) (pathType g) ''api'' = Inr fnm"
      by blast+
    then show "case disk g ?p of
         None \<Rightarrow> generateService E g fidx service index = Inl HandlerFileNotFound
       | Some cont \<Rightarrow>
           (case json_Unmarshal E cont of
              UnmarshalError \<Rightarrow>
                generateService E g fidx service index = Inl HandlerFileContentError
            | UnmarshalNil \<Rightarrow>
                generateService E g fidx service index
                = Inl (Panic ''assignment to entry in nil map'')
            | UnmarshalMap m \<Rightarrow>
                (\<exists>hb g'. generateService E g fidx service index = Inr (hb, g')))"
      by (rule generateService_at_handler)
  qed
qed

lemma sample_ready:
  "methodReady (sample_api d) sample_save"
  "methodReady (sample_api d) sample_load"
  "methodReady (sample_api d) sample_check"
  "methodReady (sample_api d) sample_replace"
  by (simp_all add: methodReady_def sample_api_def sample_save_def sample_load_def
        sample_check_def sample_replace_def sample_method_def)

lemma sample_goFileName:
  "goFileName sample_env (allFiles (sample_api d) ! 1) (pathType (sample_api d)) ''api''
   = Inr ''user/profile.api.go''"
  by (simp add: goFileName_def sample_user_fd_def sample_user_def sample_env_def
        GetPackage_def path_Ext_def asciiLower_def Let_def)

lemma sample_manifest_path:
  "ParamGet (sample_api d) ''path'' @ ''/handler.json'' = ''out/handler.json''"
  by (simp add: ParamGet_def sample_api_def)

lemma sample_manifest_entry:
  "filepath_Dir sample_env ''user/profile.api.go'' = ''user''"
  "CamelCase sample_env (sv_Name sample_service) = ''ProfileService''"
  "json_Unmarshal sample_env ''{}'' = UnmarshalMap []"
  "json_Marshal sample_env [(''user/ProfileService'', ''user'')]
   = ''{'' @ [dq] @ ''user/ProfileService'' @ [dq] @ '':'' @ [dq] @ ''user'' @ [dq] @ ''}''"
  "json_Unmarshal sample_env ''null'' = UnmarshalNil"
  "json_Unmarshal sample_env ''[]'' = UnmarshalError"
  "os_WriteFile sample_env d p c = d(p \<mapsto> c)"
  by (simp_all add: sample_env_def sampleDir_def sample_service_def camel_defs
        sampleUnmarshal_def sampleMarshal_def sampleQuoted_def)

lemma sample_disk_at [simp]: "disk (sample_api d) = d"
  by (simp add: sample_api_def)

theorem manifest_read_modify_write_witness:
  "disk (sample_api Map.empty) ''out/handler.json'' = None
   \<and> generateHandler sample_env (sample_api Map.empty) ''user/ProfileService'' ''user''
       = Inl HandlerFileNotFound
   \<and> isl (generateService sample_env (sample_api Map.empty) 1 sample_service 0)
   \<and> generateService sample_env (sample_api [''out/handler.json'' \<mapsto> ''[]'']) 1 sample_service 0
       = Inl HandlerFileContentError
   \<and> generateService sample_env (sample_api [''out/handler.json'' \<mapsto> ''null'']) 1
         sample_service 0
       = Inl (Panic ''assignment to entry in nil map'')
   \<and> \<not> isl (generateService sample_env (sample_api sample_disk) 1 sample_service 0)
   \<and> disk (snd (projr (generateService sample_env (sample_api sample_disk) 1 sample_service 0)))
       = sample_disk(''out/handler.json'' \<mapsto>
           ''{'' @ [dq] @ ''user/ProfileService'' @ [dq] @ '':'' @ [dq] @ ''user'' @ [dq] @ ''}'')"
proof -
  let ?A = "sample_api Map.empty"
  let ?B = "sample_api sample_disk"
  let ?C = "sample_api [''out/handler.json'' \<mapsto> ''[]'']"
  let ?D = "sample_api [''out/handler.json'' \<mapsto> ''null'']"
  let ?ra = "generateService sample_env ?A 1 sample_service 0"
  let ?rb = "generateService sample_env ?B 1 sample_service 0"
  have da: "disk ?A ''out/handler.json'' = None" by simp
  have db': "disk ?B ''out/handler.json'' = Some ''{}''"
    by (simp add: sample_disk_def)
  have rd: "\<forall>m \<in> set (sv_Method sample_service). methodReady (sample_api d) m" for d
    by (simp add: sample_service_def sample_ready)
  from da have pa: "disk ?A (ParamGet ?A ''path'' @ ''/handler.json'') = None"
    by (simp only: sample_manifest_path)
  from manifest_read_modify_write
         [where g = ?A and E = sample_env and k = "''user/ProfileService''" and v = "''user''"
            and fidx = 1 and service = sample_service and index = 0] pa
  have h1: "generateHandler sample_env ?A ''user/ProfileService'' ''user'' = Inl HandlerFileNotFound"
    and h2: "\<forall>hb g'. ?ra \<noteq> Inr (hb, g')"
    by blast+
  from h2 have ia: "isl ?ra" by (cases ?ra) auto
  have c3: "case disk (sample_api d) ''out/handler.json'' of
         None \<Rightarrow> generateService sample_env (sample_api d) 1 sample_service 0
                  = Inl HandlerFileNotFound
       | Some cont \<Rightarrow>
           (case json_Unmarshal sample_env cont of
              UnmarshalError \<Rightarrow>
                generateService sample_env (sample_api d) 1 sample_service 0
                = Inl HandlerFileContentError
            | UnmarshalNil \<Rightarrow>
                generateService sample_env (sample_api d) 1 sample_service 0
                = Inl (Panic ''assignment to entry in nil map'')
            | UnmarshalMap m \<Rightarrow>
                (\<exists>hb g'. generateService sample_env (sample_api d) 1 sample_service 0
                           = Inr (hb, g')))" for d
    using manifest_read_modify_write
         [where g = "sample_api d" and E = sample_env and fidx = 1 and service = sample_service
            and index = 0 and fi = 1 and fnm = "''user/profile.api.go''"]
       rd [of d] sample_goFileName [of d]
    by (simp only: sample_manifest_path sample_state)
  from c3 [of "[''out/handler.json'' \<mapsto> ''[]'']"]
  have hc: "generateService sample_env ?C 1 sample_service 0 = Inl HandlerFileContentError"
    by (simp add: sample_manifest_entry)
  from c3 [of "[''out/handler.json'' \<mapsto> ''null'']"]
  have hd: "generateService sample_env ?D 1 sample_service 0
            = Inl (Panic ''assignment to entry in nil map'')"
    by (simp add: sample_manifest_entry)
  from c3 [of sample_disk] obtain hb g' where r: "?rb = Inr (hb, g')"
    by (auto simp: sample_disk_def sample_manifest_entry)
  from manifest_read_modify_write
         [where g = ?B and E = sample_env and fidx = 1 and service = sample_service and index = 0
            and hb = hb and g' = g'] r
  obtain bts m fname where
    b: "disk ?B (ParamGet ?B ''path'' @ ''/handler.json'') = Some bts" and
    u: "json_Unmarshal sample_env bts = UnmarshalMap m" and
    f: "goFileName sample_env (allFiles ?B ! 1) (pathType ?B) ''api'' = Inr fname" and
    d: "disk g' = os_WriteFile sample_env (disk ?B) (ParamGet ?B ''path'' @ ''/handler.json'')
          (json_Marshal sample_env
            (AList.update (filepath_Dir sample_env fname @ ''/''
                             @ CamelCase sample_env (sv_Name sample_service))
               (filepath_Dir sample_env fname) m))"
    by blast
  from b db' have bts: "bts = ''{}''" by (simp only: sample_manifest_path) simp
  with u have m: "m = []" by (simp add: sample_manifest_entry)
  from f have fname: "fname = ''user/profile.api.go''" by (simp only: sample_goFileName) simp
  from d have "disk g' = sample_disk(''out/handler.json'' \<mapsto>
           ''{'' @ [dq] @ ''user/ProfileService'' @ [dq] @ '':'' @ [dq] @ ''user'' @ [dq] @ ''}'')"
    unfolding m fname sample_manifest_path sample_disk_at sample_manifest_entry(1,2)
    by (simp add: sample_manifest_entry(4,7))
  with r have "\<not> isl ?rb" and "disk (snd (projr ?rb)) = sample_disk(''out/handler.json'' \<mapsto>
           ''{'' @ [dq] @ ''user/ProfileService'' @ [dq] @ '':'' @ [dq] @ ''user'' @ [dq] @ ''}'')"
    by simp_all
  with da h1 ia hc hd show ?thesis by blast
qed

text \<open>
  C3, the claim as stated: "created if absent". On a disk without the manifest the
  generation of the sample service ends with the fatal error and writes nothing.
\<close>

theorem manifest_not_created_counterexample:
  "generateService sample_env (sample_api Map.empty) 1 sample_service 0
   = Inl HandlerFileNotFound"
proof -
  have "\<forall>m \<in> set (sv_Method sample_service). methodReady (sample_api Map.empty) m"
    by (simp add: sample_service_def sample_ready)
  moreover have "g_file (sample_api Map.empty) = Some 1" by simp
  moreover note sample_goFileName [of Map.empty]
  ultimately have "case disk (sample_api Map.empty)
                          (ParamGet (sample_api Map.empty) ''path'' @ ''/handler.json'') of
           None \<Rightarrow> generateService sample_env (sample_api Map.empty) 1 sample_service 0
                    = Inl HandlerFileNotFound
         | Some cont \<Rightarrow>
             (case json_Unmarshal sample_env cont of
                UnmarshalError \<Rightarrow>
                  generateService sample_env (sample_api Map.empty) 1 sample_service 0
                  = Inl HandlerFileContentError
              | UnmarshalNil \<Rightarrow>
                  generateService sample_env (sample_api Map.empty) 1 sample_service 0
                  = Inl (Panic ''assignment to entry in nil map'')
              | UnmarshalMap m \<Rightarrow>
                  (\<exists>hb g'. generateService sample_env (sample_api Map.empty) 1 sample_service 0
                             = Inr (hb, g')))"
    by (rule generateService_at_handler)
  then show ?thesis by (simp only: sample_manifest_path) simp
qed

subsection \<open>Import paths and package names\<close>

lemma CommandLineParameters_fields:
  assumes "CommandLineParameters (New req dsk) parameter = Inr g"
  shows "Request g = req"
    and "ImportMap g n = map_of (parseParam parameter) (CHR ''M'' # n)"
    and "PackageImportPath g
         = (case map_of (parseParam parameter) ''import_path'' of None \<Rightarrow> [] | Some v \<Rightarrow> v)"
proof -
  let ?g2 = "(New req dsk)\<lparr>Param := parseParam parameter, ImportMap := Map.empty\<rparr>"
  from assms obtain g3 where
    l: "paramLoop ?g2 (parseParam parameter) = Inr g3" and
    g: "g = (if ImportPrefix g3 = [] then g3\<lparr>ImportPrefix := ParamGet g3 ''repo'' @ ''/''\<rparr> else g3)"
    by (auto simp: CommandLineParameters_def Let_def bindE_def split: sum.splits if_splits)
  from paramLoop_Param [OF l] g show "Request g = req" by (simp add: New_def)
  from paramLoop_ImportMap [OF l distinct_parseParam, of n] g
  show "ImportMap g n = map_of (parseParam parameter) (CHR ''M'' # n)"
    by (simp add: New_def split: option.splits)
  from paramLoop_PackageImportPath [OF l distinct_parseParam] g
  show "PackageImportPath g
         = (case map_of (parseParam parameter) ''import_path'' of None \<Rightarrow> [] | Some v \<Rightarrow> v)"
    by (simp add: New_def split: option.splits)
qed

lemma wrapFile_fields:
  "wrapFile E g f = Inr fd \<Longrightarrow> fd_proto fd = f \<and> fd_importPath fd = wrapPath E g f"
  by (auto simp: wrapFile_def Let_def bindE_Inr_iff)

lemma wrapPath_cong:
  "ImportMap g' = ImportMap g \<Longrightarrow> Request g' = Request g
   \<Longrightarrow> PackageImportPath g' = PackageImportPath g \<Longrightarrow> wrapPath E g' f = wrapPath E g f"
  by (auto simp: wrapPath_def split: option.splits)

lemma wrapLoop_result:
  "wrapLoop E g fs = Inr g' \<Longrightarrow>
     Request g' = Request g \<and> ImportMap g' = ImportMap g
     \<and> PackageImportPath g' = PackageImportPath g
     \<and> length (allFiles g') = length (allFiles g) + length fs
     \<and> (\<forall>k < length fs.
           fd_proto (allFiles g' ! (length (allFiles g) + k)) = fs ! k
         \<and> fd_importPath (allFiles g' ! (length (allFiles g) + k)) = wrapPath E g (fs ! k))
     \<and> (\<forall>k < length (allFiles g). allFiles g' ! k = allFiles g ! k)"
proof (induction fs arbitrary: g)
  case Nil
  then show ?case by simp
next
  case (Cons f fs)
  from Cons.prems obtain fd where
    w: "wrapFile E g f = Inr fd" and
    l: "wrapLoop E (g\<lparr>allFiles := allFiles g @ [fd],
                      allFilesByName := (allFilesByName g)(GetName f \<mapsto> length (allFiles g))\<rparr>)
          fs = Inr g'"
    by (auto simp: bindE_Inr_iff)
  let ?g1 = "g\<lparr>allFiles := allFiles g @ [fd],
               allFilesByName := (allFilesByName g)(GetName f \<mapsto> length (allFiles g))\<rparr>"
  note ih = Cons.IH [OF l]
  have c: "wrapPath E ?g1 x = wrapPath E g x" for x by (rule wrapPath_cong) simp_all
  from ih have r: "Request g' = Request g" "ImportMap g' = ImportMap g"
    "PackageImportPath g' = PackageImportPath g"
    "length (allFiles g') = length (allFiles g) + length (f # fs)"
    by simp_all
  from ih have old: "\<forall>k < Suc (length (allFiles g)). allFiles g' ! k = (allFiles g @ [fd]) ! k"
    by simp
  have new: "fd_proto (allFiles g' ! (length (allFiles g) + k)) = (f # fs) ! k
         \<and> fd_importPath (allFiles g' ! (length (allFiles g) + k)) = wrapPath E g ((f # fs) ! k)"
    if k: "k < length (f # fs)" for k
  proof (cases k)
    case 0
    with old have "allFiles g' ! (length (allFiles g) + k) = fd" by simp
    with wrapFile_fields [OF w] 0 show ?thesis by simp
  next
    case (Suc j)
    with k have "j < length fs" by simp
    with ih have "fd_proto (allFiles g' ! (length (allFiles ?g1) + j)) = fs ! j
         \<and> fd_importPath (allFiles g' ! (length (allFiles ?g1) + j)) = wrapPath E ?g1 (fs ! j)"
      by blast
    with Suc c show ?thesis by simp
  qed
  from old have "\<forall>k < length (allFiles g). allFiles g' ! k = allFiles g ! k"
    by (simp add: nth_append)
  with r new show ?case by blast
qed

lemma impLoop_result:
  "impLoop g is = Inr g' \<Longrightarrow>
     Request g' = Request g \<and> allFilesByName g' = allFilesByName g
     \<and> length (allFiles g') = length (allFiles g)
     \<and> (\<forall>k < length (allFiles g).
           fd_proto (allFiles g' ! k) = fd_proto (allFiles g ! k)
         \<and> fd_importPath (allFiles g' ! k) = fd_importPath (allFiles g ! k))"
proof (induction "is" arbitrary: g)
  case Nil
  then show ?case by simp
next
  case (Cons fi rest)
  from Cons.prems obtain sl where
    l: "impLoop (g\<lparr>allFiles := (allFiles g)[fi := (allFiles g ! fi)\<lparr>fd_imp := sl\<rparr>]\<rparr>) rest
        = Inr g'"
    by (auto simp: bindE_Inr_iff)
  let ?g1 = "g\<lparr>allFiles := (allFiles g)[fi := (allFiles g ! fi)\<lparr>fd_imp := sl\<rparr>]\<rparr>"
  note ih = Cons.IH [OF l]
  have s: "fd_proto (allFiles ?g1 ! k) = fd_proto (allFiles g ! k)
         \<and> fd_importPath (allFiles ?g1 ! k) = fd_importPath (allFiles g ! k)"
    if "k < length (allFiles g)" for k
    using that by (cases "k = fi") simp_all
  from ih s show ?case by simp
qed

lemma WrapTypes_result:
  assumes "WrapTypes E g = Inr g'"
  shows "Request g' = Request g"
    and "length (allFiles g') = length (ProtoFile (Request g))"
    and "k < length (ProtoFile (Request g)) \<Longrightarrow>
           fd_proto (allFiles g' ! k) = ProtoFile (Request g) ! k
         \<and> fd_importPath (allFiles g' ! k) = wrapPath E g (ProtoFile (Request g) ! k)"
    and "genFiles g' \<noteq> [] \<Longrightarrow> FileToGenerate (Request g) \<noteq> []"
proof -
  let ?g0 = "g\<lparr>allFiles := [], allFilesByName := Map.empty\<rparr>"
  from assms obtain g1 g2 gen where
    a: "wrapLoop E ?g0 (ProtoFile (Request g)) = Inr g1" and
    b: "impLoop g1 [0..<length (allFiles g1)] = Inr g2" and
    c: "mapE (\<lambda>fileName. case allFilesByName g2 fileName of
                             None \<Rightarrow> Inl (CouldNotFindFile fileName)
                           | Some fd \<Rightarrow> Inr fd)
          (FileToGenerate (Request g2)) = Inr gen" and
    d: "g' = g2\<lparr>genFiles := gen\<rparr>"
    by (auto simp: WrapTypes_def bindE_Inr_iff)
  note wa = wrapLoop_result [OF a]
  note ib = impLoop_result [OF b]
  have wp: "wrapPath E ?g0 x = wrapPath E g x" for x by (rule wrapPath_cong) simp_all
  from wa ib d show "Request g' = Request g" by simp
  from wa ib d show "length (allFiles g') = length (ProtoFile (Request g))" by simp
  show "fd_proto (allFiles g' ! k) = ProtoFile (Request g) ! k
         \<and> fd_importPath (allFiles g' ! k) = wrapPath E g (ProtoFile (Request g) ! k)"
    if k: "k < length (ProtoFile (Request g))"
  proof -
    from wa k have "fd_proto (allFiles g1 ! k) = ProtoFile (Request g) ! k
         \<and> fd_importPath (allFiles g1 ! k) = wrapPath E ?g0 (ProtoFile (Request g) ! k)"
      by simp
    moreover from wa k have "k < length (allFiles g1)" by simp
    ultimately show ?thesis using ib d wp by simp
  qed
  show "FileToGenerate (Request g) \<noteq> []" if "genFiles g' \<noteq> []"
  proof
    assume "FileToGenerate (Request g) = []"
    with wa ib have "FileToGenerate (Request g2) = []" by simp
    with c have "gen = []" by simp
    with d that show False by simp
  qed
qed

text \<open>
  C8. After \<open>CommandLineParameters\<close> and \<open>WrapTypes\<close> the files of the request are
  wrapped in their order, and the import path of each is the one the order of
  precedence gives: the \<open>M<file>=<path>\<close> parameter for the file; else the
  \<open>import_path\<close> parameter when it is not empty and the file is to be generated; else
  the import path stated by the \<open>go_package\<close> option; else the directory of the file
  name.
\<close>

theorem import_path_precedence:
  assumes p: "CommandLineParameters (New req dsk) (Parameter req) = Inr g1"
    and w: "WrapTypes E g1 = Inr g"
  shows "length (allFiles g) = length (ProtoFile req)
       \<and> (\<forall>k < length (ProtoFile req).
             fd_proto (allFiles g ! k) = ProtoFile req ! k
           \<and> fd_importPath (allFiles g ! k)
               = importPathByPrecedence E (parseParam (Parameter req)) (FileToGenerate req)
                   (ProtoFile req ! k))"
proof -
  note c = CommandLineParameters_fields [OF p]
  have "wrapPath E g1 f
        = importPathByPrecedence E (parseParam (Parameter req)) (FileToGenerate req) f" for f
    by (cases "goPackageOption E f")
       (simp add: wrapPath_def importPathByPrecedence_def c Let_def split: option.splits)
  with WrapTypes_result(2,3) [OF w] c(1) show ?thesis by simp
qed

lemma packageNameFor_outputImportPath:
  "packageNameFor E (g\<lparr>outputImportPath := x\<rparr>) dpn f = packageNameFor E g dpn f"
proof -
  have "defaultGoPackage E (g\<lparr>outputImportPath := x\<rparr>) = defaultGoPackage E g"
    by (simp add: defaultGoPackage_def)
  then show ?thesis by (simp add: packageNameFor_def split: prod.splits option.splits)
qed

lemma fold_assign_outputImportPath:
  "fold (\<lambda>fi g'. g'\<lparr>allFiles :=
                        (allFiles g')[fi := (allFiles g' ! fi)
                           \<lparr>fd_packageName := packageNameFor E g' dpn (allFiles g' ! fi)\<rparr>]\<rparr>)
     fis (g\<lparr>outputImportPath := x\<rparr>)
   = (fold (\<lambda>fi g'. g'\<lparr>allFiles :=
                        (allFiles g')[fi := (allFiles g' ! fi)
                           \<lparr>fd_packageName := packageNameFor E g' dpn (allFiles g' ! fi)\<rparr>]\<rparr>)
        fis g)\<lparr>outputImportPath := x\<rparr>"
proof (induction fis arbitrary: g)
  case Nil
  show ?case by simp
next
  case (Cons fi fis)
  have "(g\<lparr>outputImportPath := x\<rparr>)\<lparr>allFiles :=
            (allFiles (g\<lparr>outputImportPath := x\<rparr>))[fi := (allFiles (g\<lparr>outputImportPath := x\<rparr>) ! fi)
               \<lparr>fd_packageName := packageNameFor E (g\<lparr>outputImportPath := x\<rparr>) dpn
                                     (allFiles (g\<lparr>outputImportPath := x\<rparr>) ! fi)\<rparr>]\<rparr>
        = (g\<lparr>allFiles := (allFiles g)[fi := (allFiles g ! fi)
               \<lparr>fd_packageName := packageNameFor E g dpn (allFiles g ! fi)\<rparr>]\<rparr>)
            \<lparr>outputImportPath := x\<rparr>"
    by (simp add: packageNameFor_outputImportPath)
  then show ?case using Cons.IH by simp
qed

lemma namedFiles_outputImportPath:
  "allFiles (assignPackageNames E (g\<lparr>outputImportPath := x\<rparr>)
               (defaultPackageNames E (g\<lparr>outputImportPath := x\<rparr>)))
   = namedFiles E g"
proof -
  have "defaultPackageNames E (g\<lparr>outputImportPath := x\<rparr>) = defaultPackageNames E g"
    by (simp add: defaultPackageNames_def)
  then show ?thesis
    by (simp add: namedFiles_def assignPackageNames_def fold_assign_outputImportPath)
qed

lemma packageNameFor_cong:
  "PackageImportPath g' = PackageImportPath g \<Longrightarrow> fd_proto f' = fd_proto f
   \<Longrightarrow> fd_importPath f' = fd_importPath f
   \<Longrightarrow> packageNameFor E g' dpn f' = packageNameFor E g dpn f"
proof -
  assume a: "PackageImportPath g' = PackageImportPath g" "fd_proto f' = fd_proto f"
    "fd_importPath f' = fd_importPath f"
  then have "defaultGoPackage E g' = defaultGoPackage E g" by (simp add: defaultGoPackage_def)
  with a show ?thesis by (simp add: packageNameFor_def split: prod.splits option.splits)
qed

lemma fold_assign_nth:
  "length (allFiles (fold (\<lambda>fi g'. g'\<lparr>allFiles :=
                        (allFiles g')[fi := (allFiles g' ! fi)
                           \<lparr>fd_packageName := packageNameFor E g' dpn (allFiles g' ! fi)\<rparr>]\<rparr>)
                      fis g)) = length (allFiles g)
   \<and> PackageImportPath (fold (\<lambda>fi g'. g'\<lparr>allFiles :=
                        (allFiles g')[fi := (allFiles g' ! fi)
                           \<lparr>fd_packageName := packageNameFor E g' dpn (allFiles g' ! fi)\<rparr>]\<rparr>)
                      fis g) = PackageImportPath g
   \<and> (\<forall>k < length (allFiles g).
         allFiles (fold (\<lambda>fi g'. g'\<lparr>allFiles :=
                        (allFiles g')[fi := (allFiles g' ! fi)
                           \<lparr>fd_packageName := packageNameFor E g' dpn (allFiles g' ! fi)\<rparr>]\<rparr>)
                      fis g) ! k
         = (if k \<in> set fis
            then (allFiles g ! k)\<lparr>fd_packageName := packageNameFor E g dpn (allFiles g ! k)\<rparr>
            else allFiles g ! k))"
proof (induction fis arbitrary: g)
  case Nil
  show ?case by simp
next
  case (Cons fi fis)
  let ?F = "\<lambda>fi g'. g'\<lparr>allFiles :=
                        (allFiles g')[fi := (allFiles g' ! fi)
                           \<lparr>fd_packageName := packageNameFor E g' dpn (allFiles g' ! fi)\<rparr>]\<rparr>"
  let ?g1 = "?F fi g"
  note ih = Cons.IH [of ?g1]
  have l1: "length (allFiles ?g1) = length (allFiles g)" by simp
  have p1: "PackageImportPath ?g1 = PackageImportPath g" by simp
  have n1: "allFiles ?g1 ! k
            = (if k = fi
               then (allFiles g ! k)\<lparr>fd_packageName := packageNameFor E g dpn (allFiles g ! k)\<rparr>
               else allFiles g ! k)"
    if "k < length (allFiles g)" for k
    using that by simp
  have c: "packageNameFor E ?g1 dpn (allFiles ?g1 ! k) = packageNameFor E g dpn (allFiles g ! k)"
    if "k < length (allFiles g)" for k
    using that by (intro packageNameFor_cong; cases "k = fi"; simp)
  have "allFiles (fold ?F (fi # fis) g) ! k
         = (if k \<in> set (fi # fis)
            then (allFiles g ! k)\<lparr>fd_packageName := packageNameFor E g dpn (allFiles g ! k)\<rparr>
            else allFiles g ! k)"
    if k: "k < length (allFiles g)" for k
  proof -
    from ih k l1 have "allFiles (fold ?F fis ?g1) ! k
         = (if k \<in> set fis
            then (allFiles ?g1 ! k)\<lparr>fd_packageName := packageNameFor E ?g1 dpn (allFiles ?g1 ! k)\<rparr>
            else allFiles ?g1 ! k)"
      by simp
    then have "allFiles (fold ?F fis ?g1) ! k
         = (if k \<in> set fis
            then (allFiles ?g1 ! k)\<lparr>fd_packageName := packageNameFor E g dpn (allFiles g ! k)\<rparr>
            else allFiles ?g1 ! k)"
      by (simp only: c [OF k])
    then show ?thesis
      by (simp only: fold_simps n1 [OF k]) (simp split: if_splits)
  qed
  moreover from ih l1 have "length (allFiles (fold ?F (fi # fis) g)) = length (allFiles g)"
    by simp
  moreover from ih p1 have "PackageImportPath (fold ?F (fi # fis) g) = PackageImportPath g"
    by simp
  ultimately show ?case by blast
qed

lemma namedFiles_nth:
  assumes "k < length (allFiles g)"
  shows "namedFiles E g ! k
         = (if k \<in> set (genFiles g)
            then (allFiles g ! k)
                   \<lparr>fd_packageName :=
                      packageNameFor E g (defaultPackageNames E g) (allFiles g ! k)\<rparr>
            else allFiles g ! k)"
  using fold_assign_nth [of E "defaultPackageNames E g" "genFiles g" g] assms
  by (simp add: namedFiles_def assignPackageNames_def)

lemma consistencyLoop_differs:
  "\<exists>f \<in> set fs. fd_importPath f0 \<noteq> fd_importPath f \<or> fd_packageName f0 \<noteq> fd_packageName f
   \<Longrightarrow> \<exists>a b. a \<noteq> b \<and> (consistencyLoop f0 fs = Inl (InconsistentImportPaths a b)
                      \<or> consistencyLoop f0 fs = Inl (InconsistentPackageNames a b))"
proof (induction fs)
  case Nil
  then show ?case by simp
next
  case (Cons f fs)
  show ?case
  proof (cases "fd_importPath f0 \<noteq> fd_importPath f")
    case True
    then show ?thesis by auto
  next
    case ip: False
    show ?thesis
    proof (cases "fd_packageName f0 \<noteq> fd_packageName f")
      case True
      with ip show ?thesis by auto
    next
      case False
      with ip Cons.prems
      have "\<exists>f \<in> set fs. fd_importPath f0 \<noteq> fd_importPath f
                          \<or> fd_packageName f0 \<noteq> fd_packageName f"
        by auto
      from Cons.IH [OF this] ip False show ?thesis by simp
    qed
  qed
qed

lemma SetPackageNames_differs:
  assumes ij: "i \<in> set (genFiles g)" "j \<in> set (genFiles g)"
    and diff: "fd_importPath (namedFiles E g ! i) \<noteq> fd_importPath (namedFiles E g ! j)
               \<or> fd_packageName (namedFiles E g ! i) \<noteq> fd_packageName (namedFiles E g ! j)"
  shows "\<exists>a b. a \<noteq> b \<and> (SetPackageNames E g = Inl (InconsistentImportPaths a b)
                      \<or> SetPackageNames E g = Inl (InconsistentPackageNames a b))"
proof -
  from ij obtain fi0 rest where gf: "genFiles g = fi0 # rest" by (cases "genFiles g") auto
  let ?n = "namedFiles E g"
  have "\<exists>k \<in> set rest. fd_importPath (?n ! fi0) \<noteq> fd_importPath (?n ! k)
                        \<or> fd_packageName (?n ! fi0) \<noteq> fd_packageName (?n ! k)"
  proof (rule ccontr)
    assume "\<not> ?thesis"
    then have "\<forall>k \<in> set (genFiles g). fd_importPath (?n ! k) = fd_importPath (?n ! fi0)
                                        \<and> fd_packageName (?n ! k) = fd_packageName (?n ! fi0)"
      using gf by auto
    with ij diff show False by auto
  qed
  then have "\<exists>f \<in> set (map (\<lambda>fi. ?n ! fi) rest).
               fd_importPath (?n ! fi0) \<noteq> fd_importPath f
               \<or> fd_packageName (?n ! fi0) \<noteq> fd_packageName f"
    by auto
  from consistencyLoop_differs [OF this] obtain a b where
    ab: "a \<noteq> b" and
    c: "consistencyLoop (?n ! fi0) (map (\<lambda>fi. ?n ! fi) rest) = Inl (InconsistentImportPaths a b)
        \<or> consistencyLoop (?n ! fi0) (map (\<lambda>fi. ?n ! fi) rest)
           = Inl (InconsistentPackageNames a b)"
    by blast
  from c have "SetPackageNames E g = Inl (InconsistentImportPaths a b)
               \<or> SetPackageNames E g = Inl (InconsistentPackageNames a b)"
    by (auto simp: SetPackageNames_def gf Let_def namedFiles_outputImportPath)
  with ab show ?thesis by blast
qed

text \<open>
  C7. When two of the files to generate differ, after the package names have been
  assigned, in their import path or in their package name, \<open>SetPackageNames\<close> ends
  the run with one of the two inconsistency errors, and so does \<open>main\<close>, whatever
  \<open>GenerateAllFiles\<close> would do: it is not reached and no response is returned. By
  \<open>namedFiles_nth\<close> the import path of a file to generate is the one \<open>WrapTypes\<close>
  computed and its package name the one the \<open>if\<close> chain of \<open>SetPackageNames\<close>
  computes.
\<close>

theorem inconsistent_packages_fatal:
  assumes p: "CommandLineParameters (New req dsk) (Parameter req) = Inr g1"
    and w: "WrapTypes E g1 = Inr g"
    and ij: "i \<in> set (genFiles g)" "j \<in> set (genFiles g)"
    and diff: "fd_importPath (namedFiles E g ! i) \<noteq> fd_importPath (namedFiles E g ! j)
               \<or> fd_packageName (namedFiles E g ! i) \<noteq> fd_packageName (namedFiles E g ! j)"
  shows "\<exists>e. (\<exists>a b. a \<noteq> b \<and> (e = InconsistentImportPaths a b
                                \<or> e = InconsistentPackageNames a b))
            \<and> SetPackageNames E g = Inl e
            \<and> (\<forall>generateAllFiles. main E generateAllFiles req dsk = Inl e)"
proof -
  from SetPackageNames_differs [OF ij diff] obtain e where
    e: "\<exists>a b. a \<noteq> b \<and> (e = InconsistentImportPaths a b \<or> e = InconsistentPackageNames a b)"
    and s: "SetPackageNames E g = Inl e"
    by blast
  from ij have "genFiles g \<noteq> []" by auto
  from WrapTypes_result(4) [OF w this] CommandLineParameters_fields(1) [OF p]
  have "FileToGenerate req \<noteq> []" by simp
  with p w s have "main E generateAllFiles req dsk = Inl e" for generateAllFiles
    by (simp add: main_def)
  with e s show ?thesis by blast
qed

lemma paths_parse:
  "parseParam (Parameter paths_request)
   = [(''Mm.proto'', ''over/m''), (''import_path'', ''cmd/p'')]"
  by (simp add: paths_request_def parseParam_def paramEntry_def)

lemma paths_params_eq:
  "CommandLineParameters (New paths_request Map.empty) (Parameter paths_request)
   = Inr paths_params"
  by (simp add: CommandLineParameters_def paths_parse paramCase_def New_def ParamGet_def
        Let_def paths_params_def)

lemma wrap_plain:
  "wrapDescriptors E (plain_file n opt) = []"
  "wrapExtensions (plain_file n opt) = []"
  "extractComments (plain_file n opt) = Map.empty"
  "fileIsProto3 (plain_file n opt)"
  "GetName (plain_file n opt) = n"
  "go_package (plain_file n opt) = opt"
  "PublicDependency (plain_file n opt) = []"
  "EnumType (plain_file n opt) = []"
  by (simp_all add: wrapDescriptors_def wrapExtensions_def extractComments_def
        fileIsProto3_def GetName_def plain_file_def)

lemma wrapFile_plain:
  "wrapFile E g (plain_file n opt)
   = Inr (plain_wrapped (plain_file n opt) (wrapPath E g (plain_file n opt)))"
  by (simp add: wrapFile_def wrap_plain buildNestedDescriptors_def buildNestedEnums_def
        wrapEnumDescriptors_def plain_wrapped_def Let_def)

lemma paths_wrapped_eq: "WrapTypes sample_env paths_params = Inr paths_wrapped"
proof -
  have a: "ProtoFile (Request paths_params)
           = [plain_file ''m.proto'' ''opt/m'', plain_file ''gen.proto'' ''opt/gen'',
              plain_file ''dep/opt.proto'' ''opt/path;pk'', plain_file ''dep/plain.proto'' []]"
    "FileToGenerate (Request paths_params) = [''gen.proto'']"
    by (simp_all add: paths_params_def paths_request_def New_def)
  have b: "wrapPath sample_env (paths_params\<lparr>allFiles := x, allFilesByName := y\<rparr>) f
           = wrapPath sample_env paths_params f" for x y f
    by (rule wrapPath_cong) simp_all
  have c: "wrapPath sample_env paths_params (plain_file ''m.proto'' ''opt/m'') = ''over/m''"
    "wrapPath sample_env paths_params (plain_file ''gen.proto'' ''opt/gen'') = ''cmd/p''"
    "wrapPath sample_env paths_params (plain_file ''dep/opt.proto'' ''opt/path;pk'') = ''opt/path''"
    "wrapPath sample_env paths_params (plain_file ''dep/plain.proto'' []) = ''dep''"
    by (simp_all add: wrapPath_def paths_params_def paths_request_def New_def wrap_plain
          goPackageOption_def sample_env_def sampleDir_def Let_def)
  show ?thesis
    unfolding WrapTypes_def a
    by (simp add: wrapFile_plain b c wrapImported_def wrap_plain plain_wrapped_def
          upt_rec [of 0] paths_wrapped_def a)
       (simp add: paths_params_def New_def eval_nat_numeral)
qed

theorem import_path_precedence_witness:
  "CommandLineParameters (New paths_request Map.empty) (Parameter paths_request)
     = Inr paths_params
   \<and> WrapTypes sample_env paths_params = Inr paths_wrapped
   \<and> length (allFiles paths_wrapped) = 4
   \<and> fd_importPath (allFiles paths_wrapped ! 0) = ''over/m''
   \<and> fd_importPath (allFiles paths_wrapped ! 1) = ''cmd/p''
   \<and> fd_importPath (allFiles paths_wrapped ! 2) = ''opt/path''
   \<and> fd_importPath (allFiles paths_wrapped ! 3) = ''dep''"
proof -
  note t = import_path_precedence [OF paths_params_eq paths_wrapped_eq]
  have l: "length (ProtoFile paths_request) = 4" by (simp add: paths_request_def)
  have f: "FileToGenerate paths_request = [''gen.proto'']"
    "ProtoFile paths_request ! 0 = plain_file ''m.proto'' ''opt/m''"
    "ProtoFile paths_request ! Suc 0 = plain_file ''gen.proto'' ''opt/gen''"
    "ProtoFile paths_request ! 2 = plain_file ''dep/opt.proto'' ''opt/path;pk''"
    "ProtoFile paths_request ! 3 = plain_file ''dep/plain.proto'' []"
    by (simp_all add: paths_request_def)
  have e: "importPathByPrecedence sample_env (parseParam (Parameter paths_request))
             [''gen.proto''] (plain_file ''m.proto'' ''opt/m'') = ''over/m''"
    "importPathByPrecedence sample_env (parseParam (Parameter paths_request))
             [''gen.proto''] (plain_file ''gen.proto'' ''opt/gen'') = ''cmd/p''"
    "importPathByPrecedence sample_env (parseParam (Parameter paths_request))
             [''gen.proto''] (plain_file ''dep/opt.proto'' ''opt/path;pk'') = ''opt/path''"
    "importPathByPrecedence sample_env (parseParam (Parameter paths_request))
             [''gen.proto''] (plain_file ''dep/plain.proto'' []) = ''dep''"
    by (simp_all add: importPathByPrecedence_def paths_parse wrap_plain goPackageOption_def
          sample_env_def sampleDir_def Let_def)
  from t l have "length (allFiles paths_wrapped) = 4" by simp
  moreover from t l have "fd_importPath (allFiles paths_wrapped ! 0) = ''over/m''"
    by (simp add: f e)
  moreover from t l have "fd_importPath (allFiles paths_wrapped ! 1) = ''cmd/p''"
    by (simp add: f e)
  moreover from t l have "fd_importPath (allFiles paths_wrapped ! 2) = ''opt/path''"
    by (simp add: f e)
  moreover from t l have "fd_importPath (allFiles paths_wrapped ! 3) = ''dep''"
    by (simp add: f e)
  ultimately show ?thesis using paths_params_eq paths_wrapped_eq by blast
qed

lemma pkgs_params_eq:
  "CommandLineParameters (New pkgs_request Map.empty) (Parameter pkgs_request) = Inr pkgs_params"
proof -
  have "parseParam (Parameter pkgs_request) = [(''path'', ''out'')]"
    by (simp add: pkgs_request_def parseParam_def paramEntry_def)
  then show ?thesis
    by (simp add: CommandLineParameters_def paramCase_def New_def ParamGet_def
          Let_def pkgs_params_def)
qed

lemma pkgs_wrapped_eq: "WrapTypes sample_env pkgs_params = Inr pkgs_wrapped"
proof -
  have a: "ProtoFile (Request pkgs_params)
           = [plain_file ''x/a.proto'' ''x/p;alpha'', plain_file ''x/b.proto'' ''x/p;beta'']"
    "FileToGenerate (Request pkgs_params) = [''x/a.proto'', ''x/b.proto'']"
    by (simp_all add: pkgs_params_def pkgs_request_def New_def)
  have b: "wrapPath sample_env (pkgs_params\<lparr>allFiles := x, allFilesByName := y\<rparr>) f
           = wrapPath sample_env pkgs_params f" for x y f
    by (rule wrapPath_cong) simp_all
  have c: "wrapPath sample_env pkgs_params (plain_file ''x/a.proto'' ''x/p;alpha'') = ''x/p''"
    "wrapPath sample_env pkgs_params (plain_file ''x/b.proto'' ''x/p;beta'') = ''x/p''"
    by (simp_all add: wrapPath_def pkgs_params_def pkgs_request_def New_def wrap_plain
          goPackageOption_def sample_env_def Let_def)
  show ?thesis
    unfolding WrapTypes_def a
    by (simp add: wrapFile_plain b c wrapImported_def wrap_plain plain_wrapped_def
          upt_rec [of 0] pkgs_wrapped_def a)
qed

lemma pkgs_named:
  "namedFiles sample_env pkgs_wrapped
   = [(plain_wrapped (plain_file ''x/a.proto'' ''x/p;alpha'') ''x/p'')\<lparr>fd_packageName := ''alpha''\<rparr>,
      (plain_wrapped (plain_file ''x/b.proto'' ''x/p;beta'') ''x/p'')\<lparr>fd_packageName := ''beta''\<rparr>]"
proof -
  have c: "sampleCleanPackageName ''alpha'' = ''alpha''" "sampleCleanPackageName ''beta'' = ''beta''"
    by (simp_all add: sampleCleanPackageName_def isGoKeyword_def camel_defs Let_def)
  have o: "goPackageOption sample_env (plain_file ''x/a.proto'' ''x/p;alpha'') = (''x/p'', ''alpha'', True)"
    "goPackageOption sample_env (plain_file ''x/b.proto'' ''x/p;beta'') = (''x/p'', ''beta'', True)"
    by (simp_all add: goPackageOption_def wrap_plain sample_env_def c Let_def)
  show ?thesis
    by (simp add: namedFiles_def assignPackageNames_def pkgs_wrapped_def packageNameFor_def o
          plain_wrapped_def)
qed

lemma pkgs_SetPackageNames:
  "SetPackageNames sample_env pkgs_wrapped = Inl (InconsistentPackageNames ''alpha'' ''beta'')"
proof -
  have g: "genFiles pkgs_wrapped = [0, 1]" by (simp add: pkgs_wrapped_def)
  show ?thesis
    by (simp add: SetPackageNames_def g Let_def namedFiles_outputImportPath pkgs_named
          plain_wrapped_def)
qed

theorem inconsistent_packages_fatal_witness:
  "CommandLineParameters (New pkgs_request Map.empty) (Parameter pkgs_request) = Inr pkgs_params
   \<and> WrapTypes sample_env pkgs_params = Inr pkgs_wrapped
   \<and> genFiles pkgs_wrapped = [0, 1]
   \<and> fd_importPath (namedFiles sample_env pkgs_wrapped ! 0) = ''x/p''
   \<and> fd_importPath (namedFiles sample_env pkgs_wrapped ! 1) = ''x/p''
   \<and> fd_packageName (namedFiles sample_env pkgs_wrapped ! 0) = ''alpha''
   \<and> fd_packageName (namedFiles sample_env pkgs_wrapped ! 1) = ''beta''
   \<and> SetPackageNames sample_env pkgs_wrapped = Inl (InconsistentPackageNames ''alpha'' ''beta'')
   \<and> main sample_env Inr pkgs_request Map.empty
       = Inl (InconsistentPackageNames ''alpha'' ''beta'')"
proof -
  have g: "genFiles pkgs_wrapped = [0, 1]" by (simp add: pkgs_wrapped_def)
  have n: "fd_importPath (namedFiles sample_env pkgs_wrapped ! 0) = ''x/p''"
    "fd_importPath (namedFiles sample_env pkgs_wrapped ! Suc 0) = ''x/p''"
    "fd_packageName (namedFiles sample_env pkgs_wrapped ! 0) = ''alpha''"
    "fd_packageName (namedFiles sample_env pkgs_wrapped ! Suc 0) = ''beta''"
    by (simp_all add: pkgs_named plain_wrapped_def)
  have i: "0 \<in> set (genFiles pkgs_wrapped)" "1 \<in> set (genFiles pkgs_wrapped)"
    by (simp_all add: g)
  have d: "fd_importPath (namedFiles sample_env pkgs_wrapped ! 0)
             \<noteq> fd_importPath (namedFiles sample_env pkgs_wrapped ! 1)
           \<or> fd_packageName (namedFiles sample_env pkgs_wrapped ! 0)
             \<noteq> fd_packageName (namedFiles sample_env pkgs_wrapped ! 1)"
    by (simp add: n)
  from inconsistent_packages_fatal [OF pkgs_params_eq pkgs_wrapped_eq i d] obtain e where
    s: "SetPackageNames sample_env pkgs_wrapped = Inl e" and
    m: "\<forall>generateAllFiles. main sample_env generateAllFiles pkgs_request Map.empty = Inl e"
    by blast
  from s pkgs_SetPackageNames have "e = InconsistentPackageNames ''alpha'' ''beta''" by simp
  with m have "main sample_env Inr pkgs_request Map.empty
               = Inl (InconsistentPackageNames ''alpha'' ''beta'')"
    by simp
  with pkgs_params_eq pkgs_wrapped_eq g n pkgs_SetPackageNames show ?thesis by simp
qed

subsection \<open>The type index\<close>

lemma insertAll_map_of: "insertAll es m = m ++ map_of (rev es)"
proof (induction es arbitrary: m)
  case Nil
  show ?case by (simp add: insertAll_def)
next
  case (Cons e es)
  obtain k v where e: "e = (k, v)" by (cases e)
  have "insertAll (e # es) m = insertAll es (m(k \<mapsto> v))"
    by (simp add: insertAll_def e)
  also have "\<dots> = m(k \<mapsto> v) ++ map_of (rev es)" by (rule Cons.IH)
  also have "\<dots> = m ++ map_of (rev (e # es))"
    by (simp add: e map_of_append fun_eq_iff map_add_def split: option.splits)
  finally show ?case .
qed

lemma fold_index:
  "fold (\<lambda>fi m. insertAll (descEntries fi (fs ! fi)) (insertAll (enumEntries fi (fs ! fi)) m))
     fis m
   = m ++ map_of (rev (concat (map (\<lambda>fi. enumEntries fi (fs ! fi) @ descEntries fi (fs ! fi))
                                 fis)))"
proof (induction fis arbitrary: m)
  case Nil
  show ?case by simp
next
  case (Cons fi fis)
  let ?F = "\<lambda>fi m. insertAll (descEntries fi (fs ! fi)) (insertAll (enumEntries fi (fs ! fi)) m)"
  let ?es = "\<lambda>fi. enumEntries fi (fs ! fi) @ descEntries fi (fs ! fi)"
  have "fold ?F (fi # fis) m = fold ?F fis (?F fi m)" by simp
  also have "\<dots> = ?F fi m ++ map_of (rev (concat (map ?es fis)))" by (rule Cons.IH)
  also have "\<dots> = m ++ map_of (rev (concat (map ?es (fi # fis))))"
    by (simp add: insertAll_map_of map_of_append)
  finally show ?case .
qed

lemma BuildTypeNameMap_map_of:
  "typeNameToObject (BuildTypeNameMap g) = map_of (rev (indexEntries g))"
  by (simp add: BuildTypeNameMap_def fold_index indexEntries_def)

lemma BuildTypeNameMap_other:
  "allFiles (BuildTypeNameMap g) = allFiles g"
  "outputImportPath (BuildTypeNameMap g) = outputImportPath g"
  by (simp_all add: BuildTypeNameMap_def)

lemma typeName_missing:
  "typeNameToObject g str = None \<Longrightarrow> typeName E g str = Inl (ObjectNotFound str)"
  by (simp add: typeName_def RecordTypeUse_def ObjectNamed_def)

text \<open>
  C2 (as amended). \<open>BuildTypeNameMap\<close> cannot end the run. The index it leaves maps
  every dotted name of a message or enum of the wrapped files to the object of the last
  declaration with that name, in the order file after file, enums before messages; its
  keys are exactly these names. A name that is declared twice is therefore not fatal:
  the later declaration silently replaces the earlier. When the names are distinct,
  \<open>ObjectNamed\<close> returns for each name the object that was entered with it. The lookup
  of a name that is not in the index ends the run with "can't find object with type",
  through \<open>ObjectNamed\<close> and through \<open>typeName\<close>.
\<close>

theorem type_index_last_wins:
  "typeNameToObject (BuildTypeNameMap g) = map_of (rev (indexEntries g))
   \<and> dom (typeNameToObject (BuildTypeNameMap g)) = fst ` set (indexEntries g)
   \<and> ((name, obj) \<in> set (indexEntries g) \<longrightarrow>
        (\<exists>obj'. (name, obj') \<in> set (indexEntries g)
                \<and> ObjectNamed (BuildTypeNameMap g) name = Inr obj'))
   \<and> (distinct (map fst (indexEntries g)) \<and> (name, obj) \<in> set (indexEntries g) \<longrightarrow>
        ObjectNamed (BuildTypeNameMap g) name = Inr obj)
   \<and> (name \<notin> fst ` set (indexEntries g) \<longrightarrow>
        ObjectNamed (BuildTypeNameMap g) name = Inl (ObjectNotFound name)
        \<and> typeName E (BuildTypeNameMap g) name = Inl (ObjectNotFound name))"
proof -
  let ?m = "typeNameToObject (BuildTypeNameMap g)"
  note m = BuildTypeNameMap_map_of [of g]
  have d: "dom ?m = fst ` set (indexEntries g)"
    by (simp add: m dom_map_of_conv_image_fst)
  have a: "\<exists>obj'. (name, obj') \<in> set (indexEntries g) \<and> ObjectNamed (BuildTypeNameMap g) name = Inr obj'"
    if "(name, obj) \<in> set (indexEntries g)"
  proof -
    from that have "name \<in> dom ?m" unfolding d by force
    then obtain obj' where o: "?m name = Some obj'" by blast
    then have "(name, obj') \<in> set (rev (indexEntries g))"
      unfolding m by (rule map_of_SomeD)
    with o show ?thesis by (auto simp: ObjectNamed_def)
  qed
  have b: "ObjectNamed (BuildTypeNameMap g) name = Inr obj"
    if "distinct (map fst (indexEntries g))" "(name, obj) \<in> set (indexEntries g)"
  proof -
    from that have "map_of (rev (indexEntries g)) name = Some obj"
      by (intro map_of_is_SomeI) (simp_all add: rev_map [symmetric])
    then show ?thesis by (simp add: ObjectNamed_def m)
  qed
  have c: "ObjectNamed (BuildTypeNameMap g) name = Inl (ObjectNotFound name)
           \<and> typeName E (BuildTypeNameMap g) name = Inl (ObjectNotFound name)"
    if "name \<notin> fst ` set (indexEntries g)"
  proof -
    from that d have "?m name = None" by blast
    then show ?thesis by (simp add: ObjectNamed_def typeName_missing)
  qed
  from m d a b c show ?thesis by blast
qed

lemma dup_params_eq:
  "CommandLineParameters (New dup_request Map.empty) (Parameter dup_request) = Inr dup_params"
proof -
  have "parseParam (Parameter dup_request) = [(''path'', ''out'')]"
    by (simp add: dup_request_def parseParam_def paramEntry_def)
  then show ?thesis
    by (simp add: CommandLineParameters_def paramCase_def New_def ParamGet_def
          Let_def dup_params_def)
qed

lemma ItoaNat_small [simp]: "ItoaNat 0 = ''0''" "ItoaNat 4 = ''4''"
  by (simp_all add: ItoaNat.simps digit_def)

lemma wrapFile_dup:
  "ImportMap g = Map.empty \<Longrightarrow> PackageImportPath g = []
   \<Longrightarrow> n = ''d/one.proto'' \<or> n = ''d/two.proto''
   \<Longrightarrow> wrapFile sample_env g (dup_file n flds) = Inr (dup_fd n flds)"
  by (auto simp add: wrapFile_def wrapPath_def dup_file_def dup_fd_def wrapDescriptors_def
        newDescriptor_def buildNestedDescriptors_def buildNestedEnums_def
        wrapEnumDescriptors_def wrapExtensions_def extractComments_def fileIsProto3_def
        goPackageOption_def GetName_def sample_env_def sampleDir_def Itoa_def Let_def)

lemma dup_wrapped_eq: "WrapTypes sample_env dup_params = Inr dup_wrapped"
proof -
  have a: "ProtoFile (Request dup_params)
           = [dup_file ''d/one.proto''
                [\<lparr>f_Name = ''id'', f_Type = TYPE_STRING, f_TypeName = []\<rparr>],
              dup_file ''d/two.proto'' []]"
    "FileToGenerate (Request dup_params) = [''d/one.proto'']"
    by (simp_all add: dup_params_def dup_request_def New_def)
  have b: "ImportMap (dup_params\<lparr>allFiles := x, allFilesByName := y\<rparr>) = Map.empty"
    "PackageImportPath (dup_params\<lparr>allFiles := x, allFilesByName := y\<rparr>) = []" for x y
    by (simp_all add: dup_params_def New_def)
  have c: "GetName (dup_file n flds) = n" "PublicDependency (dup_file n flds) = []" for n flds
    by (simp_all add: dup_file_def GetName_def)
  have e: "fd_proto (dup_fd n flds) = dup_file n flds" for n flds
    by (simp add: dup_fd_def)
  show ?thesis
    unfolding WrapTypes_def a
    by (simp add: wrapFile_dup b c e wrapImported_def upt_rec [of 0] dup_wrapped_def a)
       (simp add: dup_fd_def dup_params_def New_def)
qed

lemma dup_named_eq: "SetPackageNames sample_env dup_wrapped = Inr dup_named"
proof -
  have g: "genFiles dup_wrapped = [0]" by (simp add: dup_wrapped_def)
  have c: "sampleCleanPackageName [] = []" "sampleCleanPackageName ''p'' = ''p''"
    by (simp_all add: sampleCleanPackageName_def isGoKeyword_def camel_defs Let_def)
  have n: "namedFiles sample_env dup_wrapped
           = [(dup_fd ''d/one.proto''
                 [\<lparr>f_Name = ''id'', f_Type = TYPE_STRING, f_TypeName = []\<rparr>])
                \<lparr>fd_packageName := ''p''\<rparr>,
              dup_fd ''d/two.proto'' []]"
    by (simp add: namedFiles_def assignPackageNames_def defaultPackageNames_def dup_wrapped_def
          dup_params_def New_def packageNameFor_def goPackageOption_def defaultGoPackage_def
          dup_fd_def dup_file_def GetPackage_def sample_env_def c Let_def)
  have a: "assignPackageNames sample_env (dup_wrapped\<lparr>outputImportPath := x\<rparr>)
             (defaultPackageNames sample_env (dup_wrapped\<lparr>outputImportPath := x\<rparr>))
           = dup_wrapped\<lparr>outputImportPath := x, allFiles := namedFiles sample_env dup_wrapped\<rparr>"
    for x
    by (simp add: assignPackageNames_def defaultPackageNames_def namedFiles_def g
          packageNameFor_outputImportPath)
  show ?thesis
    by (simp add: SetPackageNames_def g a Let_def n dup_named_def)
       (simp add: dup_wrapped_def dup_fd_def dup_file_def GetName_def)
qed

lemma dup_entries:
  "indexEntries dup_named = [(''.p.A'', DescObj 0 0), (''.p.A'', DescObj 1 0)]"
  by (simp add: indexEntries_def dup_named_def dup_fd_def dup_file_def enumEntries_def
        descEntries_def dottedPkg_def dottedSlice_def GetPackage_def upt_rec [of 0] Let_def)

text \<open>
  C2, the claim as stated: a duplicate is fatal and a lookup returns the object that
  was inserted. The two files of \<open>dup_request\<close> both declare \<open>.p.A\<close>; the run passes
  \<open>BuildTypeNameMap\<close>, and the lookup of \<open>.p.A\<close> returns the message of the second
  file, not the message of the first file that was inserted under this name.
\<close>

theorem duplicate_name_not_fatal:
  "CommandLineParameters (New dup_request Map.empty) (Parameter dup_request) = Inr dup_params
   \<and> WrapTypes sample_env dup_params = Inr dup_wrapped
   \<and> SetPackageNames sample_env dup_wrapped = Inr dup_named
   \<and> indexEntries dup_named = [(''.p.A'', DescObj 0 0), (''.p.A'', DescObj 1 0)]
   \<and> ObjectNamed (BuildTypeNameMap dup_named) ''.p.A'' = Inr (DescObj 1 0)"
  using dup_params_eq dup_wrapped_eq dup_named_eq dup_entries
  by (simp add: ObjectNamed_def BuildTypeNameMap_map_of)

lemma sample_entries:
  "indexEntries (sample_api d)
   = [(''.common.Outer.Kind'', EnumObj 0 0), (''.common.Void'', DescObj 0 0),
      (''.common.Outer'', DescObj 0 1), (''.common.Outer.Inner'', DescObj 0 2),
      (''.user.Profile'', DescObj 1 0), (''.user.Ping'', DescObj 1 1)]"
  by (simp add: indexEntries_def sample_api_def sample_common_fd_def sample_user_fd_def
        sample_common_def sample_user_def enumEntries_def descEntries_def dottedPkg_def
        dottedSlice_def GetPackage_def upt_rec [of 0] Let_def)

theorem type_index_last_wins_witness:
  "(''.user.Ping'', DescObj 1 1) \<in> set (indexEntries (sample_api sample_disk))
   \<and> distinct (map fst (indexEntries (sample_api sample_disk)))
   \<and> ObjectNamed (BuildTypeNameMap (sample_api sample_disk)) ''.user.Ping'' = Inr (DescObj 1 1)
   \<and> ''.user.Missing'' \<notin> fst ` set (indexEntries (sample_api sample_disk))
   \<and> ObjectNamed (BuildTypeNameMap (sample_api sample_disk)) ''.user.Missing''
       = Inl (ObjectNotFound ''.user.Missing'')
   \<and> typeName sample_env (BuildTypeNameMap (sample_api sample_disk)) ''.user.Missing''
       = Inl (ObjectNotFound ''.user.Missing'')
   \<and> dom (typeNameToObject (BuildTypeNameMap (sample_api sample_disk)))
       = {''.common.Outer.Kind'', ''.common.Void'', ''.common.Outer'', ''.common.Outer.Inner'',
          ''.user.Profile'', ''.user.Ping''}"
proof -
  let ?g = "sample_api sample_disk"
  have a: "(''.user.Ping'', DescObj 1 1) \<in> set (indexEntries ?g)"
    by (simp add: sample_entries)
  have b: "distinct (map fst (indexEntries ?g))" by (simp add: sample_entries)
  have c: "''.user.Missing'' \<notin> fst ` set (indexEntries ?g)" by (simp add: sample_entries)
  note t = type_index_last_wins [where g = ?g and E = sample_env]
  from t [where name = "''.user.Ping''" and obj = "DescObj 1 1"] a b
  have r1: "ObjectNamed (BuildTypeNameMap ?g) ''.user.Ping'' = Inr (DescObj 1 1)" by blast
  from t [where name = "''.user.Missing''"] c
  have r2: "ObjectNamed (BuildTypeNameMap ?g) ''.user.Missing''
             = Inl (ObjectNotFound ''.user.Missing'')"
    and r3: "typeName sample_env (BuildTypeNameMap ?g) ''.user.Missing''
             = Inl (ObjectNotFound ''.user.Missing'')"
    by blast+
  from t [where name = "[]" and obj = "DescObj 0 0"]
  have "dom (typeNameToObject (BuildTypeNameMap ?g)) = fst ` set (indexEntries ?g)" by blast
  then have r4: "dom (typeNameToObject (BuildTypeNameMap ?g))
       = {''.common.Outer.Kind'', ''.common.Void'', ''.common.Outer'', ''.common.Outer.Inner'',
          ''.user.Profile'', ''.user.Ping''}"
    by (simp add: sample_entries)
  from a b c r1 r2 r3 r4 show ?thesis by blast
qed

subsection \<open>Public imports\<close>

lemma importedFrom_iff:
  "imp \<in> set (importedFrom fi j (allFiles g ! j))
   \<longleftrightarrow> id_file imp = fi \<and> reexported g j (id_o imp)"
  by (cases imp; cases "id_o imp")
     (auto simp: importedFrom_def reexported_def)

lemma mapE_Inr:
  "mapE f xs = Inr ys \<Longrightarrow> length ys = length xs \<and> (\<forall>i < length xs. f (xs ! i) = Inr (ys ! i))"
proof (induction xs arbitrary: ys)
  case Nil
  then show ?case by simp
next
  case (Cons x xs)
  from Cons.prems obtain y ys' where
    y: "f x = Inr y" and r: "mapE f xs = Inr ys'" and e: "ys = y # ys'"
    by (auto split: sum.splits)
  from Cons.IH [OF r] y e show ?case by (auto simp: nth_Cons split: nat.splits)
qed

lemma wrapImported_iff:
  assumes "wrapImported g fi = Inr sl"
  shows "imp \<in> set sl \<longleftrightarrow>
           id_file imp = fi
           \<and> (\<exists>index \<in> set (PublicDependency (fd_proto (allFiles g ! fi))).
                 \<exists>j. allFilesByName g (Dependency (fd_proto (allFiles g ! fi)) ! nat index) = Some j
                      \<and> reexported g j (id_o imp))"
proof -
  let ?file = "fd_proto (allFiles g ! fi)"
  let ?f = "\<lambda>index. if index < 0 \<or> int (length (Dependency ?file)) \<le> index
                     then Inl (Panic ''index out of range'')
                     else (case allFilesByName g (Dependency ?file ! nat index) of
                             None \<Rightarrow> Inl (Panic ''nil pointer dereference'')
                           | Some j \<Rightarrow> Inr (importedFrom fi j (allFiles g ! j)))"
  from assms obtain sls where
    m: "mapE ?f (PublicDependency ?file) = Inr sls" and s: "sl = concat sls"
    by (auto simp: wrapImported_def Let_def bindE_Inr_iff)
  note r = mapE_Inr [OF m]
  have each: "\<exists>j. allFilesByName g (Dependency ?file ! nat (PublicDependency ?file ! k)) = Some j
                   \<and> sls ! k = importedFrom fi j (allFiles g ! j)"
    if "k < length (PublicDependency ?file)" for k
  proof -
    from r that have "?f (PublicDependency ?file ! k) = Inr (sls ! k)" by blast
    then show ?thesis by (auto split: if_splits option.splits)
  qed
  show ?thesis
  proof
    assume "imp \<in> set sl"
    with s obtain xs where "xs \<in> set sls" and ix: "imp \<in> set xs" by auto
    then obtain k where k: "k < length sls" and "sls ! k = xs"
      by (auto simp: in_set_conv_nth)
    with ix have i: "imp \<in> set (sls ! k)" by simp
    from k r have k': "k < length (PublicDependency ?file)" by simp
    from each [OF k'] obtain j where
      j: "allFilesByName g (Dependency ?file ! nat (PublicDependency ?file ! k)) = Some j"
      and e: "sls ! k = importedFrom fi j (allFiles g ! j)"
      by blast
    from i e have "id_file imp = fi \<and> reexported g j (id_o imp)"
      by (simp add: importedFrom_iff)
    moreover from k' have "PublicDependency ?file ! k \<in> set (PublicDependency ?file)"
      by simp
    ultimately show "id_file imp = fi
           \<and> (\<exists>index \<in> set (PublicDependency ?file).
                 \<exists>j. allFilesByName g (Dependency ?file ! nat index) = Some j
                      \<and> reexported g j (id_o imp))"
      using j by blast
  next
    assume a: "id_file imp = fi
           \<and> (\<exists>index \<in> set (PublicDependency ?file).
                 \<exists>j. allFilesByName g (Dependency ?file ! nat index) = Some j
                      \<and> reexported g j (id_o imp))"
    then obtain k j where k: "k < length (PublicDependency ?file)" and
      j: "allFilesByName g (Dependency ?file ! nat (PublicDependency ?file ! k)) = Some j" and
      x: "reexported g j (id_o imp)"
      by (auto simp: in_set_conv_nth)
    from each [OF k] j have "sls ! k = importedFrom fi j (allFiles g ! j)" by simp
    with a x have "imp \<in> set (sls ! k)" by (simp add: importedFrom_iff)
    moreover from k r have "sls ! k \<in> set sls" by simp
    ultimately show "imp \<in> set sl" unfolding s by auto
  qed
qed

lemma wrap_protos:
  "map d_proto (wrapThisDescriptor E sl m parent fl i) = map d_proto sl @ allMessages m"
  "map d_proto (wrapEach E sl ms parent fl i)
   = map d_proto sl @ concat (map allMessages ms)"
  by (induction E sl m parent fl i and E sl ms parent fl i
        rule: wrapThisDescriptor_wrapEach.induct)
     (simp_all add: newDescriptor_def Let_def)

lemma wrapDescriptors_protos:
  "map d_proto (wrapDescriptors E f) = concat (map allMessages (MessageType f))"
  by (simp add: wrapDescriptors_def wrap_protos)

lemma wrapEnumDescriptors_protos:
  "map ed_proto (wrapEnumDescriptors E f descs)
   = EnumType f @ concat (map (\<lambda>d. m_EnumType (d_proto d)) descs)"
proof -
  have a: "map ed_proto (map (\<lambda>(i, enum). newEnumDescriptor E enum par i) (enumerate n es)) = es"
    for par n es
    by (induction es arbitrary: n) (simp_all add: newEnumDescriptor_def)
  have b: "map ed_proto
             (concat (map (\<lambda>(k, nested).
                      map (\<lambda>(i, enum). newEnumDescriptor E enum (Some (k, nested)) i)
                        (enumerate 0 (m_EnumType (d_proto nested))))
                 (enumerate n descs)))
           = concat (map (\<lambda>d. m_EnumType (d_proto d)) descs)" for n
  proof (induction descs arbitrary: n)
    case Nil
    show ?case by simp
  next
    case (Cons d ds)
    from Cons.IH [of "Suc n"] a [of "Some (n, d)" 0 "m_EnumType (d_proto d)"]
    show ?case by simp
  qed
  have "map ed_proto (wrapEnumDescriptors E f descs)
        = map ed_proto (map (\<lambda>(i, enum). newEnumDescriptor E enum None i)
                          (enumerate 0 (EnumType f)))
          @ map ed_proto
             (concat (map (\<lambda>(k, nested).
                      map (\<lambda>(i, enum). newEnumDescriptor E enum (Some (k, nested)) i)
                        (enumerate 0 (m_EnumType (d_proto nested))))
                 (enumerate 0 descs)))"
    unfolding wrapEnumDescriptors_def map_append ..
  also have "\<dots> = EnumType f @ concat (map (\<lambda>d. m_EnumType (d_proto d)) descs)"
    unfolding a b ..
  finally show ?thesis .
qed

lemma buildNestedDescriptors_protos:
  assumes "buildNestedDescriptors ds = Inr ds'"
  shows "map d_proto ds' = map d_proto ds"
proof -
  note r = mapE_Inr [OF assms [unfolded buildNestedDescriptors_def]]
  from r have l: "length ds' = length ds" by simp
  have "d_proto (ds' ! k) = d_proto (ds ! k)" if "k < length ds" for k
  proof -
    from that have "k < length [0..<length ds]" by simp
    from r [THEN conjunct2, rule_format, OF this] that show ?thesis
      by (auto simp: Let_def split: if_splits dest!: arg_cong [where f = d_proto])
  qed
  with l show ?thesis by (simp add: list_eq_iff_nth_eq)
qed

lemma buildNestedEnums_protos:
  assumes "buildNestedEnums ds es = Inr ds'"
  shows "map d_proto ds' = map d_proto ds"
proof -
  note r = mapE_Inr [OF assms [unfolded buildNestedEnums_def]]
  from r have l: "length ds' = length ds" by simp
  have "d_proto (ds' ! k) = d_proto (ds ! k)" if "k < length ds" for k
  proof -
    from that have "k < length [0..<length ds]" by simp
    from r [THEN conjunct2, rule_format, OF this] that show ?thesis
      by (auto simp: Let_def split: if_splits dest!: arg_cong [where f = d_proto])
  qed
  with l show ?thesis by (simp add: list_eq_iff_nth_eq)
qed

lemma wrapFile_slices:
  assumes "wrapFile E g f = Inr fd"
  shows "map d_proto (fd_desc fd) = concat (map allMessages (MessageType f))"
    and "map ed_proto (fd_enum fd)
         = EnumType f @ concat (map m_EnumType (concat (map allMessages (MessageType f))))"
    and "fd_ext fd = Extension f"
proof -
  from assms obtain desc1 desc2 where
    a: "buildNestedDescriptors (wrapDescriptors E f) = Inr desc1" and
    b: "buildNestedEnums desc1 (wrapEnumDescriptors E f desc1) = Inr desc2" and
    c: "fd_desc fd = desc2" "fd_enum fd = wrapEnumDescriptors E f desc1"
       "fd_ext fd = wrapExtensions f"
    by (auto simp: wrapFile_def Let_def bindE_Inr_iff)
  from buildNestedDescriptors_protos [OF a] wrapDescriptors_protos
  have d1: "map d_proto desc1 = concat (map allMessages (MessageType f))" by simp
  with buildNestedEnums_protos [OF b] c
  show "map d_proto (fd_desc fd) = concat (map allMessages (MessageType f))" by simp
  have "concat (map (\<lambda>d. m_EnumType (d_proto d)) desc1)
        = concat (map m_EnumType (map d_proto desc1))"
    by (simp add: comp_def)
  with c d1 show "map ed_proto (fd_enum fd)
         = EnumType f @ concat (map m_EnumType (concat (map allMessages (MessageType f))))"
    by (simp add: wrapEnumDescriptors_protos)
  from c show "fd_ext fd = Extension f" by (simp add: wrapExtensions_def)
qed

text \<open>
  C4 (as amended). For the importing file at position \<open>fi\<close>, \<open>wrapImported\<close> returns
  imported descriptors of that file for exactly these objects of the files named by its
  public dependencies: every message of the \<open>desc\<close> slice of the dependency that is not
  a map entry, every enum of its \<open>enum\<close> slice, every extension of its \<open>ext\<close> slice.
  The slices are those that wrapping has built: \<open>desc\<close> holds the messages of every
  depth, each followed by the messages nested in it, so nested messages are re-exported
  too; \<open>enum\<close> holds the top-level enums and then the enums of every message; \<open>ext\<close>
  holds the top-level extensions. An imported descriptor refers to the object; nothing
  is copied.
\<close>

theorem public_import_reexports:
  "(wrapImported g fi = Inr sl \<longrightarrow>
      (imp \<in> set sl \<longleftrightarrow>
         id_file imp = fi
         \<and> (\<exists>index \<in> set (PublicDependency (fd_proto (allFiles g ! fi))).
               \<exists>j. allFilesByName g (Dependency (fd_proto (allFiles g ! fi)) ! nat index) = Some j
                    \<and> reexported g j (id_o imp))))
   \<and> (wrapFile E params f = Inr fd \<longrightarrow>
        map d_proto (fd_desc fd) = concat (map allMessages (MessageType f))
      \<and> map ed_proto (fd_enum fd)
          = EnumType f @ concat (map m_EnumType (concat (map allMessages (MessageType f))))
      \<and> fd_ext fd = Extension f)"
  using wrapImported_iff [of g fi sl imp] wrapFile_slices [of E params f fd] by blast

lemma sample_params_eq:
  "CommandLineParameters (New sample_request sample_disk) (Parameter sample_request)
   = Inr sample_params"
proof -
  have "parseParam (Parameter sample_request) = [(''repo'', ''example.com/app''), (''path'', ''out'')]"
    by (simp add: sample_request_def parseParam_def paramEntry_def)
  then show ?thesis
    by (simp add: CommandLineParameters_def paramCase_def New_def ParamGet_def
          Let_def sample_params_def)
qed

lemma ItoaNat_digits [simp]:
  "ItoaNat 0 = ''0''" "ItoaNat 1 = ''1''" "ItoaNat (Suc 0) = ''1''" "ItoaNat 2 = ''2''"
  "ItoaNat 3 = ''3''" "ItoaNat 4 = ''4''" "ItoaNat 5 = ''5''" "ItoaNat 6 = ''6''"
  by (simp_all add: ItoaNat.simps digit_def)

lemma wrapFile_sample_common:
  "ImportMap g = Map.empty \<Longrightarrow> PackageImportPath g = []
   \<Longrightarrow> wrapFile sample_env g sample_common = Inr sample_common_fd"
  by (simp add: wrapFile_def wrapPath_def sample_common_def sample_common_fd_def
        wrapDescriptors_def newDescriptor_def buildNestedDescriptors_def buildNestedEnums_def
        wrapEnumDescriptors_def newEnumDescriptor_def wrapExtensions_def extractComments_def
        fileIsProto3_def goPackageOption_def GetName_def sample_env_def sampleDir_def Itoa_def
        upt_rec [of 0] Let_def)

lemma wrapFile_sample_user:
  "ImportMap g = Map.empty \<Longrightarrow> PackageImportPath g = []
   \<Longrightarrow> wrapFile sample_env g sample_user
       = Inr (sample_user_fd\<lparr>fd_imp := [], fd_packageName := []\<rparr>)"
  by (simp add: wrapFile_def wrapPath_def sample_user_def sample_user_fd_def
        wrapDescriptors_def newDescriptor_def buildNestedDescriptors_def buildNestedEnums_def
        wrapEnumDescriptors_def newEnumDescriptor_def wrapExtensions_def extractComments_def
        fileIsProto3_def goPackageOption_def GetName_def sample_env_def sampleDir_def Itoa_def
        upt_rec [of 0] Let_def)

lemma sample_wrapped_eq: "WrapTypes sample_env sample_params = Inr sample_wrapped"
proof -
  have a: "ProtoFile (Request sample_params) = [sample_common, sample_user]"
    "FileToGenerate (Request sample_params) = [''user/profile.proto'']"
    by (simp_all add: sample_params_def sample_request_def New_def)
  have b: "ImportMap (sample_params\<lparr>allFiles := x, allFilesByName := y\<rparr>) = Map.empty"
    "PackageImportPath (sample_params\<lparr>allFiles := x, allFilesByName := y\<rparr>) = []" for x y
    by (simp_all add: sample_params_def New_def)
  have c: "GetName sample_common = ''common/types.proto''"
    "GetName sample_user = ''user/profile.proto''"
    "PublicDependency sample_common = []" "PublicDependency sample_user = [0]"
    "Dependency sample_user = [''common/types.proto'']"
    by (simp_all add: sample_common_def sample_user_def GetName_def)
  have e: "fd_proto sample_common_fd = sample_common"
    "fd_proto (sample_user_fd\<lparr>fd_imp := [], fd_packageName := []\<rparr>) = sample_user"
    by (simp_all add: sample_common_fd_def sample_user_fd_def)
  have h: "sample_common_fd\<lparr>fd_imp := []\<rparr> = sample_common_fd"
    by (simp add: sample_common_fd_def)
  have i: "importedFrom (Suc 0) 0 sample_common_fd
           = [\<lparr>id_file = 1, id_o = DescObj 0 0\<rparr>, \<lparr>id_file = 1, id_o = DescObj 0 1\<rparr>,
              \<lparr>id_file = 1, id_o = DescObj 0 2\<rparr>, \<lparr>id_file = 1, id_o = EnumObj 0 0\<rparr>]"
    by (simp add: importedFrom_def sample_common_fd_def upt_rec [of 0])
  show ?thesis
    unfolding WrapTypes_def a
    by (simp add: wrapFile_sample_common wrapFile_sample_user b c e h i wrapImported_def
          upt_rec [of 0] sample_wrapped_def a)
       (simp add: sample_user_fd_def sample_params_def New_def)
qed

lemma sample_wrapped_files:
  "allFiles sample_wrapped ! 0 = sample_common_fd"
  "allFiles sample_wrapped ! Suc 0 = sample_user_fd\<lparr>fd_packageName := []\<rparr>"
  "allFilesByName sample_wrapped ''common/types.proto'' = Some 0"
  by (simp_all add: sample_wrapped_def)

lemma sample_wrapImported:
  "wrapImported sample_wrapped 1
   = Inr [\<lparr>id_file = 1, id_o = DescObj 0 0\<rparr>, \<lparr>id_file = 1, id_o = DescObj 0 1\<rparr>,
          \<lparr>id_file = 1, id_o = DescObj 0 2\<rparr>, \<lparr>id_file = 1, id_o = EnumObj 0 0\<rparr>]"
  by (simp add: wrapImported_def sample_wrapped_files sample_user_fd_def sample_user_def
        importedFrom_def sample_common_fd_def upt_rec [of 0])

theorem public_import_reexports_witness:
  "wrapImported sample_wrapped 1
     = Inr [\<lparr>id_file = 1, id_o = DescObj 0 0\<rparr>, \<lparr>id_file = 1, id_o = DescObj 0 1\<rparr>,
            \<lparr>id_file = 1, id_o = DescObj 0 2\<rparr>, \<lparr>id_file = 1, id_o = EnumObj 0 0\<rparr>]
   \<and> PublicDependency (fd_proto (allFiles sample_wrapped ! 1)) = [0]
   \<and> allFilesByName sample_wrapped (Dependency (fd_proto (allFiles sample_wrapped ! 1)) ! nat 0)
       = Some 0
   \<and> reexported sample_wrapped 0 (DescObj 0 2)
   \<and> \<lparr>id_file = 1, id_o = DescObj 0 2\<rparr>
       \<in> set [\<lparr>id_file = 1, id_o = DescObj 0 0\<rparr>, \<lparr>id_file = 1, id_o = DescObj 0 1\<rparr>,
               \<lparr>id_file = 1, id_o = DescObj 0 2\<rparr>, \<lparr>id_file = 1, id_o = EnumObj 0 0\<rparr>]
   \<and> wrapFile sample_env sample_params sample_common = Inr sample_common_fd
   \<and> map d_proto (fd_desc sample_common_fd)
       = [DescriptorProto ''Void'' [] [] [] [] False,
          DescriptorProto ''Outer''
            [\<lparr>f_Name = ''id'', f_Type = TYPE_INT64, f_TypeName = []\<rparr>]
            [DescriptorProto ''Inner'' [] [] [] [] False]
            [\<lparr>e_Name = ''Kind''\<rparr>] [] False,
          DescriptorProto ''Inner'' [] [] [] [] False]
   \<and> map ed_proto (fd_enum sample_common_fd) = [\<lparr>e_Name = ''Kind''\<rparr>]
   \<and> fd_ext sample_common_fd = []"
proof -
  let ?sl = "[\<lparr>id_file = 1, id_o = DescObj 0 0\<rparr>, \<lparr>id_file = 1, id_o = DescObj 0 1\<rparr>,
              \<lparr>id_file = 1, id_o = DescObj 0 2\<rparr>, \<lparr>id_file = 1, id_o = EnumObj 0 0\<rparr>]"
  let ?imp = "\<lparr>id_file = 1, id_o = DescObj 0 2\<rparr>"
  have w: "wrapFile sample_env sample_params sample_common = Inr sample_common_fd"
    by (rule wrapFile_sample_common) (simp_all add: sample_params_def New_def)
  have p: "PublicDependency (fd_proto (allFiles sample_wrapped ! 1)) = [0]"
    "allFilesByName sample_wrapped (Dependency (fd_proto (allFiles sample_wrapped ! 1)) ! nat 0)
     = Some 0"
    by (simp_all add: sample_wrapped_files sample_user_fd_def sample_user_def)
  have r: "reexported sample_wrapped 0 (DescObj 0 2)"
    by (simp add: reexported_def sample_wrapped_files sample_common_fd_def)
  from public_import_reexports
         [where g = sample_wrapped and fi = 1 and sl = ?sl and imp = ?imp and E = sample_env
            and params = sample_params and f = sample_common and fd = sample_common_fd]
       sample_wrapImported w p r
  have i: "?imp \<in> set ?sl"
    and d: "map d_proto (fd_desc sample_common_fd)
            = concat (map allMessages (MessageType sample_common))"
    and e: "map ed_proto (fd_enum sample_common_fd)
            = EnumType sample_common
              @ concat (map m_EnumType (concat (map allMessages (MessageType sample_common))))"
    and x: "fd_ext sample_common_fd = Extension sample_common"
    by auto
  from d e x have
    "map d_proto (fd_desc sample_common_fd)
       = [DescriptorProto ''Void'' [] [] [] [] False,
          DescriptorProto ''Outer''
            [\<lparr>f_Name = ''id'', f_Type = TYPE_INT64, f_TypeName = []\<rparr>]
            [DescriptorProto ''Inner'' [] [] [] [] False]
            [\<lparr>e_Name = ''Kind''\<rparr>] [] False,
          DescriptorProto ''Inner'' [] [] [] [] False]"
    "map ed_proto (fd_enum sample_common_fd) = [\<lparr>e_Name = ''Kind''\<rparr>]"
    "fd_ext sample_common_fd = []"
    by (simp_all add: sample_common_def)
  with sample_wrapImported w p r i show ?thesis by blast
qed

text \<open>
  C4, the claim as stated: no nested message is re-exported. In the sample request
  \<open>user/profile.proto\<close> imports \<open>common/types.proto\<close> publicly; after \<open>WrapTypes\<close>
  its imported descriptors include the message at position 2 of the dependency, which
  is \<open>Inner\<close>, nested in \<open>Outer\<close>.
\<close>

theorem nested_message_reexported:
  "CommandLineParameters (New sample_request sample_disk) (Parameter sample_request)
     = Inr sample_params
   \<and> WrapTypes sample_env sample_params = Inr sample_wrapped
   \<and> fd_imp (allFiles sample_wrapped ! 1)
       = [\<lparr>id_file = 1, id_o = DescObj 0 0\<rparr>, \<lparr>id_file = 1, id_o = DescObj 0 1\<rparr>,
          \<lparr>id_file = 1, id_o = DescObj 0 2\<rparr>, \<lparr>id_file = 1, id_o = EnumObj 0 0\<rparr>]
   \<and> d_typename (fd_desc (allFiles sample_wrapped ! 0) ! 2) = [''Outer'', ''Inner'']
   \<and> d_parent (fd_desc (allFiles sample_wrapped ! 0) ! 2) = Some 1"
  using sample_params_eq sample_wrapped_eq
  by (simp add: sample_wrapped_files sample_user_fd_def sample_common_fd_def)

end
